(* ===== verification/Prelude.thy ===== *)
theory Prelude
  imports Main "HOL-Library.Word" "HOL-Library.Log_Nat" "HOL-Library.Code_Target_Nat"
begin

text \<open>
  The vocabulary the components share: names for the machine integers of the code, the
  \<^verbatim>\<open>?\<close> operator of Rust on \<^verbatim>\<open>Result\<close> values (\<open>and_then\<close>), saturating and
  clamping integer arithmetic, little-endian byte images of words, and the lemmas about
  them. The development's \<^theory_text>\<open>named_theorems\<close> collections are declared here:
  \<open>reader_simps\<close> (decode after encode, one fact per field), \<open>queue_simps\<close> (what the
  operations of the offline queue do to its observers) and \<open>sec_defs\<close> (the definitions
  of the critical sections of the tracking client).
\<close>

unbundle bit_operations_syntax

named_theorems reader_simps
named_theorems queue_simps
named_theorems sec_defs

section \<open>Machine integers\<close>

type_synonym u8 = "8 word"
type_synonym u16 = "16 word"
type_synonym u32 = "32 word"
type_synonym u64 = "64 word"
type_synonym i16 = "16 word"
type_synonym i32 = "32 word"
type_synonym i64 = "64 word"

text \<open>The value range of a signed integer of \<open>w\<close> bits and saturation into it.\<close>

definition clamp_int :: "int \<Rightarrow> int \<Rightarrow> int \<Rightarrow> int" where
  "clamp_int lo hi x = (if x < lo then lo else if hi < x then hi else x)"

lemma clamp_int_id [simp]: "lo \<le> x \<Longrightarrow> x \<le> hi \<Longrightarrow> clamp_int lo hi x = x"
  by (simp add: clamp_int_def)

lemma clamp_int_bounds: "lo \<le> hi \<Longrightarrow> lo \<le> clamp_int lo hi x \<and> clamp_int lo hi x \<le> hi"
  by (simp add: clamp_int_def)

abbreviation i32_min :: int where "i32_min \<equiv> - 2147483648"
abbreviation i32_max :: int where "i32_max \<equiv> 2147483647"
abbreviation i64_min :: int where "i64_min \<equiv> - 9223372036854775808"
abbreviation i64_max :: int where "i64_max \<equiv> 9223372036854775807"

text \<open>\<^verbatim>\<open>i32::saturating_add\<close> and \<^verbatim>\<open>i64::saturating_sub\<close>.\<close>

definition i32_saturating_add :: "i32 \<Rightarrow> i32 \<Rightarrow> i32" where
  "i32_saturating_add a b = word_of_int (clamp_int i32_min i32_max (sint a + sint b))"

definition i64_saturating_sub :: "i64 \<Rightarrow> i64 \<Rightarrow> i64" where
  "i64_saturating_sub a b = word_of_int (clamp_int i64_min i64_max (sint a - sint b))"

lemma sint_word_of_int_id:
  assumes "- (2 ^ (LENGTH('a) - 1)) \<le> x" and "x < 2 ^ (LENGTH('a) - 1)"
  shows "sint (word_of_int x :: 'a::len word) = x"
  using assms by (simp add: sint_sbintrunc' signed_take_bit_int_eq_self)

lemma sint_i16_bounds: "- 32768 \<le> sint (x :: i16) \<and> sint x \<le> 32767"
  using sint_greater_eq [of x] sint_less [of x] by simp

lemma sint_i32_bounds: "i32_min \<le> sint (x :: i32) \<and> sint x \<le> i32_max"
  using sint_greater_eq [of x] sint_less [of x] by simp

lemma sint_i64_bounds: "i64_min \<le> sint (x :: i64) \<and> sint x \<le> i64_max"
  using sint_greater_eq [of x] sint_less [of x] by simp

lemma sint_i32_of_int: "i32_min \<le> x \<Longrightarrow> x \<le> i32_max \<Longrightarrow> sint (word_of_int x :: i32) = x"
  by (rule sint_word_of_int_id) simp_all

lemma sint_i64_of_int: "i64_min \<le> x \<Longrightarrow> x \<le> i64_max \<Longrightarrow> sint (word_of_int x :: i64) = x"
  by (rule sint_word_of_int_id) simp_all

lemma sint_i16_of_int: "- 32768 \<le> x \<Longrightarrow> x \<le> 32767 \<Longrightarrow> sint (word_of_int x :: i16) = x"
  by (rule sint_word_of_int_id) simp_all

lemma sint_i32_saturating_add:
  "sint (i32_saturating_add a b) = clamp_int i32_min i32_max (sint a + sint b)"
  using clamp_int_bounds [of i32_min i32_max "sint a + sint b"]
  by (simp add: i32_saturating_add_def sint_i32_of_int)

lemma sint_i64_saturating_sub:
  "sint (i64_saturating_sub a b) = clamp_int i64_min i64_max (sint a - sint b)"
  using clamp_int_bounds [of i64_min i64_max "sint a - sint b"]
  by (simp add: i64_saturating_sub_def sint_i64_of_int)

section \<open>Results\<close>

text \<open>\<open>and_then r k\<close> is the \<^verbatim>\<open>?\<close> operator: an error returns early.\<close>

definition and_then :: "'e + 'a \<Rightarrow> ('a \<Rightarrow> 'e + 'b) \<Rightarrow> 'e + 'b" where
  "and_then r k = (case r of Inl e \<Rightarrow> Inl e | Inr x \<Rightarrow> k x)"

lemma and_then_simps [simp]:
  "and_then (Inl e) k = Inl e"
  "and_then (Inr x) k = k x"
  by (simp_all add: and_then_def)

lemma and_then_cong [fundef_cong]:
  "r = r' \<Longrightarrow> (\<And>x. r' = Inr x \<Longrightarrow> k x = k' x) \<Longrightarrow> and_then r k = and_then r' k'"
  by (simp add: and_then_def split: sum.splits)

lemma and_then_Inr_iff: "and_then r k = Inr y \<longleftrightarrow> (\<exists>x. r = Inr x \<and> k x = Inr y)"
  by (cases r) auto

lemma and_then_Inl_iff:
  "and_then r k = Inl e \<longleftrightarrow> r = Inl e \<or> (\<exists>x. r = Inr x \<and> k x = Inl e)"
  by (cases r) auto

section \<open>Little-endian byte images\<close>

text \<open>\<open>le_bytes n v\<close> is the \<open>n\<close>-byte little-endian image of \<open>v\<close>; \<open>of_le_bytes\<close> reads one back.\<close>

primrec le_bytes :: "nat \<Rightarrow> nat \<Rightarrow> u8 list" where
  "le_bytes 0 v = []"
| "le_bytes (Suc n) v = of_nat v # le_bytes n (v div 256)"

primrec of_le_bytes :: "u8 list \<Rightarrow> nat" where
  "of_le_bytes [] = 0"
| "of_le_bytes (b # bs) = unat b + 256 * of_le_bytes bs"

lemma length_le_bytes [simp]: "length (le_bytes n v) = n"
  by (induction n arbitrary: v) simp_all

lemma unat_u8_less: "unat (b :: u8) < 256"
  using unsigned_less [where w = b and 'a = nat] by simp

lemma unat_of_nat_u8: "unat (of_nat v :: u8) = v mod 256"
  by (simp add: unat_of_nat)

lemma of_le_bytes_le_bytes: "of_le_bytes (le_bytes n v) = v mod 256 ^ n"
proof (induction n arbitrary: v)
  case 0
  show ?case by simp
next
  case (Suc n)
  have "v mod (256 * 256 ^ n) = v mod 256 + 256 * (v div 256 mod 256 ^ n)"
    by (simp add: mod_mult2_eq)
  with Suc show ?case by (simp add: unat_of_nat_u8)
qed

lemma of_le_bytes_bound: "of_le_bytes bs < 256 ^ length bs"
proof (induction bs)
  case Nil
  show ?case by simp
next
  case (Cons b bs)
  have "unat b < 256" by (rule unat_u8_less)
  with Cons show ?case by simp
qed

lemma le_bytes_of_le_bytes: "le_bytes (length bs) (of_le_bytes bs) = bs"
proof (induction bs)
  case Nil
  show ?case by simp
next
  case (Cons b bs)
  have b: "unat b < 256" by (rule unat_u8_less)
  have "of_nat (unat b + 256 * of_le_bytes bs) = b"
    using b unat_of_nat_u8 [of "unat b + 256 * of_le_bytes bs"]
    by (intro unsigned_word_eqI) (simp only: mod_mult_self2 mod_less)
  moreover have "(unat b + 256 * of_le_bytes bs) div 256 = of_le_bytes bs"
    using b by simp
  ultimately show ?case using Cons by simp
qed

section \<open>Lists\<close>

text \<open>\<^verbatim>\<open>Vec::remove(i)\<close> for an index in range.\<close>

definition remove_nth :: "nat \<Rightarrow> 'a list \<Rightarrow> 'a list" where
  "remove_nth i xs = take i xs @ drop (Suc i) xs"

lemma length_remove_nth: "i < length xs \<Longrightarrow> length (remove_nth i xs) = length xs - 1"
  by (simp add: remove_nth_def)

lemma set_remove_nth: "set (remove_nth i xs) \<subseteq> set xs"
  by (auto simp: remove_nth_def dest: in_set_takeD in_set_dropD)

lemma remove_nth_0 [simp]: "remove_nth 0 (x # xs) = xs"
  by (simp add: remove_nth_def)

lemma remove_nth_Suc [simp]: "remove_nth (Suc i) (x # xs) = x # remove_nth i xs"
  by (simp add: remove_nth_def)

lemma hd_last_remove_nth:
  assumes "0 < i" and "Suc i < length xs"
  shows "hd (remove_nth i xs) = hd xs \<and> last (remove_nth i xs) = last xs"
  using assms by (cases xs) (auto simp: remove_nth_def hd_append last_append)

section \<open>Text\<close>

text \<open>A natural number in decimal digits, as \<^verbatim>\<open>format!\<close> writes it.\<close>

fun show_nat :: "nat \<Rightarrow> string" where
  "show_nat n = (if n < 10 then [char_of (48 + n)] else show_nat (n div 10) @ [char_of (48 + n mod 10)])"

declare show_nat.simps [simp del]

end
