(* ===== verification/Float64.thy ===== *)
theory Float64
  imports Prelude Complex_Main
begin

text \<open>
  The primitive type \<^verbatim>\<open>f64\<close>: IEEE 754 binary64 with round-to-nearest-even, as Rust
  fixes it. A value is its 64-bit pattern; an operation decodes its operands, computes
  on rationals exactly, rounds once and encodes the result. \<^verbatim>\<open>sqrt\<close> is correctly
  rounded (Rust guarantees it). The functions whose precision Rust leaves open
  (\<^verbatim>\<open>sin\<close>, \<^verbatim>\<open>cos\<close>, \<^verbatim>\<open>asin\<close>) are a parameter of the
  definitions that use them, the record \<open>libm\<close>. Every operation computes one fixed
  quiet NaN where Rust leaves the payload open.
\<close>

section \<open>Bit patterns and values\<close>

datatype f64 = F64 (to_bits: u64)

text \<open>What a pattern denotes: NaN, a signed infinity, or a sign and a magnitude.\<close>

datatype fval = NaN | Infinite bool | Finite bool rat

definition pow2 :: "int \<Rightarrow> rat" where
  "pow2 k = (if 0 \<le> k then 2 ^ nat k else 1 / 2 ^ nat (- k))"

text \<open>Its code: squaring on integers, so that evaluation never builds a unary exponent.\<close>

fun pow2_int :: "int \<Rightarrow> int" where
  "pow2_int k = (if k \<le> 0 then 1
                 else let h = pow2_int (k div 2) in if even k then h * h else 2 * h * h)"

declare pow2_int.simps [simp del]

lemma pow2_int_eq: "pow2_int k = 2 ^ nat k"
proof (induction k rule: pow2_int.induct)
  case (1 k)
  show ?case
  proof (cases "k \<le> 0")
    case True
    then show ?thesis by (subst pow2_int.simps) simp
  next
    case False
    then have IH: "pow2_int (k div 2) = 2 ^ nat (k div 2)" by (rule 1)
    have "nat k = (if even k then nat (k div 2) + nat (k div 2)
                   else Suc (nat (k div 2) + nat (k div 2)))"
      using False by (auto elim!: evenE oddE)
    then show ?thesis
      using False by (subst pow2_int.simps) (simp add: IH Let_def power_add)
  qed
qed

lemma pow2_code [code]:
  "pow2 k = (if 0 \<le> k then of_int (pow2_int k) else 1 / of_int (pow2_int (- k)))"
  by (simp add: pow2_def pow2_int_eq)

text \<open>\<open>2 ^ 52\<close>, \<open>2 ^ 63\<close>, and the pattern of infinity without its sign.\<close>

abbreviation two52 :: int where "two52 \<equiv> 4503599627370496"
abbreviation two63 :: int where "two63 \<equiv> 9223372036854775808"
abbreviation inf_bits :: int where "inf_bits \<equiv> 9218868437227405312"

definition f64_value :: "f64 \<Rightarrow> fval" where
  "f64_value x =
     (let n = uint (to_bits x); s = (two63 \<le> n);
          e = n div two52 mod 2048; f = n mod two52
      in if e = 2047 then (if f = 0 then Infinite s else NaN)
         else if e = 0 then Finite s (of_int f * pow2 (- 1074))
         else Finite s (of_int (two52 + f) * pow2 (e - 1075)))"

definition f64_nan :: f64 where
  "f64_nan = F64 0x7FF8000000000000"

definition f64_inf :: "bool \<Rightarrow> f64" where
  "f64_inf s = F64 (word_of_int ((if s then two63 else 0) + inf_bits))"

section \<open>Rounding\<close>

text \<open>Round half to even of a non-negative rational, and the exponent of its leading bit.\<close>

definition round_half_even :: "rat \<Rightarrow> int" where
  "round_half_even x =
     (let n = \<lfloor>x\<rfloor>; d = x - of_int n
      in if d < 1 / 2 then n else if 1 / 2 < d then n + 1 else if even n then n else n + 1)"

fun ilog2 :: "int \<Rightarrow> int" where
  "ilog2 n = (if n < 2 then 0 else 1 + ilog2 (n div 2))"

declare ilog2.simps [simp del]

definition flog2 :: "rat \<Rightarrow> int" where
  "flog2 x =
     (let k = ilog2 (fst (quotient_of x)) - ilog2 (snd (quotient_of x))
      in if pow2 k \<le> x then k else k - 1)"

text \<open>The exponent of the last place of the result: the format's least exponent bounds it below.\<close>

definition lsb_exp :: "rat \<Rightarrow> int" where
  "lsb_exp x = max (flog2 x) (- 1022) - 52"

definition f64_mant :: "rat \<Rightarrow> int" where
  "f64_mant x = round_half_even (x / pow2 (lsb_exp x))"

text \<open>The rounded magnitude, as a number.\<close>

definition f64_rnd :: "rat \<Rightarrow> rat" where
  "f64_rnd x = (if x = 0 then 0 else of_int (f64_mant x) * pow2 (lsb_exp x))"

text \<open>
  The pattern of the nearest value. Exponent field and mantissa are added, not packed:
  a mantissa rounded up to \<open>2 ^ 53\<close> carries into the exponent.
\<close>

definition f64_encode :: "bool \<Rightarrow> rat \<Rightarrow> f64" where
  "f64_encode s x =
     (let b = (if x = 0 then 0 else (lsb_exp x + 1074) * two52 + f64_mant x)
      in if inf_bits \<le> b then f64_inf s
         else F64 (word_of_int ((if s then two63 else 0) + b)))"

section \<open>Operations\<close>

definition f64_of_val :: "fval \<Rightarrow> f64" where
  "f64_of_val v = (case v of NaN \<Rightarrow> f64_nan | Infinite s \<Rightarrow> f64_inf s | Finite s x \<Rightarrow> f64_encode s x)"

definition signed :: "bool \<Rightarrow> rat \<Rightarrow> rat" where
  "signed s x = (if s then - x else x)"

definition f64_neg :: "f64 \<Rightarrow> f64" where
  "f64_neg x = F64 (to_bits x XOR 0x8000000000000000)"

definition f64_abs :: "f64 \<Rightarrow> f64" where
  "f64_abs x = F64 (to_bits x AND 0x7FFFFFFFFFFFFFFF)"

definition f64_mul :: "f64 \<Rightarrow> f64 \<Rightarrow> f64" where
  "f64_mul a b = f64_of_val
     (case (f64_value a, f64_value b) of
        (NaN, _) \<Rightarrow> NaN
      | (_, NaN) \<Rightarrow> NaN
      | (Infinite s, Infinite t) \<Rightarrow> Infinite (s \<noteq> t)
      | (Infinite s, Finite t y) \<Rightarrow> (if y = 0 then NaN else Infinite (s \<noteq> t))
      | (Finite s x, Infinite t) \<Rightarrow> (if x = 0 then NaN else Infinite (s \<noteq> t))
      | (Finite s x, Finite t y) \<Rightarrow> Finite (s \<noteq> t) (x * y))"

definition f64_div :: "f64 \<Rightarrow> f64 \<Rightarrow> f64" where
  "f64_div a b = f64_of_val
     (case (f64_value a, f64_value b) of
        (NaN, _) \<Rightarrow> NaN
      | (_, NaN) \<Rightarrow> NaN
      | (Infinite s, Infinite t) \<Rightarrow> NaN
      | (Infinite s, Finite t y) \<Rightarrow> Infinite (s \<noteq> t)
      | (Finite s x, Infinite t) \<Rightarrow> Finite (s \<noteq> t) 0
      | (Finite s x, Finite t y) \<Rightarrow>
          (if y = 0 then (if x = 0 then NaN else Infinite (s \<noteq> t)) else Finite (s \<noteq> t) (x / y)))"

definition f64_add :: "f64 \<Rightarrow> f64 \<Rightarrow> f64" where
  "f64_add a b = f64_of_val
     (case (f64_value a, f64_value b) of
        (NaN, _) \<Rightarrow> NaN
      | (_, NaN) \<Rightarrow> NaN
      | (Infinite s, Infinite t) \<Rightarrow> (if s = t then Infinite s else NaN)
      | (Infinite s, Finite t y) \<Rightarrow> Infinite s
      | (Finite s x, Infinite t) \<Rightarrow> Infinite t
      | (Finite s x, Finite t y) \<Rightarrow>
          (let v = signed s x + signed t y
           in if v = 0 then Finite (s \<and> t) 0 else Finite (v < 0) \<bar>v\<bar>))"

definition f64_sub :: "f64 \<Rightarrow> f64 \<Rightarrow> f64" where
  "f64_sub a b = f64_add a (f64_neg b)"

text \<open>Integer square root by binary digits, and the correctly rounded \<^verbatim>\<open>f64::sqrt\<close>.\<close>

fun isqrt :: "int \<Rightarrow> int" where
  "isqrt n = (if n \<le> 0 then 0
              else let r = 2 * isqrt (n div 4) in if (r + 1) * (r + 1) \<le> n then r + 1 else r)"

declare isqrt.simps [simp del]

text \<open>
  55 or more leading bits of the root, with a half unit added when the root is not
  exact, so that rounding to 53 bits decides as on the real root.
\<close>

definition sqrt_mag :: "rat \<Rightarrow> rat" where
  "sqrt_mag x =
     (let e = flog2 x div 2 - 54; y = x / pow2 (2 * e); r = isqrt \<lfloor>y\<rfloor>
      in (if of_int (r * r) = y then of_int r else of_int r + 1 / 2) * pow2 e)"

definition f64_sqrt :: "f64 \<Rightarrow> f64" where
  "f64_sqrt a = (case f64_value a of
        NaN \<Rightarrow> f64_nan
      | Infinite s \<Rightarrow> (if s then f64_nan else a)
      | Finite s x \<Rightarrow> (if x = 0 then a else if s then f64_nan else f64_encode False (sqrt_mag x)))"

text \<open>\<^verbatim>\<open>f64::round\<close> (half away from zero) and \<^verbatim>\<open>f64::floor\<close>.\<close>

definition f64_round :: "f64 \<Rightarrow> f64" where
  "f64_round a = (case f64_value a of
        Finite s x \<Rightarrow> f64_encode s (of_int \<lfloor>x + 1 / 2\<rfloor>) | _ \<Rightarrow> a)"

definition f64_floor :: "f64 \<Rightarrow> f64" where
  "f64_floor a = (case f64_value a of
        Finite s x \<Rightarrow> f64_encode s (of_int (if s then \<lceil>x\<rceil> else \<lfloor>x\<rfloor>)) | _ \<Rightarrow> a)"

text \<open>Comparisons: every comparison with NaN is false.\<close>

definition f64_lt :: "f64 \<Rightarrow> f64 \<Rightarrow> bool" where
  "f64_lt a b = (case (f64_value a, f64_value b) of
        (NaN, _) \<Rightarrow> False
      | (_, NaN) \<Rightarrow> False
      | (Infinite s, Infinite t) \<Rightarrow> s \<and> \<not> t
      | (Infinite s, Finite t y) \<Rightarrow> s
      | (Finite s x, Infinite t) \<Rightarrow> \<not> t
      | (Finite s x, Finite t y) \<Rightarrow> signed s x < signed t y)"

definition f64_eq :: "f64 \<Rightarrow> f64 \<Rightarrow> bool" where
  "f64_eq a b = (case (f64_value a, f64_value b) of
        (Infinite s, Infinite t) \<Rightarrow> s = t
      | (Finite s x, Finite t y) \<Rightarrow> signed s x = signed t y
      | _ \<Rightarrow> False)"

definition f64_le :: "f64 \<Rightarrow> f64 \<Rightarrow> bool" where
  "f64_le a b = (f64_lt a b \<or> f64_eq a b)"

abbreviation f64_gt :: "f64 \<Rightarrow> f64 \<Rightarrow> bool" where "f64_gt a b \<equiv> f64_lt b a"
abbreviation f64_ge :: "f64 \<Rightarrow> f64 \<Rightarrow> bool" where "f64_ge a b \<equiv> f64_le b a"

text \<open>\<^verbatim>\<open>f64::max\<close> ignores a NaN operand; \<^verbatim>\<open>f64::clamp\<close> keeps it.\<close>

definition f64_max :: "f64 \<Rightarrow> f64 \<Rightarrow> f64" where
  "f64_max a b = (if f64_value a = NaN then b else if f64_value b = NaN then a
                  else if f64_lt a b then b else a)"

definition f64_clamp :: "f64 \<Rightarrow> f64 \<Rightarrow> f64 \<Rightarrow> f64" where
  "f64_clamp x lo hi = (if f64_lt x lo then lo else if f64_gt x hi then hi else x)"

text \<open>Casts: \<^verbatim>\<open>as f64\<close> rounds, \<^verbatim>\<open>as i32\<close> and its kin truncate and saturate, NaN is 0.\<close>

definition f64_of_int :: "int \<Rightarrow> f64" where
  "f64_of_int i = f64_encode (i < 0) (of_int \<bar>i\<bar>)"

definition f64_to_int :: "int \<Rightarrow> int \<Rightarrow> f64 \<Rightarrow> int" where
  "f64_to_int lo hi a = (case f64_value a of
        NaN \<Rightarrow> 0
      | Infinite s \<Rightarrow> (if s then lo else hi)
      | Finite s x \<Rightarrow> clamp_int lo hi (if s then - \<lfloor>x\<rfloor> else \<lfloor>x\<rfloor>))"

definition f64_to_i32 :: "f64 \<Rightarrow> i32" where
  "f64_to_i32 a = word_of_int (f64_to_int i32_min i32_max a)"

definition f64_to_u16 :: "f64 \<Rightarrow> u16" where
  "f64_to_u16 a = word_of_int (f64_to_int 0 65535 a)"

definition f64_to_u64 :: "f64 \<Rightarrow> u64" where
  "f64_to_u64 a = word_of_int (f64_to_int 0 18446744073709551615 a)"

definition f64_rem :: "f64 \<Rightarrow> f64 \<Rightarrow> f64" where
  "f64_rem a b = (case (f64_value a, f64_value b) of
        (Finite s x, Infinite t) \<Rightarrow> a
      | (Finite s x, Finite t y) \<Rightarrow>
          (if y = 0 then f64_nan else f64_encode s (x - of_int \<lfloor>x / y\<rfloor> * y))
      | _ \<Rightarrow> f64_nan)"

definition f64_rem_euclid :: "f64 \<Rightarrow> f64 \<Rightarrow> f64" where
  "f64_rem_euclid a b =
     (let r = f64_rem a b
      in if f64_lt r (f64_of_int 0) then f64_add r (f64_abs b) else r)"

text \<open>\<^verbatim>\<open>x.powi(2)\<close> is one multiplication; \<^verbatim>\<open>to_radians\<close> multiplies by the constant \<open>PI / 180\<close>.\<close>

definition f64_sq :: "f64 \<Rightarrow> f64" where
  "f64_sq x = f64_mul x x"

definition f64_to_radians :: "f64 \<Rightarrow> f64" where
  "f64_to_radians x = f64_mul x (f64_div (F64 0x400921FB54442D18) (f64_of_int 180))"

record libm =
  m_sin :: "f64 \<Rightarrow> f64"
  m_cos :: "f64 \<Rightarrow> f64"
  m_asin :: "f64 \<Rightarrow> f64"

end
