(* ===== verification/Tracking_Types.thy ===== *)
theory Tracking_Types
  imports Float64
begin

text \<open>
  The data of the tracking plane: \<^verbatim>\<open>src/tracking/types.rs\<close> (samples, wire codes),
  \<^verbatim>\<open>src/tracking/cmd.rs\<close> (commands and events) and
  \<^verbatim>\<open>src/tracking/errors.rs\<close> (the typed error and its classification). Every enum
  keeps the constructors and fields of the source in their order. A \<^verbatim>\<open>String\<close> is the
  list of its UTF-8 bytes as characters.
\<close>

section \<open>Samples and wire codes (types.rs)\<close>

definition PROTOCOL_VERSION :: u8 where
  "PROTOCOL_VERSION = 2"

record lat_lng =
  latitude :: f64
  longitude :: f64
  altitude :: "f64 option"
  accuracy :: "f64 option"
  heading :: "f64 option"
  speed :: "f64 option"
  timestamp_ms :: "i64 option"

definition lat_lng_new :: "f64 \<Rightarrow> f64 \<Rightarrow> lat_lng" where
  "lat_lng_new lat lon =
     \<lparr>latitude = lat, longitude = lon, altitude = None, accuracy = None,
      heading = None, speed = None, timestamp_ms = None\<rparr>"

datatype error_code = Auth | TrackNotFound | Fenced | TryAgain | Invalid | Unauthorized

fun error_code_u8 :: "error_code \<Rightarrow> u8" where
  "error_code_u8 Auth = 1"
| "error_code_u8 TrackNotFound = 2"
| "error_code_u8 Fenced = 3"
| "error_code_u8 TryAgain = 4"
| "error_code_u8 Invalid = 5"
| "error_code_u8 Unauthorized = 6"

definition error_code_from_u8 :: "u8 \<Rightarrow> error_code option" where
  "error_code_from_u8 v =
     (if v = 1 then Some Auth
      else if v = 2 then Some TrackNotFound
      else if v = 3 then Some Fenced
      else if v = 4 then Some TryAgain
      else if v = 5 then Some Invalid
      else if v = 6 then Some Unauthorized
      else None)"

lemma error_code_from_to_u8 [simp]: "error_code_from_u8 (error_code_u8 c) = Some c"
  by (cases c) (simp_all add: error_code_from_u8_def)

lemma error_code_u8_inject: "error_code_u8 a = error_code_u8 b \<Longrightarrow> a = b"
  by (metis error_code_from_to_u8 option.inject)

datatype command_ack_status = AckUnspecified | AckOk | AckRejected | AckFailed

fun command_ack_status_u8 :: "command_ack_status \<Rightarrow> u8" where
  "command_ack_status_u8 AckUnspecified = 0"
| "command_ack_status_u8 AckOk = 1"
| "command_ack_status_u8 AckRejected = 2"
| "command_ack_status_u8 AckFailed = 3"

definition command_ack_status_from_u8 :: "u8 \<Rightarrow> command_ack_status" where
  "command_ack_status_from_u8 v =
     (if v = 1 then AckOk else if v = 2 then AckRejected
      else if v = 3 then AckFailed else AckUnspecified)"

datatype finish_reason = ClientStop | Superseded | Idle

fun finish_reason_as_str :: "finish_reason \<Rightarrow> string" where
  "finish_reason_as_str ClientStop = ''client_stop''"
| "finish_reason_as_str Superseded = ''superseded''"
| "finish_reason_as_str Idle = ''idle''"

definition finish_reason_parse :: "string \<Rightarrow> finish_reason option" where
  "finish_reason_parse s =
     (if s = ''client_stop'' then Some ClientStop
      else if s = ''superseded'' then Some Superseded
      else if s = ''idle'' then Some Idle
      else None)"

record relocate =
  rel_endpoint :: string
  rel_retry_after_ms :: u32

record command =
  cmd_command_id :: string
  cmd_payload :: "u8 list"
  cmd_timestamp_ms :: "i64 option"

text \<open>
  The wire enums are finite and ordered by their codes: the library's enumeration and
  order apply to them, so that statements over all codes evaluate.
\<close>

instantiation error_code :: enum
begin
definition enum_error_code :: "error_code list" where
  "enum_error_code = [Auth, TrackNotFound, Fenced, TryAgain, Invalid, Unauthorized]"
definition enum_all_error_code :: "(error_code \<Rightarrow> bool) \<Rightarrow> bool" where
  "enum_all_error_code P \<longleftrightarrow> list_all P [Auth, TrackNotFound, Fenced, TryAgain, Invalid, Unauthorized]"
definition enum_ex_error_code :: "(error_code \<Rightarrow> bool) \<Rightarrow> bool" where
  "enum_ex_error_code P \<longleftrightarrow> list_ex P [Auth, TrackNotFound, Fenced, TryAgain, Invalid, Unauthorized]"
instance
proof
  have U: "(UNIV :: error_code set) = {Auth, TrackNotFound, Fenced, TryAgain, Invalid, Unauthorized}"
    using error_code.exhaust by auto
  show "(UNIV :: error_code set) = set enum_class.enum"
    by (simp add: U enum_error_code_def)
  show "distinct (enum_class.enum :: error_code list)"
    by (simp add: enum_error_code_def)
  fix P :: "error_code \<Rightarrow> bool"
  show "enum_class.enum_all P \<longleftrightarrow> Ball UNIV P"
    by (simp add: U enum_all_error_code_def)
  show "enum_class.enum_ex P \<longleftrightarrow> Bex UNIV P"
    by (simp add: U enum_ex_error_code_def)
qed
end

instantiation error_code :: linorder
begin
definition less_eq_error_code :: "error_code \<Rightarrow> error_code \<Rightarrow> bool" where
  "less_eq_error_code a b \<longleftrightarrow> error_code_u8 a \<le> error_code_u8 b"
definition less_error_code :: "error_code \<Rightarrow> error_code \<Rightarrow> bool" where
  "less_error_code a b \<longleftrightarrow> error_code_u8 a < error_code_u8 b"
instance
proof
  fix a b c :: error_code
  show "a < b \<longleftrightarrow> a \<le> b \<and> \<not> b \<le> a"
    by (auto simp: less_eq_error_code_def less_error_code_def)
  show "a \<le> a" by (simp add: less_eq_error_code_def)
  show "a \<le> b \<Longrightarrow> b \<le> c \<Longrightarrow> a \<le> c" by (simp add: less_eq_error_code_def)
  show "a \<le> b \<Longrightarrow> b \<le> a \<Longrightarrow> a = b"
    by (rule error_code_u8_inject) (simp add: less_eq_error_code_def)
  show "a \<le> b \<or> b \<le> a" by (auto simp: less_eq_error_code_def)
qed
end

section \<open>Commands and events (cmd.rs)\<close>

datatype client_cmd =
    Resume string u64
  | TrackStart "lat_lng option" "lat_lng list" "u8 list"
  | TrackStop string
  | LocationAdd string u64 lat_lng
  | LocationBatch string u64 "lat_lng list"
  | Subscribe string bool u32
  | Unsubscribe u8
  | Event string "u8 list" "i64 option"
  | CommandAck string command_ack_status "string option"

datatype server_evt =
    Hello u8 string u32
  | Relocate string u32
  | ResumeOk string u64
  | TrackStarted string "u8 list"
  | TrackStopped string
  | Ack u64
  | LocationAdded string string lat_lng u64 u8
  | Subscribed u8 string string "lat_lng option" "lat_lng list" f64 f64 string string "u8 list"
      bool "i64 option"
  | Error error_code string "string option" "u32 option"
  | EventAdded string string "u8 list" "i64 option" u8
  | Command string "u8 list" "i64 option"
  | DevicePresence string bool "i64 option" u8

fun is_resume :: "client_cmd \<Rightarrow> bool" where
  "is_resume (Resume _ _) = True"
| "is_resume _ = False"

fun is_track_start :: "client_cmd \<Rightarrow> bool" where
  "is_track_start (TrackStart _ _ _) = True"
| "is_track_start _ = False"

fun is_loc :: "client_cmd \<Rightarrow> bool" where
  "is_loc (LocationAdd _ _ _) = True"
| "is_loc (LocationBatch _ _ _) = True"
| "is_loc _ = False"

section \<open>Errors (errors.rs)\<close>

record error =
  err_code :: error_code
  err_message :: string
  err_track_uid :: "string option"
  err_retry_after_ms :: "u32 option"

definition new_error :: "error_code \<Rightarrow> string \<Rightarrow> error" where
  "new_error c msg =
     \<lparr>err_code = c, err_message = msg, err_track_uid = None, err_retry_after_ms = None\<rparr>"

fun error_code_debug :: "error_code \<Rightarrow> string" where
  "error_code_debug Auth = ''Auth''"
| "error_code_debug TrackNotFound = ''TrackNotFound''"
| "error_code_debug Fenced = ''Fenced''"
| "error_code_debug TryAgain = ''TryAgain''"
| "error_code_debug Invalid = ''Invalid''"
| "error_code_debug Unauthorized = ''Unauthorized''"

definition error_fmt :: "error \<Rightarrow> string" where
  "error_fmt e =
     (if err_message e = [] then ''tracking: '' @ error_code_debug (err_code e)
      else ''tracking: '' @ err_message e @ '' ('' @ error_code_debug (err_code e) @ '')'')"

definition error_from_evt :: "server_evt \<Rightarrow> error" where
  "error_from_evt evt = (case evt of
       Error c msg uid retry \<Rightarrow>
         \<lparr>err_code = c, err_message = msg, err_track_uid = uid, err_retry_after_ms = retry\<rparr>
     | _ \<Rightarrow> new_error Invalid ''unknown error'')"

definition is_fatal_resume_error :: "error_code \<Rightarrow> bool" where
  "is_fatal_resume_error c \<longleftrightarrow> c = TrackNotFound \<or> c = Auth"

definition is_retry_resume_error :: "error_code \<Rightarrow> bool" where
  "is_retry_resume_error c \<longleftrightarrow> c = Fenced \<or> c = TryAgain"

definition is_auth_error :: "error_code \<Rightarrow> bool" where
  "is_auth_error c \<longleftrightarrow> c = Auth \<or> c = Unauthorized"

section \<open>Facts\<close>

lemma error_code_from_u8_Some: "error_code_from_u8 v = Some c \<Longrightarrow> v = error_code_u8 c"
  by (auto simp: error_code_from_u8_def split: if_splits)

lemma command_ack_status_from_to_u8 [simp]:
  "command_ack_status_from_u8 (command_ack_status_u8 s) = s"
  by (cases s) (simp_all add: command_ack_status_from_u8_def)

lemma finish_reason_parse_as_str [simp]: "finish_reason_parse (finish_reason_as_str r) = Some r"
  by (cases r) (simp_all add: finish_reason_parse_def)

lemma finish_reason_parse_Some: "finish_reason_parse s = Some r \<Longrightarrow> s = finish_reason_as_str r"
  by (auto simp: finish_reason_parse_def split: if_splits)

text \<open>
  A failed resume is either fatal (the track is cleared), retried, or reported; no code is
  both fatal and retried, and every fatal code that is not a lost track is an auth error.
\<close>

lemma resume_error_classes:
  "\<forall>c. \<not> (is_fatal_resume_error c \<and> is_retry_resume_error c)"
  "\<forall>c. is_fatal_resume_error c \<longrightarrow> c = TrackNotFound \<or> is_auth_error c"
  by (auto simp: is_fatal_resume_error_def is_retry_resume_error_def is_auth_error_def)

end
