(* ===== verification/Wire.thy ===== *)
theory Wire
  imports Tracking_Types
begin

text \<open>
  The byte level of \<^verbatim>\<open>src/tracking/codec.rs\<close>: the reader \<^verbatim>\<open>R\<close> (a function from
  the remaining bytes to an error, or a value and the rest) and the \<^verbatim>\<open>put_*\<close> writers
  (a function from a value to the bytes it appends). The locale \<open>wire_field\<close> is the
  contract between a writer and its reader: reading what was written gives back the
  value's wire image and leaves the bytes that follow, whatever they are. Every field kind
  of the format is an interpretation of it, and the sequence law (a counted run of fields)
  is proved once inside the locale. The \<^verbatim>\<open>uuid\<close> crate is the parameter \<open>uuid_crate\<close>.
\<close>

section \<open>UTF-8 (String::from_utf8)\<close>

definition cont_byte :: "nat \<Rightarrow> bool" where
  "cont_byte b \<longleftrightarrow> 0x80 \<le> b \<and> b \<le> 0xBF"

fun utf8_valid :: "nat list \<Rightarrow> bool" where
  "utf8_valid [] = True"
| "utf8_valid (a # s) =
     (if a \<le> 0x7F then utf8_valid s
      else case s of [] \<Rightarrow> False
      | b # s2 \<Rightarrow>
        if 0xC2 \<le> a \<and> a \<le> 0xDF then cont_byte b \<and> utf8_valid s2
        else case s2 of [] \<Rightarrow> False
        | c # s3 \<Rightarrow>
          if a = 0xE0 then 0xA0 \<le> b \<and> b \<le> 0xBF \<and> cont_byte c \<and> utf8_valid s3
          else if a = 0xED then 0x80 \<le> b \<and> b \<le> 0x9F \<and> cont_byte c \<and> utf8_valid s3
          else if 0xE1 \<le> a \<and> a \<le> 0xEF then cont_byte b \<and> cont_byte c \<and> utf8_valid s3
          else case s3 of [] \<Rightarrow> False
          | d # s4 \<Rightarrow>
            if a = 0xF0 then 0x90 \<le> b \<and> b \<le> 0xBF \<and> cont_byte c \<and> cont_byte d \<and> utf8_valid s4
            else if a = 0xF4 then 0x80 \<le> b \<and> b \<le> 0x8F \<and> cont_byte c \<and> cont_byte d \<and> utf8_valid s4
            else if 0xF1 \<le> a \<and> a \<le> 0xF3 then cont_byte b \<and> cont_byte c \<and> cont_byte d \<and> utf8_valid s4
            else False)"

definition as_bytes :: "string \<Rightarrow> u8 list" where
  "as_bytes s = map (\<lambda>c. of_nat (of_char c)) s"

definition from_utf8 :: "u8 list \<Rightarrow> string option" where
  "from_utf8 bs = (if utf8_valid (map unat bs) then Some (map (\<lambda>b. char_of (unat b)) bs) else None)"

text \<open>The type invariant of \<^verbatim>\<open>String\<close>.\<close>

definition utf8 :: "string \<Rightarrow> bool" where
  "utf8 s \<longleftrightarrow> utf8_valid (map of_char s)"

section \<open>The reader\<close>

datatype decode_error = DecodeTruncated | DecodeInvalid

type_synonym 'a reader = "u8 list \<Rightarrow> decode_error + 'a \<times> u8 list"

definition need :: "nat \<Rightarrow> u8 list reader" where
  "need n r = (if length r < n then Inl DecodeTruncated else Inr (take n r, drop n r))"

definition get_u8 :: "u8 reader" where
  "get_u8 r = and_then (need 1 r) (\<lambda>(h, t). Inr (hd h, t))"

definition get_u16 :: "u16 reader" where
  "get_u16 r = and_then (need 2 r) (\<lambda>(h, t). Inr (of_nat (of_le_bytes h), t))"

definition get_u32 :: "u32 reader" where
  "get_u32 r = and_then (need 4 r) (\<lambda>(h, t). Inr (of_nat (of_le_bytes h), t))"

definition get_i16 :: "i16 reader" where
  "get_i16 r = and_then (need 2 r) (\<lambda>(h, t). Inr (of_nat (of_le_bytes h), t))"

definition get_i32 :: "i32 reader" where
  "get_i32 r = and_then (need 4 r) (\<lambda>(h, t). Inr (of_nat (of_le_bytes h), t))"

definition get_i64 :: "i64 reader" where
  "get_i64 r = and_then (need 8 r) (\<lambda>(h, t). Inr (of_nat (of_le_bytes h), t))"

definition get_f64 :: "f64 reader" where
  "get_f64 r = and_then (need 8 r) (\<lambda>(h, t). Inr (F64 (of_nat (of_le_bytes h)), t))"

text \<open>
  What the code uses of the \<^verbatim>\<open>uuid\<close> crate: \<^verbatim>\<open>Uuid::parse_str\<close> followed by
  \<^verbatim>\<open>as_bytes\<close>, and \<^verbatim>\<open>Uuid::from_bytes\<close> followed by \<^verbatim>\<open>to_string\<close>. Its
  documented behaviour: a parsed UUID has 16 bytes, and the printed form is not empty,
  is ASCII and parses back to the same bytes.
\<close>

record uuid_crate =
  uuid_parse :: "string \<Rightarrow> u8 list option"
  uuid_string :: "u8 list \<Rightarrow> string"

definition uuid_laws :: "uuid_crate \<Rightarrow> bool" where
  "uuid_laws U \<longleftrightarrow>
     (\<forall>s b. uuid_parse U s = Some b \<longrightarrow> length b = 16) \<and>
     (\<forall>b. length b = 16 \<longrightarrow> uuid_parse U (uuid_string U b) = Some b \<and> uuid_string U b \<noteq> [])"

definition get_uuid :: "uuid_crate \<Rightarrow> string reader" where
  "get_uuid U r = and_then (need 16 r) (\<lambda>(b, t). Inr (uuid_string U b, t))"

definition get_uuid_opt :: "uuid_crate \<Rightarrow> string option reader" where
  "get_uuid_opt U r = and_then (need 16 r) (\<lambda>(b, t).
     Inr (if list_all (\<lambda>x. x = 0) b then None else Some (uuid_string U b), t))"

definition MAX_STRING :: nat where
  "MAX_STRING = 4096"

definition get_str :: "string reader" where
  "get_str r = and_then (get_u16 r) (\<lambda>(n, r).
     if MAX_STRING < unat n then Inl DecodeInvalid
     else and_then (need (unat n) r) (\<lambda>(raw, r).
       case from_utf8 raw of None \<Rightarrow> Inl DecodeInvalid | Some s \<Rightarrow> Inr (s, r)))"

definition get_bytes :: "u8 list reader" where
  "get_bytes r = and_then (get_u16 r) (\<lambda>(n, r).
     if MAX_STRING < unat n then Inl DecodeInvalid else need (unat n) r)"

section \<open>The writers\<close>

definition put_u8 :: "u8 \<Rightarrow> u8 list" where "put_u8 v = [v]"
definition put_u16 :: "u16 \<Rightarrow> u8 list" where "put_u16 v = le_bytes 2 (unat v)"
definition put_u32 :: "u32 \<Rightarrow> u8 list" where "put_u32 v = le_bytes 4 (unat v)"
definition put_i16 :: "i16 \<Rightarrow> u8 list" where "put_i16 v = le_bytes 2 (unat v)"
definition put_i32 :: "i32 \<Rightarrow> u8 list" where "put_i32 v = le_bytes 4 (unat v)"
definition put_i64 :: "i64 \<Rightarrow> u8 list" where "put_i64 v = le_bytes 8 (unat v)"
definition put_f64 :: "f64 \<Rightarrow> u8 list" where "put_f64 v = le_bytes 8 (unat (to_bits v))"

definition uid_bytes :: "uuid_crate \<Rightarrow> string \<Rightarrow> u8 list" where
  "uid_bytes U s =
     (if s = [] then replicate 16 0
      else case uuid_parse U s of Some u \<Rightarrow> u | None \<Rightarrow> replicate 16 0)"

definition put_uuid :: "uuid_crate \<Rightarrow> string \<Rightarrow> u8 list" where
  "put_uuid U s = uid_bytes U s"

definition put_str :: "string \<Rightarrow> u8 list" where
  "put_str s = (let b = as_bytes s; n = min (length b) MAX_STRING in put_u16 (of_nat n) @ take n b)"

definition put_bytes :: "u8 list \<Rightarrow> u8 list" where
  "put_bytes b = (let n = min (length b) MAX_STRING in put_u16 (of_nat n) @ take n b)"

section \<open>The contract of a field\<close>

text \<open>
  \<open>img x\<close> is what the other side sees of \<open>x\<close>; \<open>ok x\<close> says when it can be read at all. The
  second law makes a reader local: it only looks at the bytes it consumes, so bytes after
  them change nothing.
\<close>

locale wire_reader =
  fixes get :: "'b reader"
  assumes local: "get r = Inr (y, t) \<Longrightarrow> get (r @ z) = Inr (y, t @ z)"
    and consumes: "get r = Inr (y, t) \<Longrightarrow> \<exists>used. r = used @ t"

locale wire_field = wire_reader get for get :: "'b reader" +
  fixes put :: "'a \<Rightarrow> u8 list" and ok :: "'a \<Rightarrow> bool" and img :: "'a \<Rightarrow> 'b"
  assumes get_put: "ok x \<Longrightarrow> get (put x @ r) = Inr (img x, r)"

text \<open>A counted run of fields: the \<^verbatim>\<open>for _ in 0..n\<close> loops of the decoder.\<close>

primrec repeat_get :: "'a reader \<Rightarrow> nat \<Rightarrow> 'a list reader" where
  "repeat_get g 0 r = Inr ([], r)"
| "repeat_get g (Suc n) r =
     and_then (g r) (\<lambda>(x, r). and_then (repeat_get g n r) (\<lambda>(xs, r). Inr (x # xs, r)))"

context wire_reader
begin

lemma repeat_local: "repeat_get get n r = Inr (ys, t) \<Longrightarrow> repeat_get get n (r @ z) = Inr (ys, t @ z)"
proof (induction n arbitrary: r ys)
  case 0
  then show ?case by simp
next
  case (Suc n)
  then obtain y r' ys' where "get r = Inr (y, r')" and "repeat_get get n r' = Inr (ys', t)"
    and "ys = y # ys'"
    by (auto simp: and_then_Inr_iff)
  with Suc.IH show ?case by (simp add: local)
qed

lemma repeat_consumes: "repeat_get get n r = Inr (ys, t) \<Longrightarrow> \<exists>used. r = used @ t"
proof (induction n arbitrary: r ys)
  case 0
  then show ?case by simp
next
  case (Suc n)
  then obtain y r' ys' where "get r = Inr (y, r')" and "repeat_get get n r' = Inr (ys', t)"
    by (auto simp: and_then_Inr_iff)
  with Suc.IH consumes show ?case by (metis append.assoc)
qed

end

context wire_field
begin

lemma repeat_get_put:
  "list_all ok xs \<Longrightarrow>
   repeat_get get (length xs) (concat (map put xs) @ r) = Inr (map img xs, r)"
  by (induction xs) (simp_all add: get_put)

end

section \<open>The fields\<close>

lemma need_local: "need n r = Inr (h, t) \<Longrightarrow> need n (r @ z) = Inr (h, t @ z)"
  by (auto simp: need_def split: if_splits)

lemma need_consumes: "need n r = Inr (h, t) \<Longrightarrow> r = h @ t \<and> length h = n"
  by (auto simp: need_def split: if_splits)

lemma need_append [simp]: "length h = n \<Longrightarrow> need n (h @ t) = Inr (h, t)"
  by (simp add: need_def)

text \<open>A reader that takes a fixed number of bytes and converts them.\<close>

lemma fixed_reader: "wire_reader (\<lambda>r. and_then (need n r) (\<lambda>(h, t). Inr (f h, t)))"
  by unfold_locales (auto simp: and_then_Inr_iff dest!: need_local need_consumes)

lemma need_reader: "wire_reader (need n)"
  by unfold_locales (auto dest: need_local need_consumes)

text \<open>Readers compose: the continuation of a local reader may be local in every case.\<close>

lemma and_then_reader:
  assumes "wire_reader g" and "\<And>x. wire_reader (k x)"
  shows "wire_reader (\<lambda>r. and_then (g r) (\<lambda>(x, r). k x r))"
proof
  fix r y t z
  assume "and_then (g r) (\<lambda>(x, r). k x r) = Inr (y, t)"
  then obtain x r' where g: "g r = Inr (x, r')" and k: "k x r' = Inr (y, t)"
    by (auto simp: and_then_Inr_iff)
  from wire_reader.local [OF assms(1) g] wire_reader.local [OF assms(2) k]
  show "and_then (g (r @ z)) (\<lambda>(x, r). k x r) = Inr (y, t @ z)" by simp
next
  fix r y t
  assume "and_then (g r) (\<lambda>(x, r). k x r) = Inr (y, t)"
  then obtain x r' where g: "g r = Inr (x, r')" and k: "k x r' = Inr (y, t)"
    by (auto simp: and_then_Inr_iff)
  from wire_reader.consumes [OF assms(1) g] wire_reader.consumes [OF assms(2) k]
  show "\<exists>used. r = used @ t" by (metis append.assoc)
qed

lemma const_reader: "wire_reader (\<lambda>r. Inr (c, r))" "wire_reader (\<lambda>r. Inl e)"
  by (unfold_locales; simp)+

lemma if_reader:
  "wire_reader g \<Longrightarrow> wire_reader h \<Longrightarrow> wire_reader (\<lambda>r. if b then g r else h r)"
  by (cases b) simp_all

lemma case_option_reader:
  "wire_reader g \<Longrightarrow> (\<And>x. wire_reader (h x)) \<Longrightarrow>
   wire_reader (\<lambda>r. case v of None \<Rightarrow> g r | Some x \<Rightarrow> h x r)"
  by (cases v) simp_all

lemmas get_int_defs = get_u8_def get_u16_def get_u32_def get_i16_def get_i32_def get_i64_def get_f64_def

lemmas put_int_defs = put_u8_def put_u16_def put_u32_def put_i16_def put_i32_def put_i64_def put_f64_def

lemma fixed_field:
  assumes "\<And>r. g r = and_then (need n r) (\<lambda>(h, t). Inr (f h, t))"
    and "\<And>x. ok x \<Longrightarrow> length (p x) = n" and "\<And>x. ok x \<Longrightarrow> f (p x) = img x"
  shows "wire_field g p ok img"
proof -
  have "g = (\<lambda>r. and_then (need n r) (\<lambda>(h, t). Inr (f h, t)))" using assms(1) by blast
  with fixed_reader [of n f] have "wire_reader g" by simp
  then show ?thesis
    by (intro wire_field.intro wire_field_axioms.intro) (simp_all add: assms)
qed

lemma le_bytes_word:
  "256 ^ n = (2 :: nat) ^ LENGTH('a) \<Longrightarrow> of_nat (of_le_bytes (le_bytes n (unat v))) = (v :: 'a::len word)"
  by (simp add: of_le_bytes_le_bytes)

interpretation u8: wire_field get_u8 put_u8 "\<lambda>_. True" "\<lambda>x. x"
  by (rule fixed_field [OF get_u8_def]) (simp_all add: put_u8_def)

interpretation u16: wire_field get_u16 put_u16 "\<lambda>_. True" "\<lambda>x. x"
  by (rule fixed_field [OF get_u16_def]) (simp_all add: put_u16_def le_bytes_word)

interpretation u32: wire_field get_u32 put_u32 "\<lambda>_. True" "\<lambda>x. x"
  by (rule fixed_field [OF get_u32_def]) (simp_all add: put_u32_def le_bytes_word)

interpretation i16: wire_field get_i16 put_i16 "\<lambda>_. True" "\<lambda>x. x"
  by (rule fixed_field [OF get_i16_def]) (simp_all add: put_i16_def le_bytes_word)

interpretation i32: wire_field get_i32 put_i32 "\<lambda>_. True" "\<lambda>x. x"
  by (rule fixed_field [OF get_i32_def]) (simp_all add: put_i32_def le_bytes_word)

interpretation i64: wire_field get_i64 put_i64 "\<lambda>_. True" "\<lambda>x. x"
  by (rule fixed_field [OF get_i64_def]) (simp_all add: put_i64_def le_bytes_word)

interpretation f64: wire_field get_f64 put_f64 "\<lambda>_. True" "\<lambda>x. x"
  by (rule fixed_field [OF get_f64_def]) (simp_all add: put_f64_def le_bytes_word)

text \<open>UUIDs: anything that does not parse travels as the nil UUID.\<close>

definition uuid_img :: "uuid_crate \<Rightarrow> string \<Rightarrow> string" where
  "uuid_img U s = uuid_string U (uid_bytes U s)"

definition uuid_opt_img :: "uuid_crate \<Rightarrow> string \<Rightarrow> string option" where
  "uuid_opt_img U s =
     (if list_all (\<lambda>x. x = 0) (uid_bytes U s) then None else Some (uuid_img U s))"

lemma length_uid_bytes: "uuid_laws U \<Longrightarrow> length (uid_bytes U s) = 16"
  by (auto simp: uid_bytes_def uuid_laws_def split: option.splits)

interpretation uuid: wire_field "get_uuid U" "put_uuid U" "\<lambda>_. uuid_laws U" "uuid_img U"
  by (rule fixed_field [OF get_uuid_def]) (simp_all add: put_uuid_def length_uid_bytes uuid_img_def)

interpretation uuid_opt: wire_field "get_uuid_opt U" "put_uuid U" "\<lambda>_. uuid_laws U" "uuid_opt_img U"
  by (rule fixed_field [OF get_uuid_opt_def])
    (simp_all add: put_uuid_def length_uid_bytes uuid_opt_img_def uuid_img_def)

text \<open>Counted byte strings and text: at most \<open>MAX_STRING\<close> bytes are written.\<close>

lemma unat_len_u16: "n \<le> MAX_STRING \<Longrightarrow> unat (of_nat n :: u16) = n"
  by (simp add: unat_of_nat MAX_STRING_def)

lemma get_bytes_reader: "wire_reader get_bytes"
proof -
  have "wire_reader (\<lambda>r. and_then (get_u16 r) (\<lambda>(n, r).
          if MAX_STRING < unat n then Inl DecodeInvalid else need (unat n) r))"
    by (intro and_then_reader u16.wire_reader_axioms if_reader const_reader need_reader)
  moreover have "(\<lambda>r. and_then (get_u16 r) (\<lambda>(n, r).
          if MAX_STRING < unat n then Inl DecodeInvalid else need (unat n) r)) = get_bytes"
    by (simp add: fun_eq_iff get_bytes_def)
  ultimately show ?thesis by simp
qed

lemma get_str_reader: "wire_reader get_str"
proof -
  have "wire_reader (\<lambda>r. and_then (get_u16 r) (\<lambda>(n, r).
      if MAX_STRING < unat n then Inl DecodeInvalid
      else and_then (need (unat n) r) (\<lambda>(raw, r).
        case from_utf8 raw of None \<Rightarrow> Inl DecodeInvalid | Some s \<Rightarrow> Inr (s, r))))"
    by (intro and_then_reader u16.wire_reader_axioms if_reader const_reader need_reader
        case_option_reader)
  moreover have "(\<lambda>r. and_then (get_u16 r) (\<lambda>(n, r).
      if MAX_STRING < unat n then Inl DecodeInvalid
      else and_then (need (unat n) r) (\<lambda>(raw, r).
        case from_utf8 raw of None \<Rightarrow> Inl DecodeInvalid | Some s \<Rightarrow> Inr (s, r)))) = get_str"
    by (simp add: fun_eq_iff get_str_def)
  ultimately show ?thesis by simp
qed

lemma from_utf8_as_bytes: "utf8 s \<Longrightarrow> from_utf8 (as_bytes s) = Some s"
proof -
  have b: "unat (of_nat (of_char c) :: u8) = of_char c" for c
    by (simp add: unat_of_nat)
  assume "utf8 s"
  then show ?thesis by (simp add: utf8_def from_utf8_def as_bytes_def o_def b)
qed

lemma length_as_bytes [simp]: "length (as_bytes s) = length s"
  by (simp add: as_bytes_def)

lemma take_as_bytes: "take n (as_bytes s) = as_bytes (take n s)"
  by (simp add: as_bytes_def take_map)

text \<open>The written form, with the truncation made explicit.\<close>

lemma put_bytes_eq:
  "put_bytes b = put_u16 (of_nat (length (take MAX_STRING b))) @ take MAX_STRING b"
  by (simp add: put_bytes_def Let_def min_def)

lemma put_str_eq: "put_str s = put_bytes (as_bytes s)"
  by (simp add: put_str_def put_bytes_def)

lemma get_counted:
  "length b \<le> MAX_STRING \<Longrightarrow> get_bytes (put_u16 (of_nat (length b)) @ b @ r) = Inr (b, r)"
  by (simp add: get_bytes_def u16.get_put unat_len_u16)

lemma get_str_counted:
  "length s \<le> MAX_STRING \<Longrightarrow> utf8 s \<Longrightarrow>
   get_str (put_u16 (of_nat (length s)) @ as_bytes s @ r) = Inr (s, r)"
  by (simp add: get_str_def u16.get_put unat_len_u16 from_utf8_as_bytes)

interpretation bytes: wire_field get_bytes put_bytes "\<lambda>_. True" "take MAX_STRING"
proof (intro wire_field.intro get_bytes_reader wire_field_axioms.intro)
  fix b r :: "u8 list"
  have "length (take MAX_STRING b) \<le> MAX_STRING" by simp
  from get_counted [OF this, of r]
  show "get_bytes (put_bytes b @ r) = Inr (take MAX_STRING b, r)"
    by (simp only: put_bytes_eq append_assoc)
qed

interpretation str: wire_field get_str put_str "\<lambda>s. utf8 (take MAX_STRING s)" "take MAX_STRING"
proof (intro wire_field.intro get_str_reader wire_field_axioms.intro)
  fix s :: string and r :: "u8 list"
  assume u: "utf8 (take MAX_STRING s)"
  have "length (take MAX_STRING s) \<le> MAX_STRING" by simp
  from get_str_counted [OF this u, of r]
  show "get_str (put_str s @ r) = Inr (take MAX_STRING s, r)"
    by (simp only: put_str_eq put_bytes_eq take_as_bytes length_as_bytes append_assoc)
qed

lemmas field_get_put [reader_simps] =
  u8.get_put u16.get_put u32.get_put i16.get_put i32.get_put i64.get_put f64.get_put
  uuid.get_put uuid_opt.get_put bytes.get_put str.get_put

lemmas field_readers =
  u8.wire_reader_axioms u16.wire_reader_axioms u32.wire_reader_axioms i16.wire_reader_axioms
  i32.wire_reader_axioms i64.wire_reader_axioms f64.wire_reader_axioms uuid.wire_reader_axioms
  uuid_opt.wire_reader_axioms get_bytes_reader get_str_reader

end
