(* ===== verification/Float64_Laws.thy ===== *)
theory Float64_Laws
  imports Float64
begin

text \<open>
  The laws of the float model that the components rely on: rounding is exact on
  representable values, never crosses a representable value, and has relative error at most
  \<open>2 ^ -53\<close> on normal ones; decoding an encoded magnitude gives the rounded magnitude.
  From them: an integer divided by a decimal scale and multiplied back comes out
  unchanged after rounding, which is what the fixed-point fields of the wire format need.
\<close>

section \<open>Powers of two and leading bits\<close>

lemma pow2_powi: "pow2 k = 2 powi k"
  by (simp add: pow2_def power_int_def inverse_eq_divide power_one_over)

lemma pow2_pos [simp]: "0 < pow2 k"
  by (simp add: pow2_def)

lemma pow2_nonneg [simp]: "0 \<le> pow2 k"
  by (simp add: less_imp_le)

lemma pow2_neq_0 [simp]: "pow2 k \<noteq> 0"
  by (simp add: pow2_def)

lemma pow2_add: "pow2 (a + b) = pow2 a * pow2 b"
  by (simp add: pow2_powi power_int_add)

lemma pow2_diff: "pow2 (a - b) = pow2 a / pow2 b"
  by (simp add: pow2_powi power_int_diff)

lemma pow2_0 [simp]: "pow2 0 = 1"
  by (simp add: pow2_def)

lemma pow2_of_nat: "pow2 (int n) = 2 ^ n"
  by (simp add: pow2_def)

lemma pow2_nat: "0 \<le> k \<Longrightarrow> pow2 k = of_int (2 ^ nat k)"
  by (simp add: pow2_def)

lemma pow2_split: "a \<le> b \<Longrightarrow> pow2 b = of_int (2 ^ nat (b - a)) * pow2 a"
  using pow2_add [of "b - a" a] pow2_nat [of "b - a"] by simp

lemma pow2_mono: "a \<le> b \<Longrightarrow> pow2 a \<le> pow2 b"
  by (subst pow2_split [of a b]) simp_all

lemma pow2_strict_mono:
  assumes "a < b"
  shows "pow2 a < pow2 b"
proof -
  have "1 < (2::rat) ^ nat (b - a)" using assms by (intro one_less_power) simp_all
  with assms show ?thesis by (subst pow2_split [of a b]) simp_all
qed

lemma pow2_le_iff [simp]: "pow2 a \<le> pow2 b \<longleftrightarrow> a \<le> b"
  by (meson leD not_le pow2_mono pow2_strict_mono)

lemma pow2_less_iff [simp]: "pow2 a < pow2 b \<longleftrightarrow> a < b"
  by (meson leD not_le pow2_mono pow2_strict_mono)

lemma ilog2_bounds: "1 \<le> n \<Longrightarrow> 0 \<le> ilog2 n \<and> 2 ^ nat (ilog2 n) \<le> n \<and> n < 2 * 2 ^ nat (ilog2 n)"
proof (induction n rule: ilog2.induct)
  case (1 n)
  show ?case
  proof (cases "n < 2")
    case True
    with "1.prems" have "n = 1" by simp
    then show ?thesis by (simp add: ilog2.simps)
  next
    case False
    let ?k = "ilog2 (n div 2)"
    from False have IH: "0 \<le> ?k \<and> 2 ^ nat ?k \<le> n div 2 \<and> n div 2 < 2 * 2 ^ nat ?k"
      using "1.IH" by simp
    moreover have "nat (1 + ?k) = Suc (nat ?k)" using IH by (simp add: nat_add_distrib)
    moreover have "ilog2 n = 1 + ?k" using False by (simp add: ilog2.simps [of n])
    moreover have "n div 2 * 2 \<le> n" "n < n div 2 * 2 + 2" by linarith+
    ultimately show ?thesis by (simp only: power_Suc) linarith
  qed
qed

lemma ilog2_rat:
  assumes "1 \<le> n"
  shows "pow2 (ilog2 n) \<le> of_int n \<and> of_int n < pow2 (ilog2 n + 1)"
proof -
  note b = ilog2_bounds [OF assms]
  have "pow2 (ilog2 n) = of_int (2 ^ nat (ilog2 n))" using b by (simp add: pow2_nat)
  moreover have "pow2 (ilog2 n + 1) = of_int (2 * 2 ^ nat (ilog2 n))"
    using b by (simp add: pow2_nat nat_add_distrib)
  ultimately show ?thesis using b by (simp only: of_int_le_iff of_int_less_iff)
qed

lemma flog2_bounds:
  assumes "0 < x"
  shows "pow2 (flog2 x) \<le> x \<and> x < pow2 (flog2 x + 1)"
proof -
  obtain n d where q: "quotient_of x = (n, d)" by (cases "quotient_of x")
  have d: "0 < d" using q by (rule quotient_of_denom_pos)
  have x: "x = of_int n / of_int d" using q by (rule quotient_of_div)
  from assms d x have n: "0 < n" by (simp add: zero_less_divide_iff)
  let ?a = "ilog2 n" and ?b = "ilog2 d"
  have a: "pow2 ?a \<le> of_int n" "of_int n < pow2 (?a + 1)"
    using ilog2_rat [of n] n by simp_all
  have b: "pow2 ?b \<le> of_int d" "of_int d < pow2 (?b + 1)"
    using ilog2_rat [of d] d by simp_all
  have pd: "(0::rat) < of_int d" using d by simp
  have lo: "pow2 (?a - ?b - 1) \<le> x"
  proof -
    have "pow2 (?a - ?b - 1) * of_int d \<le> pow2 (?a - ?b - 1) * pow2 (?b + 1)"
      using b(2) by (intro mult_left_mono) simp_all
    also have "\<dots> = pow2 ?a" by (simp flip: pow2_add)
    finally show ?thesis using a(1) pd by (simp add: x pos_le_divide_eq)
  qed
  have hi: "x < pow2 (?a - ?b + 1)"
  proof -
    have "of_int n < pow2 (?a - ?b + 1) * pow2 ?b" using a(2) by (simp flip: pow2_add)
    also have "\<dots> \<le> pow2 (?a - ?b + 1) * of_int d"
      using b(1) by (intro mult_left_mono) simp_all
    finally show ?thesis using pd by (simp add: x pos_divide_less_eq)
  qed
  show ?thesis using lo hi by (simp add: flog2_def q Let_def algebra_simps)
qed

lemma flog2_less: "0 < x \<Longrightarrow> x < pow2 k \<Longrightarrow> flog2 x < k"
  using flog2_bounds [of x] by (metis le_less_trans pow2_less_iff)

lemma flog2_ge: "0 < x \<Longrightarrow> pow2 k \<le> x \<Longrightarrow> k \<le> flog2 x"
  using flog2_bounds [of x] le_less_trans [of "pow2 k" x "pow2 (flog2 x + 1)"] by simp

section \<open>Rounding to an integer\<close>

lemma round_half_even_err: "\<bar>of_int (round_half_even x) - x\<bar> \<le> 1 / 2"
proof -
  have "of_int \<lfloor>x\<rfloor> \<le> x" "x < of_int \<lfloor>x\<rfloor> + 1"
    by linarith+
  then show ?thesis by (auto simp: round_half_even_def Let_def abs_le_iff)
qed

lemma round_half_even_of_int [simp]: "round_half_even (of_int n) = n"
  by (simp add: round_half_even_def)

lemma round_half_even_le: "x \<le> of_int n \<Longrightarrow> round_half_even x \<le> n"
proof -
  assume le: "x \<le> of_int n"
  show ?thesis
  proof (cases "x = of_int n")
    case False
    with le have "\<lfloor>x\<rfloor> < n" by (simp add: floor_less_iff)
    then show ?thesis by (auto simp: round_half_even_def Let_def)
  qed simp
qed

lemma round_half_even_ge: "of_int n \<le> x \<Longrightarrow> n \<le> round_half_even x"
proof -
  assume "of_int n \<le> x"
  then have "n \<le> \<lfloor>x\<rfloor>" by (simp add: le_floor_iff)
  then show ?thesis by (auto simp: round_half_even_def Let_def)
qed

section \<open>Rounding to 53 bits\<close>

lemma lsb_exp_ge: "- 1074 \<le> lsb_exp x"
  by (simp add: lsb_exp_def)

lemma scaled_less: "0 < x \<Longrightarrow> x / pow2 (lsb_exp x) < 2 ^ 53"
proof -
  assume "0 < x"
  then have "x < pow2 (flog2 x + 1)" by (simp add: flog2_bounds)
  also have "\<dots> \<le> pow2 (lsb_exp x + 53)" by (simp add: lsb_exp_def)
  also have "\<dots> = pow2 (lsb_exp x) * 2 ^ 53" using pow2_of_nat [of 53] by (simp add: pow2_add)
  finally show ?thesis by (simp add: pos_divide_less_eq mult.commute)
qed

lemma scaled_ge: "0 < x \<Longrightarrow> - 1074 < lsb_exp x \<Longrightarrow> 2 ^ 52 \<le> x / pow2 (lsb_exp x)"
proof -
  assume x: "0 < x" and "- 1074 < lsb_exp x"
  then have "lsb_exp x + 52 = flog2 x" by (simp add: lsb_exp_def)
  then have "pow2 (lsb_exp x) * 2 ^ 52 = pow2 (flog2 x)"
    using pow2_of_nat [of 52] pow2_add [of "lsb_exp x" 52] by simp
  with flog2_bounds [OF x] have "pow2 (lsb_exp x) * 2 ^ 52 \<le> x" by simp
  then show ?thesis by (simp add: pos_le_divide_eq mult.commute)
qed

lemma f64_mant_bounds:
  assumes "0 < x"
  shows "0 \<le> f64_mant x \<and> f64_mant x \<le> 2 ^ 53 \<and> (- 1074 < lsb_exp x \<longrightarrow> 2 ^ 52 \<le> f64_mant x)"
proof -
  have "f64_mant x \<le> 2 ^ 53"
    using scaled_less [OF assms] by (simp add: f64_mant_def round_half_even_le)
  moreover have "0 \<le> f64_mant x"
    using assms by (simp add: f64_mant_def round_half_even_ge)
  moreover have "2 ^ 52 \<le> f64_mant x" if "- 1074 < lsb_exp x"
    using scaled_ge [OF assms that] by (simp add: f64_mant_def round_half_even_ge)
  ultimately show ?thesis by simp
qed

lemma f64_rnd_nonneg: "0 \<le> x \<Longrightarrow> 0 \<le> f64_rnd x"
  using f64_mant_bounds [of x] by (auto simp: f64_rnd_def)

lemma f64_rnd_err_lsb:
  assumes "0 < x"
  shows "\<bar>f64_rnd x - x\<bar> \<le> pow2 (lsb_exp x) / 2"
proof -
  let ?p = "pow2 (lsb_exp x)"
  have "f64_rnd x - x = (of_int (f64_mant x) - x / ?p) * ?p"
    using assms by (simp add: f64_rnd_def left_diff_distrib)
  then have "\<bar>f64_rnd x - x\<bar> = \<bar>of_int (f64_mant x) - x / ?p\<bar> * ?p"
    by (simp add: abs_mult)
  also have "\<dots> \<le> 1 / 2 * ?p"
    unfolding f64_mant_def by (intro mult_right_mono round_half_even_err) simp
  finally show ?thesis by simp
qed

lemma f64_rnd_err:
  assumes "pow2 (- 1022) \<le> x"
  shows "\<bar>f64_rnd x - x\<bar> \<le> x / 2 ^ 53"
proof -
  have x: "0 < x" using assms pow2_pos [of "- 1022"] by linarith
  have "lsb_exp x = flog2 x - 52" using flog2_ge [OF x assms] by (simp add: lsb_exp_def)
  then have "pow2 (lsb_exp x) * 2 ^ 52 = pow2 (flog2 x)"
    using pow2_of_nat [of 52] pow2_add [of "lsb_exp x" 52] by simp
  then have "pow2 (lsb_exp x) * 2 ^ 52 \<le> x" using flog2_bounds [OF x] by simp
  then have "pow2 (lsb_exp x) / 2 \<le> x / 2 ^ 53" by simp
  with f64_rnd_err_lsb [OF x] show ?thesis by linarith
qed

text \<open>A number is representable when it is an integer of at most 53 bits times a power of two.\<close>

definition f64_repr :: "rat \<Rightarrow> bool" where
  "f64_repr y \<longleftrightarrow> (\<exists>m k. y = of_int m * pow2 k \<and> 0 \<le> m \<and> m \<le> 2 ^ 53 \<and> - 1074 \<le> k \<and> k \<le> 971)"

lemma f64_repr_of_int: "0 \<le> m \<Longrightarrow> m \<le> 2 ^ 53 \<Longrightarrow> f64_repr (of_int m)"
  unfolding f64_repr_def by (intro exI [of _ m] exI [of _ 0]) simp

lemma f64_repr_nonneg: "f64_repr y \<Longrightarrow> 0 \<le> y"
  by (auto simp: f64_repr_def)

text \<open>Rounding never crosses a representable value.\<close>

lemma repr_cases:
  assumes y: "f64_repr y" and x: "0 < x"
  obtains (grid) n where "y = of_int n * pow2 (lsb_exp x)"
  | (below) "y \<le> 2 ^ 52 * pow2 (lsb_exp x)" "2 ^ 52 \<le> x / pow2 (lsb_exp x)"
proof -
  from y obtain m k where m: "y = of_int m * pow2 k" "0 \<le> m" "m \<le> 2 ^ 53" "- 1074 \<le> k"
    by (auto simp: f64_repr_def)
  show ?thesis
  proof (cases "lsb_exp x \<le> k")
    case True
    then have "y = of_int (m * 2 ^ nat (k - lsb_exp x)) * pow2 (lsb_exp x)"
      by (simp add: m(1) pow2_split [of "lsb_exp x" k])
    then show ?thesis by (rule grid)
  next
    case False
    have "y \<le> of_int (2 ^ 53) * pow2 (lsb_exp x - 1)"
      unfolding m(1) using m(2,3) False by (intro mult_mono) (simp_all del: of_int_power)
    also have "\<dots> = 2 ^ 52 * pow2 (lsb_exp x)"
      using pow2_of_nat [of 1] by (simp add: pow2_diff)
    finally have "y \<le> 2 ^ 52 * pow2 (lsb_exp x)" .
    moreover have "2 ^ 52 \<le> x / pow2 (lsb_exp x)"
      using False m(4) by (intro scaled_ge x) simp
    ultimately show ?thesis by (rule below)
  qed
qed

lemma f64_rnd_le_repr:
  assumes "f64_repr y" and "0 \<le> x" and "x \<le> y"
  shows "f64_rnd x \<le> y"
proof (cases "x = 0")
  case True
  with assms show ?thesis by (simp add: f64_rnd_def)
next
  case False
  with assms have x: "0 < x" by simp
  have "\<exists>n. y = of_int n * pow2 (lsb_exp x)"
    using assms(1) x
  proof (cases rule: repr_cases)
    case below
    then have "2 ^ 52 * pow2 (lsb_exp x) \<le> x" by (simp add: pos_le_divide_eq)
    with below assms have "y = of_int (2 ^ 52) * pow2 (lsb_exp x)" by simp
    then show ?thesis by blast
  qed blast
  then obtain n where n: "y = of_int n * pow2 (lsb_exp x)" by blast
  with assms(3) have "x / pow2 (lsb_exp x) \<le> of_int n" by (simp add: pos_divide_le_eq)
  then have "f64_mant x \<le> n" by (simp add: f64_mant_def round_half_even_le)
  with x show ?thesis by (simp add: f64_rnd_def n)
qed

lemma f64_rnd_ge_repr:
  assumes "f64_repr y" and "0 \<le> x" and "y \<le> x"
  shows "y \<le> f64_rnd x"
proof (cases "x = 0")
  case True
  with assms show ?thesis by (simp add: f64_rnd_def)
next
  case False
  with assms have x: "0 < x" by simp
  from assms(1) x show ?thesis
  proof (cases rule: repr_cases)
    case (grid n)
    with assms(3) have "of_int n \<le> x / pow2 (lsb_exp x)" by (simp add: pos_le_divide_eq)
    then have "n \<le> f64_mant x" by (simp add: f64_mant_def round_half_even_ge)
    with x show ?thesis by (simp add: f64_rnd_def grid)
  next
    case below
    then have "2 ^ 52 \<le> f64_mant x" by (simp add: f64_mant_def round_half_even_ge)
    then have "of_int (2 ^ 52) * pow2 (lsb_exp x) \<le> of_int (f64_mant x) * pow2 (lsb_exp x)"
      by (intro mult_right_mono) (simp_all only: of_int_le_iff pow2_nonneg)
    with below(1) have "y \<le> of_int (f64_mant x) * pow2 (lsb_exp x)"
      by (simp only: of_int_power of_int_numeral)
    with x show ?thesis by (simp add: f64_rnd_def)
  qed
qed

lemma f64_rnd_repr: "f64_repr y \<Longrightarrow> f64_rnd y = y"
  using f64_rnd_le_repr [of y y] f64_rnd_ge_repr [of y y] f64_repr_nonneg [of y] by simp

section \<open>Decoding what was encoded\<close>

lemma uint_word_of_int_u64: "0 \<le> x \<Longrightarrow> x < 18446744073709551616 \<Longrightarrow> uint (word_of_int x :: u64) = x"
  by (simp add: uint_word_of_int)

text \<open>The value of a pattern built from a biased exponent and a mantissa with carry.\<close>

lemma value_by_fields:
  assumes "uint w = n" and "two63 \<le> n \<longleftrightarrow> s" and "n div two52 mod 2048 = e" and "n mod two52 = f"
    and "e \<noteq> 2047"
  shows "f64_value (F64 w) =
    Finite s (if e = 0 then of_int f * pow2 (- 1074) else of_int (two52 + f) * pow2 (e - 1075))"
  using assms by (simp only: f64_value_def Let_def f64.sel if_False split: if_split) simp

lemma value_fields:
  assumes "0 \<le> E" and "0 \<le> M" and "M \<le> 2 * two52" and "0 < E \<longrightarrow> two52 \<le> M"
    and "E * two52 + M < inf_bits"
  shows "f64_value (F64 (word_of_int ((if s then two63 else 0) + (E * two52 + M)))) =
    Finite s (of_int M * pow2 (E - 1074))"
proof -
  let ?b = "E * two52 + M"
  let ?n = "(if s then two63 else 0) + ?b"
  have b: "0 \<le> ?b" using assms by simp
  have n: "uint (word_of_int ?n :: u64) = ?n"
    using assms b by (intro uint_word_of_int_u64) auto
  have s: "two63 \<le> ?n \<longleftrightarrow> s" using assms b by auto
  have dv: "?n div two52 mod 2048 = ?b div two52"
  proof -
    have "?n div two52 = (if s then 2048 else 0) + ?b div two52"
      using div_mult_self1 [of two52 ?b 2048] by (cases s) (simp_all add: add.commute)
    moreover have "0 \<le> ?b div two52" "?b div two52 < 2048" using assms(5) b by auto
    ultimately show ?thesis by (cases s) simp_all
  qed
  have md: "?n mod two52 = ?b mod two52"
    using mod_mult_self1 [of ?b 2048 two52] by (cases s) (simp_all add: add.commute)
  consider (sub) "M < two52" | (norm) "two52 \<le> M" "M < 2 * two52" | (carry) "M = 2 * two52"
    using assms(3) by linarith
  then show ?thesis
  proof cases
    case sub
    then have E: "E = 0" using assms by linarith
    have "?b div two52 = 0" "?b mod two52 = M" using sub assms(2) E by simp_all
    with value_by_fields [OF n s dv md] E show ?thesis by simp
  next
    case norm
    have d: "?b div two52 = E + 1"
      using norm by (intro int_div_pos_eq [where r = "M - two52"]) simp_all
    have m: "?b mod two52 = M - two52"
      using norm by (intro int_mod_pos_eq [where q = "E + 1"]) simp_all
    have "E + 1 < 2047" using norm assms(5) by linarith
    with value_by_fields [OF n s dv md] d m assms(1) show ?thesis by simp
  next
    case carry
    have d: "?b div two52 = E + 2" and m: "?b mod two52 = 0" using carry by simp_all
    have "E + 2 < 2047" using carry assms(5) by linarith
    moreover have "of_int two52 * pow2 (E + 2 - 1075) = of_int M * pow2 (E - 1074)"
      using carry pow2_add [of "E - 1074" 1] pow2_of_nat [of 1] by simp
    ultimately show ?thesis using value_by_fields [OF n s dv md] d m assms(1) by simp
  qed
qed

lemma value_encode:
  assumes "0 \<le> x" and "x < pow2 1023"
  shows "f64_value (f64_encode s x) = Finite s (f64_rnd x)"
proof (cases "x = 0")
  case True
  show ?thesis using value_fields [of 0 0 s]
    by (simp add: f64_encode_def f64_rnd_def True Let_def)
next
  case False
  with assms(1) have x: "0 < x" by simp
  let ?E = "lsb_exp x + 1074" and ?M = "f64_mant x"
  have "flog2 x < 1023" using x assms(2) by (rule flog2_less)
  then have E: "0 \<le> ?E" "?E \<le> 2044" using lsb_exp_ge [of x] by (auto simp: lsb_exp_def)
  have M: "0 \<le> ?M" "?M \<le> 2 * two52" "0 < ?E \<longrightarrow> two52 \<le> ?M"
    using f64_mant_bounds [OF x] by auto
  have "?E * two52 \<le> 2044 * two52" by (intro mult_right_mono E(2)) simp
  with M(2) have b: "?E * two52 + ?M < inf_bits" by linarith
  show ?thesis using value_fields [OF E(1) M(1) M(2) M(3) b, of s] b False
    by (simp add: f64_encode_def f64_rnd_def Let_def)
qed

section \<open>Casts and the fixed-point fields\<close>

lemma pow2_lit: "pow2 1023 = 2 ^ 1023" "pow2 (- 1022) = 1 / 2 ^ 1022"
  by (simp_all add: pow2_def)

lemma less_2_1023: "x \<le> 2 ^ 64 \<Longrightarrow> x < pow2 1023"
proof -
  assume "x \<le> 2 ^ 64"
  also have "(2::rat) ^ 64 < 2 ^ 1023" by (intro power_strict_increasing) simp_all
  finally show ?thesis by (simp only: pow2_lit)
qed

lemma value_of_int:
  assumes "\<bar>i\<bar> \<le> 2 ^ 53"
  shows "f64_value (f64_of_int i) = Finite (i < 0) (of_int \<bar>i\<bar>)"
proof -
  have "(of_int \<bar>i\<bar> :: rat) \<le> of_int (2 ^ 53)" using assms by (simp only: of_int_le_iff)
  then have "(of_int \<bar>i\<bar> :: rat) \<le> 2 ^ 64" by simp
  moreover have "f64_repr (of_int \<bar>i\<bar>)" using assms by (intro f64_repr_of_int) simp_all
  ultimately show ?thesis
    by (simp add: f64_of_int_def value_encode less_2_1023 f64_rnd_repr)
qed

text \<open>
  The heart of every fixed-point field: \<open>m / c\<close> and the product with \<open>c\<close> are each rounded
  once, and the two errors together stay below one half.
\<close>

lemma scale_error:
  assumes m: "1 \<le> m" "m \<le> 2147483648" and c: "1 \<le> c" "c \<le> 1000000"
  shows "\<bar>f64_rnd (f64_rnd (of_int m / of_int c) * of_int c) - of_int m\<bar> < 1 / 2"
proof -
  let ?m = "of_int m :: rat" and ?c = "of_int c :: rat"
  let ?q = "f64_rnd (?m / ?c)"
  let ?u = "1 / 2 ^ 53 :: rat"
  have mc: "1 \<le> ?m" "?m \<le> 2147483648" "1 \<le> ?c" "?c \<le> 1000000" using m c by simp_all
  have small: "pow2 (- 1022) \<le> 1 / 2000000"
  proof -
    have "pow2 (- 1022) \<le> pow2 (- 21)" by simp
    also have "\<dots> \<le> 1 / 2000000" by (simp add: pow2_def)
    finally show ?thesis .
  qed
  have "1 / 1000000 \<le> ?m / ?c" using mc by (intro frac_le) simp_all
  then have "\<bar>?q - ?m / ?c\<bar> \<le> ?m / ?c * ?u" using small f64_rnd_err [of "?m / ?c"] by simp
  then have "\<bar>?q - ?m / ?c\<bar> * ?c \<le> ?m / ?c * ?u * ?c" using mc by (intro mult_right_mono) simp_all
  then have e1: "\<bar>?q * ?c - ?m\<bar> \<le> ?m * ?u"
    using mc abs_mult [of "?q - ?m / ?c" ?c] by (simp add: left_diff_distrib)
  moreover have "?m * ?u \<le> ?m / 2" using mc by simp
  ultimately have p: "1 / 2 \<le> ?q * ?c" "?q * ?c \<le> 2 * ?m" using mc(1) by linarith+
  then have e2: "\<bar>f64_rnd (?q * ?c) - ?q * ?c\<bar> \<le> ?q * ?c * ?u"
    using small f64_rnd_err [of "?q * ?c"] by simp
  have "?q * ?c * ?u \<le> 2 * ?m * ?u" using p(2) by (intro mult_right_mono) simp_all
  with e1 e2 have "\<bar>f64_rnd (?q * ?c) - ?m\<bar> \<le> 3 * ?m * ?u" by linarith
  also have "\<dots> < 1 / 2" using mc by simp
  finally show ?thesis .
qed

lemma floor_half_unique: "\<bar>x - of_int m\<bar> < 1 / 2 \<Longrightarrow> \<lfloor>x + 1 / 2 :: rat\<rfloor> = m"
  by (intro floor_unique) linarith+

text \<open>\<open>scaled c x\<close> is \<^verbatim>\<open>(x * c).round()\<close>, \<open>unscaled c m\<close> is \<^verbatim>\<open>m as f64 / c\<close>.\<close>

definition scaled :: "int \<Rightarrow> f64 \<Rightarrow> f64" where
  "scaled c x = f64_round (f64_mul x (f64_of_int c))"

definition unscaled :: "int \<Rightarrow> int \<Rightarrow> f64" where
  "unscaled c m = f64_div (f64_of_int m) (f64_of_int c)"

lemma value_unscaled:
  assumes m: "\<bar>m\<bar> \<le> 2147483648" and c: "1 \<le> c" "c \<le> 1000000"
  shows "f64_value (unscaled c m) = Finite (m < 0) (f64_rnd (of_int \<bar>m\<bar> / of_int c))"
proof -
  let ?x = "of_int \<bar>m\<bar> / of_int c :: rat"
  have vm: "f64_value (f64_of_int m) = Finite (m < 0) (of_int \<bar>m\<bar>)"
    and vc: "f64_value (f64_of_int c) = Finite False (of_int c)"
    using m c by (simp_all add: value_of_int)
  have "?x \<le> of_int \<bar>m\<bar> / 1" using c by (intro divide_left_mono) simp_all
  also have "\<dots> \<le> 2 ^ 64"
    using m of_int_le_iff [of "\<bar>m\<bar>" 2147483648, where 'a = rat] by (simp del: of_int_le_iff)
  finally have "?x < pow2 1023" by (rule less_2_1023)
  then show ?thesis using vm vc c
    by (simp add: unscaled_def f64_div_def f64_of_val_def value_encode)
qed

lemma scaled_unscaled:
  assumes m: "\<bar>m\<bar> \<le> 2147483648" and c: "1 \<le> c" "c \<le> 1000000"
  shows "f64_value (scaled c (unscaled c m)) = Finite (m < 0) (of_int \<bar>m\<bar>)"
proof -
  let ?q = "f64_rnd (of_int \<bar>m\<bar> / of_int c)"
  let ?p = "f64_rnd (?q * of_int c)"
  have vc: "f64_value (f64_of_int c) = Finite False (of_int c)" using c by (simp add: value_of_int)
  have q0: "0 \<le> ?q" using c by (intro f64_rnd_nonneg) simp
  have err: "\<bar>?p - of_int \<bar>m\<bar>\<bar> < 1 / 2"
  proof (cases "m = 0")
    case False
    with m c show ?thesis by (intro scale_error) simp_all
  qed (simp add: f64_rnd_def)
  have "of_int \<bar>m\<bar> / of_int c \<le> (of_int 2147483648 :: rat)"
    using m c by (simp add: divide_le_eq flip: of_int_mult)
  then have "?q \<le> of_int 2147483648"
    using c by (intro f64_rnd_le_repr f64_repr_of_int) simp_all
  then have "?q * of_int c \<le> of_int 2147483648 * of_int 1000000"
    using c q0 by (intro mult_mono) simp_all
  then have prod: "?q * of_int c < pow2 1023" by (intro less_2_1023) simp
  have "f64_value (f64_mul (unscaled c m) (f64_of_int c)) = Finite (m < 0) ?p"
    using prod q0 c by (simp add: f64_mul_def f64_of_val_def value_unscaled [OF m c] vc value_encode)
  moreover have "\<lfloor>?p + 1 / 2\<rfloor> = \<bar>m\<bar>" using err by (rule floor_half_unique)
  moreover have "f64_value (f64_encode (m < 0) (of_int \<bar>m\<bar>)) = Finite (m < 0) (of_int \<bar>m\<bar>)"
    using value_of_int [of m] m by (simp add: f64_of_int_def)
  ultimately show ?thesis by (simp add: scaled_def f64_round_def)
qed

end
