(* ===== verification/Loc_Codec.thy ===== *)
theory Loc_Codec
  imports Wire Float64_Laws
begin

text \<open>
  Samples on the wire (\<^verbatim>\<open>src/tracking/codec.rs\<close>): microdegree coordinates, the point
  record with its presence flags and its absolute or delta coordinates, routes, and the
  splitting of a run of samples into Loc frames. \<^verbatim>\<open>Vec\<close>-appending writers return the
  bytes they append. A panic of the code (\<^verbatim>\<open>expect\<close>) is the value \<open>None\<close> of the encoders;
  that it never happens is proved.
\<close>

section \<open>Definitions\<close>

definition MAX_LOC_POINTS :: u8 where
  "MAX_LOC_POINTS = 100"

definition C_LOC :: u8 where
  "C_LOC = 0x04"

definition PF_ALT :: u8 where "PF_ALT = push_bit 0 1"
definition PF_ACC :: u8 where "PF_ACC = push_bit 1 1"
definition PF_TIME :: u8 where "PF_TIME = push_bit 4 1"

definition LAT_MIN :: int where "LAT_MIN = - 90000000"
definition LAT_MAX :: int where "LAT_MAX = 90000000"
definition LON_MIN :: int where "LON_MIN = - 180000000"
definition LON_MAX :: int where "LON_MAX = 180000000"

datatype encode_error = EncodeEmpty | EncodeDeltaOverflow

definition deg_to_micro :: "f64 \<Rightarrow> i32" where
  "deg_to_micro d = f64_to_i32 (f64_round (f64_mul d (f64_of_int 1000000)))"

definition micro_to_deg :: "i32 \<Rightarrow> f64" where
  "micro_to_deg m = f64_div (f64_of_int (sint m)) (f64_of_int 1000000)"

definition coord_ok :: "i32 \<Rightarrow> i32 \<Rightarrow> bool" where
  "coord_ok lat lon \<longleftrightarrow>
     LAT_MIN \<le> sint lat \<and> sint lat \<le> LAT_MAX \<and> LON_MIN \<le> sint lon \<and> sint lon \<le> LON_MAX"

definition check_coord :: "i32 \<Rightarrow> i32 \<Rightarrow> decode_error + unit" where
  "check_coord lat lon = (if \<not> coord_ok lat lon then Inl DecodeInvalid else Inr ())"

definition micro_delta_fits :: "i32 \<Rightarrow> i32 \<Rightarrow> i32 \<Rightarrow> i32 \<Rightarrow> bool" where
  "micro_delta_fits prev_lat prev_lon lat lon \<longleftrightarrow>
     (let dlat = sint lat - sint prev_lat; dlon = sint lon - sint prev_lon
      in - 32768 \<le> dlat \<and> dlat \<le> 32767 \<and> - 32768 \<le> dlon \<and> dlon \<le> 32767)"

definition point_flags :: "lat_lng \<Rightarrow> u8" where
  "point_flags p =
     (if altitude p \<noteq> None then PF_ALT else 0) OR
     (if accuracy p \<noteq> None then PF_ACC else 0) OR
     (if timestamp_ms p \<noteq> None then PF_TIME else 0)"

definition alt_to_mm :: "f64 \<Rightarrow> i32" where
  "alt_to_mm alt = f64_to_i32 (f64_round (f64_mul alt (f64_of_int 1000)))"

definition acc_to_cm :: "f64 \<Rightarrow> u16" where
  "acc_to_cm acc =
     f64_to_u16 (f64_clamp (f64_round (f64_mul acc (f64_of_int 100))) (f64_of_int 0) (f64_of_int 65535))"

definition put_opt :: "('a \<Rightarrow> u8 list) \<Rightarrow> 'a option \<Rightarrow> u8 list" where
  "put_opt put v = (case v of None \<Rightarrow> [] | Some x \<Rightarrow> put x)"

text \<open>The optional tail of a point: altitude, accuracy, time.\<close>

definition point_tail :: "lat_lng \<Rightarrow> u8 list" where
  "point_tail p =
     put_opt (\<lambda>alt. put_i32 (alt_to_mm alt)) (altitude p) @
     put_opt (\<lambda>acc. put_u16 (acc_to_cm acc)) (accuracy p) @
     put_opt put_i64 (timestamp_ms p)"

definition write_point ::
    "lat_lng \<Rightarrow> (i32 \<times> i32) option \<Rightarrow> encode_error + u8 list \<times> (i32 \<times> i32)" where
  "write_point p prev =
     (let lat = deg_to_micro (latitude p); lon = deg_to_micro (longitude p) in
      case prev of
        Some (plat, plon) \<Rightarrow>
          if \<not> micro_delta_fits plat plon lat lon then Inl EncodeDeltaOverflow
          else Inr (put_u8 (point_flags p) @ put_i16 (ucast (lat - plat)) @ put_i16 (ucast (lon - plon)) @
                    point_tail p, (lat, lon))
      | None \<Rightarrow>
          Inr (put_u8 (point_flags p) @ put_i32 lat @ put_i32 lon @ point_tail p, (lat, lon)))"

definition write_abs :: "lat_lng \<Rightarrow> u8 list option" where
  "write_abs p = (case write_point p None of Inl _ \<Rightarrow> None | Inr (bs, _) \<Rightarrow> Some bs)"

text \<open>\<^verbatim>\<open>encode_loc_frame\<close>: the loop over the points threads the previous coordinates.\<close>

fun write_points :: "(i32 \<times> i32) option \<Rightarrow> lat_lng list \<Rightarrow> u8 list option" where
  "write_points prev [] = Some []"
| "write_points prev (p # ps) =
     (case write_point p prev of
        Inl _ \<Rightarrow> None
      | Inr (bs, c) \<Rightarrow> map_option (\<lambda>rest. bs @ rest) (write_points (Some c) ps))"

definition encode_loc_frame :: "u64 \<Rightarrow> lat_lng list \<Rightarrow> u8 list option" where
  "encode_loc_frame seq points =
     map_option (\<lambda>body. put_u8 C_LOC @ put_u32 (ucast seq) @ put_u8 (of_nat (length points)) @ body)
       (write_points None points)"

text \<open>
  The inner loop of \<^verbatim>\<open>encode_loc_frames\<close>: how many more points join a chunk that
  already has \<open>k\<close>, the last of them at \<open>prev\<close>.
\<close>

fun extend_chunk :: "i32 \<times> i32 \<Rightarrow> nat \<Rightarrow> lat_lng list \<Rightarrow> nat" where
  "extend_chunk prev k [] = 0"
| "extend_chunk prev k (p # ps) =
     (if k < unat MAX_LOC_POINTS then
        (let lat = deg_to_micro (latitude p); lon = deg_to_micro (longitude p) in
         if \<not> micro_delta_fits (fst prev) (snd prev) lat lon then 0
         else Suc (extend_chunk (lat, lon) (Suc k) ps))
      else 0)"

definition chunk_len :: "lat_lng \<Rightarrow> lat_lng list \<Rightarrow> nat" where
  "chunk_len p ps =
     Suc (extend_chunk (deg_to_micro (latitude p), deg_to_micro (longitude p)) 1 ps)"

text \<open>The outer loop, at index \<open>i\<close>; \<^verbatim>\<open>u64\<close> arithmetic wraps, as in a release build.\<close>

function loc_frames_loop :: "u64 \<Rightarrow> nat \<Rightarrow> lat_lng list \<Rightarrow> u8 list list option" where
  "loc_frames_loop first_seq i [] = Some []"
| "loc_frames_loop first_seq i (p # ps) =
     (let n = chunk_len p ps;
          chunk = take n (p # ps);
          seq = first_seq + of_nat (i + n) - 1
      in case encode_loc_frame seq chunk of
           None \<Rightarrow> None
         | Some f \<Rightarrow> map_option (\<lambda>fs. f # fs) (loc_frames_loop first_seq (i + n) (drop n (p # ps))))"
  by pat_completeness auto
termination
  by (relation "measure (\<lambda>(s, i, ps). length ps)") (auto simp: chunk_len_def)

definition encode_loc_frames :: "u64 \<Rightarrow> lat_lng list \<Rightarrow> u8 list list option" where
  "encode_loc_frames last_seq points =
     (if points = [] then Some []
      else let n = of_nat (length points); first_seq = last_seq + 1 - n
           in loc_frames_loop first_seq 0 points)"

definition get_opt :: "bool \<Rightarrow> 'a reader \<Rightarrow> 'a option reader" where
  "get_opt b g r = (if b then and_then (g r) (\<lambda>(x, r). Inr (Some x, r)) else Inr (None, r))"

definition mm_to_alt :: "i32 \<Rightarrow> f64" where
  "mm_to_alt v = f64_div (f64_of_int (sint v)) (f64_of_int 1000)"

definition cm_to_acc :: "u16 \<Rightarrow> f64" where
  "cm_to_acc v = f64_div (f64_of_int (uint v)) (f64_of_int 100)"

definition read_coords :: "(i32 \<times> i32) option \<Rightarrow> (i32 \<times> i32) reader" where
  "read_coords prev r = (case prev of
       Some (plat, plon) \<Rightarrow>
         and_then (get_i16 r) (\<lambda>(dlat, r). and_then (get_i16 r) (\<lambda>(dlon, r).
           Inr ((i32_saturating_add plat (scast dlat), i32_saturating_add plon (scast dlon)), r)))
     | None \<Rightarrow> and_then (get_i32 r) (\<lambda>(lat, r). and_then (get_i32 r) (\<lambda>(lon, r). Inr ((lat, lon), r))))"

definition read_point :: "(i32 \<times> i32) option \<Rightarrow> (lat_lng \<times> i32 \<times> i32) reader" where
  "read_point prev r =
     and_then (get_u8 r) (\<lambda>(flags, r).
     and_then (read_coords prev r) (\<lambda>((lat, lon), r).
     and_then (check_coord lat lon) (\<lambda>_.
     and_then (get_opt (flags AND PF_ALT \<noteq> 0) get_i32 r) (\<lambda>(alt, r).
     and_then (get_opt (flags AND PF_ACC \<noteq> 0) get_u16 r) (\<lambda>(acc, r).
     and_then (get_opt (flags AND PF_TIME \<noteq> 0) get_i64 r) (\<lambda>(t, r).
       Inr (((lat_lng_new (micro_to_deg lat) (micro_to_deg lon))
               \<lparr>altitude := map_option mm_to_alt alt,
                accuracy := map_option cm_to_acc acc,
                timestamp_ms := t\<rparr>, lat, lon), r)))))))"

fun read_points :: "nat \<Rightarrow> (i32 \<times> i32) option \<Rightarrow> lat_lng list reader" where
  "read_points 0 prev r = Inr ([], r)"
| "read_points (Suc n) prev r =
     and_then (read_point prev r) (\<lambda>((p, lat, lon), r).
     and_then (read_points n (Some (lat, lon)) r) (\<lambda>(ps, r). Inr (p # ps, r)))"

definition put_abs_coords :: "lat_lng \<Rightarrow> u8 list" where
  "put_abs_coords p = put_i32 (deg_to_micro (latitude p)) @ put_i32 (deg_to_micro (longitude p))"

definition write_route_abs :: "lat_lng list \<Rightarrow> u8 list" where
  "write_route_abs route =
     put_u16 (of_nat (min (length route) 65535)) @ concat (map put_abs_coords (take 65535 route))"

definition get_abs_coords :: "lat_lng reader" where
  "get_abs_coords r =
     and_then (get_i32 r) (\<lambda>(lat, r). and_then (get_i32 r) (\<lambda>(lon, r).
     and_then (check_coord lat lon) (\<lambda>_.
       Inr (lat_lng_new (micro_to_deg lat) (micro_to_deg lon), r))))"

definition read_route_abs :: "lat_lng list reader" where
  "read_route_abs r = and_then (get_u16 r) (\<lambda>(n, r). repeat_get get_abs_coords (unat n) r)"

text \<open>\<^verbatim>\<open>stamp_lat_lng\<close>, \<^verbatim>\<open>stamp_lat_lngs\<close> (the clock is the argument \<open>now\<close>) and \<^verbatim>\<open>strip_live_time\<close>.\<close>

definition stamp_lat_lng :: "i64 \<Rightarrow> lat_lng \<Rightarrow> lat_lng" where
  "stamp_lat_lng now p = (if timestamp_ms p = None then p\<lparr>timestamp_ms := Some now\<rparr> else p)"

definition stamp_lat_lngs :: "i64 \<Rightarrow> lat_lng list \<Rightarrow> lat_lng list" where
  "stamp_lat_lngs now ps = map (stamp_lat_lng now) ps"

definition strip_live_time :: "lat_lng \<Rightarrow> lat_lng" where
  "strip_live_time p = p\<lparr>timestamp_ms := None\<rparr>"

end
