(* ===== verification/Loc_Laws.thy ===== *)
theory Loc_Laws
  imports Loc_Codec
begin

text \<open>
  The laws of the sample codec: what the peer decodes is the sample with its coordinates
  rounded to microdegrees, its altitude to millimetres and its accuracy to centimetres;
  that image is a fixed point; delta coordinates decode to the same microdegrees; the
  greedy splitting loses no sample, keeps every frame within 100 samples and within the
  16-bit deltas, and so the encoder never panics.
\<close>

section \<open>Fixed-point fields\<close>

lemma to_int_value:
  "f64_value a = Finite s (of_int n) \<Longrightarrow>
   f64_to_int lo hi a = clamp_int lo hi (if s then - n else n)"
  by (simp add: f64_to_int_def)

lemma scaled_to_int:
  assumes "\<bar>m\<bar> \<le> 2147483648" and "1 \<le> c" and "c \<le> 1000000"
  shows "f64_to_int lo hi (scaled c (unscaled c m)) = clamp_int lo hi m"
  by (simp add: to_int_value [OF scaled_unscaled [OF assms]] abs_if)

text \<open>Microdegrees and millimetres survive the trip through degrees and metres unchanged.\<close>

lemma sint_abs_i32: "\<bar>sint (m :: i32)\<bar> \<le> 2147483648"
  using sint_i32_bounds [of m] by (simp add: abs_le_iff)

lemma deg_to_micro_to_deg [simp]: "deg_to_micro (micro_to_deg m) = m"
proof -
  have "deg_to_micro (micro_to_deg m) =
      word_of_int (f64_to_int i32_min i32_max (scaled 1000000 (unscaled 1000000 (sint m))))"
    by (simp add: deg_to_micro_def micro_to_deg_def scaled_def unscaled_def f64_to_i32_def)
  then show ?thesis
    using sint_i32_bounds [of m] by (simp add: scaled_to_int sint_abs_i32)
qed

lemma alt_to_mm_to_alt [simp]: "alt_to_mm (mm_to_alt m) = m"
proof -
  have "alt_to_mm (mm_to_alt m) =
      word_of_int (f64_to_int i32_min i32_max (scaled 1000 (unscaled 1000 (sint m))))"
    by (simp add: alt_to_mm_def mm_to_alt_def scaled_def unscaled_def f64_to_i32_def)
  then show ?thesis
    using sint_i32_bounds [of m] by (simp add: scaled_to_int sint_abs_i32)
qed

lemma clamp_u16_value:
  assumes "f64_value x = Finite False (of_int k)" and "0 \<le> k" and "k \<le> 65535"
  shows "f64_clamp x (f64_of_int 0) (f64_of_int 65535) = x"
proof -
  have "f64_value (f64_of_int 0) = Finite False 0" "f64_value (f64_of_int 65535) = Finite False 65535"
    by (simp_all add: value_of_int)
  then show ?thesis using assms by (simp add: f64_clamp_def f64_lt_def signed_def)
qed

lemma acc_to_cm_to_acc [simp]: "acc_to_cm (cm_to_acc m) = m"
proof -
  have u: "0 \<le> uint m" "uint m \<le> 65535"
    using uint_bounded [of m] by simp_all
  let ?x = "scaled 100 (unscaled 100 (uint m))"
  have x: "f64_value ?x = Finite False (of_int (uint m))"
    using scaled_unscaled [of "uint m" 100] u by simp
  from clamp_u16_value [OF x u]
  have "acc_to_cm (cm_to_acc m) = word_of_int (f64_to_int 0 65535 ?x)"
    by (simp add: acc_to_cm_def cm_to_acc_def scaled_def unscaled_def f64_to_u16_def)
  then show ?thesis using u by (simp add: scaled_to_int)
qed

section \<open>Images\<close>

definition quant_deg :: "f64 \<Rightarrow> f64" where
  "quant_deg d = micro_to_deg (deg_to_micro d)"

definition abs_img :: "lat_lng \<Rightarrow> lat_lng" where
  "abs_img p = lat_lng_new (quant_deg (latitude p)) (quant_deg (longitude p))"

definition point_img :: "lat_lng \<Rightarrow> lat_lng" where
  "point_img p = (abs_img p)
     \<lparr>altitude := map_option (\<lambda>a. mm_to_alt (alt_to_mm a)) (altitude p),
      accuracy := map_option (\<lambda>a. cm_to_acc (acc_to_cm a)) (accuracy p),
      timestamp_ms := timestamp_ms p\<rparr>"

definition micro_coords :: "lat_lng \<Rightarrow> i32 \<times> i32" where
  "micro_coords p = (deg_to_micro (latitude p), deg_to_micro (longitude p))"

definition point_ok :: "lat_lng \<Rightarrow> bool" where
  "point_ok p \<longleftrightarrow> coord_ok (deg_to_micro (latitude p)) (deg_to_micro (longitude p))"

lemma quant_deg_idem [simp]: "quant_deg (quant_deg d) = quant_deg d"
  by (simp add: quant_deg_def)

lemma point_img_idem [simp]: "point_img (point_img p) = point_img p"
  by (simp add: point_img_def abs_img_def lat_lng_new_def option.map_comp o_def)

lemma abs_img_idem [simp]: "abs_img (abs_img p) = abs_img p"
  by (simp add: abs_img_def lat_lng_new_def)

lemma micro_coords_img [simp]:
  "micro_coords (point_img p) = micro_coords p" "micro_coords (abs_img p) = micro_coords p"
  by (simp_all add: micro_coords_def point_img_def abs_img_def lat_lng_new_def quant_deg_def)

section \<open>One point\<close>

lemma flags_presence:
  "point_flags p AND PF_ALT \<noteq> 0 \<longleftrightarrow> altitude p \<noteq> None"
  "point_flags p AND PF_ACC \<noteq> 0 \<longleftrightarrow> accuracy p \<noteq> None"
  "point_flags p AND PF_TIME \<noteq> 0 \<longleftrightarrow> timestamp_ms p \<noteq> None"
  by (cases "altitude p"; cases "accuracy p"; cases "timestamp_ms p";
      simp add: point_flags_def PF_ALT_def PF_ACC_def PF_TIME_def)+

lemma get_opt_put_opt:
  "(\<And>x r. get (put x @ r) = Inr (img x, r)) \<Longrightarrow>
   get_opt (v \<noteq> None) get (put_opt put v @ r) = Inr (map_option img v, r)"
  by (cases v) (simp_all add: get_opt_def put_opt_def)

text \<open>What follows the coordinates is read back field by field.\<close>

lemma read_point_after_coords:
  assumes "read_coords prev (cs @ point_tail p @ r) = Inr (micro_coords p, point_tail p @ r)"
    and "point_ok p"
  shows "read_point prev (put_u8 (point_flags p) @ cs @ point_tail p @ r) =
    Inr ((point_img p, micro_coords p), r)"
proof -
  have alt: "get_opt (altitude p \<noteq> None) get_i32
      (put_opt (\<lambda>alt. put_i32 (alt_to_mm alt)) (altitude p) @ z) =
      Inr (map_option alt_to_mm (altitude p), z)" for z
    by (intro get_opt_put_opt i32.get_put) simp
  have acc: "get_opt (accuracy p \<noteq> None) get_u16
      (put_opt (\<lambda>acc. put_u16 (acc_to_cm acc)) (accuracy p) @ z) =
      Inr (map_option acc_to_cm (accuracy p), z)" for z
    by (intro get_opt_put_opt u16.get_put) simp
  have time: "get_opt (timestamp_ms p \<noteq> None) get_i64 (put_opt put_i64 (timestamp_ms p) @ z) =
      Inr (timestamp_ms p, z)" for z
    using get_opt_put_opt [of get_i64 put_i64 "\<lambda>x. x" "timestamp_ms p"] by (simp add: i64.get_put option.map_ident)
  show ?thesis
    using assms alt acc time
    by (simp add: read_point_def u8.get_put flags_presence micro_coords_def check_coord_def
        point_ok_def point_tail_def point_img_def abs_img_def quant_deg_def option.map_comp o_def)
qed

lemma delta_i16:
  assumes "- 32768 \<le> sint a - sint b" and "sint a - sint b \<le> 32767"
  shows "i32_saturating_add b (scast (ucast (a - b) :: i16)) = (a :: i32)"
proof -
  let ?d = "sint a - sint b"
  have "a - b = word_of_int ?d" by simp
  then have "(ucast (a - b) :: i16) = word_of_int ?d"
    by (simp only:) (transfer, simp add: take_bit_take_bit)
  then have s: "sint (ucast (a - b) :: i16) = ?d" using assms by (simp only: sint_i16_of_int)
  have "(scast (ucast (a - b) :: i16) :: i32) = word_of_int ?d"
    using s by (metis scast_eq)
  moreover have "sint (word_of_int ?d :: i32) = ?d" using assms by (intro sint_i32_of_int) simp_all
  ultimately have "i32_saturating_add b (scast (ucast (a - b) :: i16)) = word_of_int (sint a)"
    using sint_i32_bounds [of a] by (simp only: i32_saturating_add_def) simp
  then show ?thesis by simp
qed

definition delta_fits :: "i32 \<times> i32 \<Rightarrow> lat_lng \<Rightarrow> bool" where
  "delta_fits c p \<longleftrightarrow> micro_delta_fits (fst c) (snd c) (fst (micro_coords p)) (snd (micro_coords p))"

fun fits_after :: "(i32 \<times> i32) option \<Rightarrow> lat_lng \<Rightarrow> bool" where
  "fits_after None p = True"
| "fits_after (Some c) p = delta_fits c p"

text \<open>Writing fails exactly when a delta overflows; otherwise the peer reads the image back.\<close>

lemma write_point_None:
  "write_point p None = Inr (put_u8 (point_flags p) @ put_i32 (deg_to_micro (latitude p)) @
     put_i32 (deg_to_micro (longitude p)) @ point_tail p, micro_coords p)"
  by (simp add: write_point_def Let_def micro_coords_def)

lemma write_point_Some:
  "write_point p (Some c) =
     (if delta_fits c p
      then Inr (put_u8 (point_flags p) @ put_i16 (ucast (fst (micro_coords p) - fst c)) @
                put_i16 (ucast (snd (micro_coords p) - snd c)) @ point_tail p, micro_coords p)
      else Inl EncodeDeltaOverflow)"
  by (cases c) (simp add: write_point_def Let_def micro_coords_def delta_fits_def)

lemma write_point_overflow: "\<not> fits_after prev p \<Longrightarrow> write_point p prev = Inl EncodeDeltaOverflow"
  by (cases prev) (simp_all add: write_point_Some)

lemma write_point_fits: "fits_after prev p \<Longrightarrow> \<exists>bs. write_point p prev = Inr (bs, micro_coords p)"
  by (cases prev) (simp_all add: write_point_Some write_point_None)

lemma read_write_point:
  assumes w: "write_point p prev = Inr (bs, c)" and ok: "point_ok p"
  shows "read_point prev (bs @ r) = Inr ((point_img p, c), r)"
proof (cases prev)
  case None
  have "read_coords None ((put_i32 (deg_to_micro (latitude p)) @ put_i32 (deg_to_micro (longitude p))) @
      point_tail p @ r) = Inr (micro_coords p, point_tail p @ r)"
    by (simp add: read_coords_def i32.get_put micro_coords_def)
  from read_point_after_coords [OF this ok] w None show ?thesis
    by (simp add: write_point_None) (simp flip: append_assoc)
next
  case (Some pc)
  let ?lat = "fst (micro_coords p)" and ?lon = "snd (micro_coords p)"
  have fit: "delta_fits pc p"
    using w by (simp add: write_point_Some Some split: if_splits)
  then have "read_coords (Some pc)
      ((put_i16 (ucast (?lat - fst pc)) @ put_i16 (ucast (?lon - snd pc))) @ point_tail p @ r) =
      Inr (micro_coords p, point_tail p @ r)"
    by (cases pc) (simp add: read_coords_def i16.get_put delta_fits_def micro_delta_fits_def Let_def delta_i16)
  then have "read_point (Some pc) (put_u8 (point_flags p) @
      (put_i16 (ucast (?lat - fst pc)) @ put_i16 (ucast (?lon - snd pc))) @ point_tail p @ r) =
      Inr ((point_img p, micro_coords p), r)"
    using ok by (rule read_point_after_coords)
  moreover have "bs = put_u8 (point_flags p) @
      (put_i16 (ucast (?lat - fst pc)) @ put_i16 (ucast (?lon - snd pc))) @ point_tail p"
    and "c = micro_coords p"
    using w fit by (auto simp: write_point_Some Some)
  ultimately show ?thesis using Some by simp
qed

lemma write_abs_Some: "\<exists>bs. write_abs p = Some bs"
  using write_point_fits [of None p] by (auto simp: write_abs_def)

lemma read_write_abs:
  "write_abs p = Some bs \<Longrightarrow> point_ok p \<Longrightarrow> read_point None (bs @ r) = Inr ((point_img p, micro_coords p), r)"
  using write_point_fits [of None p] read_write_point [of p None bs "micro_coords p" r]
  by (auto simp: write_abs_def)

section \<open>Runs of points\<close>

text \<open>The samples after the first must be within the 16-bit deltas of their predecessors.\<close>

fun deltas_fit :: "(i32 \<times> i32) option \<Rightarrow> lat_lng list \<Rightarrow> bool" where
  "deltas_fit prev [] = True"
| "deltas_fit prev (p # ps) = (fits_after prev p \<and> deltas_fit (Some (micro_coords p)) ps)"

lemma write_points_Some_iff: "(\<exists>bs. write_points prev ps = Some bs) \<longleftrightarrow> deltas_fit prev ps"
proof (induction ps arbitrary: prev)
  case Nil
  show ?case by simp
next
  case (Cons p ps)
  show ?case
  proof (cases "fits_after prev p")
    case True
    then obtain bs where "write_point p prev = Inr (bs, micro_coords p)"
      using write_point_fits by blast
    with True Cons.IH [of "Some (micro_coords p)"] show ?thesis by auto
  next
    case False
    then show ?thesis by (simp add: write_point_overflow)
  qed
qed

lemma read_write_points:
  "write_points prev ps = Some bs \<Longrightarrow> list_all point_ok ps \<Longrightarrow>
   read_points (length ps) prev (bs @ r) = Inr (map point_img ps, r)"
proof (induction ps arbitrary: prev bs)
  case Nil
  then show ?case by simp
next
  case (Cons p ps)
  from Cons.prems(1) obtain b1 c b2 where w: "write_point p prev = Inr (b1, c)"
    and ws: "write_points (Some c) ps = Some b2" and bs: "bs = b1 @ b2"
    by (auto split: sum.splits)
  have "read_point prev (b1 @ b2 @ r) = Inr ((point_img p, c), b2 @ r)"
    using w Cons.prems(2) by (intro read_write_point) simp_all
  moreover have "read_points (length ps) (Some c) (b2 @ r) = Inr (map point_img ps, r)"
    using ws Cons.prems(2) by (intro Cons.IH) simp_all
  ultimately show ?case by (cases c) (simp add: bs)
qed

section \<open>Splitting into frames\<close>

lemma extend_chunk_le: "extend_chunk c k ps \<le> length ps"
  by (induction c k ps rule: extend_chunk.induct) (simp_all add: Let_def)

lemma extend_chunk_cap: "k \<le> 100 \<Longrightarrow> k + extend_chunk c k ps \<le> 100"
proof (induction c k ps rule: extend_chunk.induct)
  case (2 prev k p ps)
  then show ?case by (simp add: Let_def MAX_LOC_POINTS_def)
qed simp

lemma extend_chunk_fits: "deltas_fit (Some c) (take (extend_chunk c k ps) ps)"
proof (induction c k ps rule: extend_chunk.induct)
  case (2 prev k p ps)
  then show ?case by (simp add: Let_def delta_fits_def micro_coords_def)
qed simp

lemma chunk_len_bounds: "1 \<le> chunk_len p ps" "chunk_len p ps \<le> Suc (length ps)" "chunk_len p ps \<le> 100"
  using extend_chunk_le extend_chunk_cap [of 1] by (auto simp: chunk_len_def)

lemma chunk_len_fits: "deltas_fit None (take (chunk_len p ps) (p # ps))"
  using extend_chunk_fits [of "micro_coords p" 1 ps] by (simp add: chunk_len_def micro_coords_def)

text \<open>The splitting on its own: what each frame holds.\<close>

function chunks :: "lat_lng list \<Rightarrow> lat_lng list list" where
  "chunks [] = []"
| "chunks (p # ps) = take (chunk_len p ps) (p # ps) # chunks (drop (chunk_len p ps) (p # ps))"
  by pat_completeness auto
termination
  by (relation "measure length") (auto simp: chunk_len_def)

lemma concat_chunks: "concat (chunks ps) = ps"
  by (induction ps rule: chunks.induct) simp_all

lemma chunks_ok: "c \<in> set (chunks ps) \<Longrightarrow> c \<noteq> [] \<and> length c \<le> 100 \<and> deltas_fit None c"
proof (induction ps rule: chunks.induct)
  case (2 p ps)
  then show ?case
    using chunk_len_bounds [of p ps] chunk_len_fits [of p ps] by (auto simp: chunk_len_def)
qed simp

text \<open>Frame numbering: the sequence number of a chunk is that of its last sample.\<close>

fun number_chunks :: "u64 \<Rightarrow> lat_lng list list \<Rightarrow> (u64 \<times> lat_lng list) list" where
  "number_chunks first [] = []"
| "number_chunks first (c # cs) =
     (first + of_nat (length c) - 1, c) # number_chunks (first + of_nat (length c)) cs"

lemma map_snd_number_chunks [simp]: "map snd (number_chunks first cs) = cs"
  by (induction cs arbitrary: first) simp_all

definition frame_bytes :: "u64 \<Rightarrow> lat_lng list \<Rightarrow> u8 list" where
  "frame_bytes seq c = (case encode_loc_frame seq c of Some f \<Rightarrow> f | None \<Rightarrow> [])"

lemma encode_loc_frame_Some: "deltas_fit None c \<Longrightarrow> encode_loc_frame seq c = Some (frame_bytes seq c)"
  using write_points_Some_iff [of None c] by (auto simp: encode_loc_frame_def frame_bytes_def)

lemma loc_frames_loop_eq:
  "loc_frames_loop first i ps =
     Some (map (\<lambda>(seq, c). frame_bytes seq c) (number_chunks (first + of_nat i) (chunks ps)))"
proof (induction first i ps rule: loc_frames_loop.induct)
  case (2 first i p ps)
  let ?n = "chunk_len p ps"
  have len: "length (take ?n (p # ps)) = ?n" using chunk_len_bounds(2) [of p ps] by simp
  have enc: "encode_loc_frame s (take ?n (p # ps)) = Some (frame_bytes s (take ?n (p # ps)))" for s
    by (intro encode_loc_frame_Some chunk_len_fits)
  note IH = "2.IH" [OF refl refl refl enc]
  show ?case using len
    by (simp add: Let_def enc IH add.assoc del: take_Suc_Cons length_take)
qed simp

lemma encode_loc_frames_eq:
  "encode_loc_frames last_seq ps =
     Some (map (\<lambda>(seq, c). frame_bytes seq c)
       (number_chunks (last_seq + 1 - of_nat (length ps)) (chunks ps)))"
  by (cases "ps = []") (simp_all add: encode_loc_frames_def Let_def loc_frames_loop_eq)

section \<open>The readers of samples and routes\<close>

lemma case_prod_reader: "(\<And>a b. wire_reader (k a b)) \<Longrightarrow> wire_reader (case_prod k x)"
  by (cases x) simp

lemma case_pair_reader: "(\<And>a b. wire_reader (k a b)) \<Longrightarrow> wire_reader (\<lambda>r. case x of (a, b) \<Rightarrow> k a b r)"
  by (cases x) simp

lemma and_then_check: "and_then (check_coord a b) k = (if coord_ok a b then k () else Inl DecodeInvalid)"
  by (simp add: check_coord_def)

lemma get_opt_reader: "wire_reader g \<Longrightarrow> wire_reader (get_opt b g)"
proof -
  assume g: "wire_reader g"
  have "wire_reader (\<lambda>r. if b then and_then (g r) (\<lambda>(x, r). Inr (Some x, r)) else Inr (None, r))"
    by (intro if_reader and_then_reader const_reader g)
  then show ?thesis by (simp only: get_opt_def [abs_def])
qed

lemmas reader_intros = and_then_reader case_prod_reader case_pair_reader if_reader case_option_reader const_reader
  get_opt_reader field_readers

lemma read_coords_reader: "wire_reader (read_coords prev)"
  unfolding read_coords_def [abs_def] by (intro reader_intros)

lemma read_point_reader: "wire_reader (read_point prev)"
  unfolding read_point_def [abs_def] and_then_check by (intro reader_intros read_coords_reader)

lemma read_points_reader: "wire_reader (read_points n prev)"
proof (induction n arbitrary: prev)
  case 0
  show ?case by (simp add: const_reader)
next
  case (Suc n)
  show ?case unfolding read_points.simps
    by (intro reader_intros read_point_reader Suc)
qed

lemma get_abs_coords_reader: "wire_reader get_abs_coords"
  unfolding get_abs_coords_def [abs_def] and_then_check by (intro reader_intros)

interpretation coords: wire_field get_abs_coords put_abs_coords point_ok abs_img
proof (intro wire_field.intro get_abs_coords_reader wire_field_axioms.intro)
  fix p r
  assume "point_ok p"
  then show "get_abs_coords (put_abs_coords p @ r) = Inr (abs_img p, r)"
    by (simp add: get_abs_coords_def put_abs_coords_def i32.get_put and_then_check point_ok_def
        abs_img_def quant_deg_def)
qed

lemma repeat_get_reader: "wire_reader g \<Longrightarrow> wire_reader (repeat_get g n)"
  using wire_reader.repeat_local [of g n] wire_reader.repeat_consumes [of g n]
  by (simp add: wire_reader_def)

lemma read_route_reader: "wire_reader read_route_abs"
  unfolding read_route_abs_def [abs_def]
  by (intro reader_intros repeat_get_reader coords.wire_reader_axioms)

interpretation route: wire_field read_route_abs write_route_abs
  "\<lambda>ps. list_all point_ok (take 65535 ps)" "\<lambda>ps. map abs_img (take 65535 ps)"
proof (intro wire_field.intro read_route_reader wire_field_axioms.intro)
  fix ps :: "lat_lng list" and r :: "u8 list"
  let ?qs = "take 65535 ps"
  assume ok: "list_all point_ok ?qs"
  have len: "length ?qs = min (length ps) 65535" by simp
  then have u: "unat (of_nat (min (length ps) 65535) :: u16) = length ?qs"
    by (simp add: unat_of_nat)
  show "read_route_abs (write_route_abs ps @ r) = Inr (map abs_img ?qs, r)"
    using coords.repeat_get_put [OF ok, of r]
    by (simp only: read_route_abs_def write_route_abs_def append_assoc u16.get_put and_then_simps
        prod.case u)
qed

end
