(* ===== verification/Client_Codec.thy ===== *)
theory Client_Codec
  imports Loc_Laws
begin

text \<open>
  Client frames (\<^verbatim>\<open>src/tracking/codec.rs\<close>): \<^verbatim>\<open>encode_client_cmd\<close>,
  \<^verbatim>\<open>decode_client\<close> and \<^verbatim>\<open>decode_client_cmd\<close>. One frame is one message: a type
  byte and the message's fields. \<open>client_img\<close> is the command the server sees, and the round
  trip says that it sees exactly that.
\<close>

section \<open>Definitions\<close>

definition C_RESUME :: u8 where "C_RESUME = 0x01"
definition C_TRACK_START :: u8 where "C_TRACK_START = 0x02"
definition C_TRACK_STOP :: u8 where "C_TRACK_STOP = 0x03"
definition C_SUBSCRIBE :: u8 where "C_SUBSCRIBE = 0x05"
definition C_UNSUBSCRIBE :: u8 where "C_UNSUBSCRIBE = 0x06"
definition C_EVENT :: u8 where "C_EVENT = 0x07"
definition C_COMMAND_ACK :: u8 where "C_COMMAND_ACK = 0x08"

lemmas client_type_defs = C_RESUME_def C_TRACK_START_def C_TRACK_STOP_def C_LOC_def
  C_SUBSCRIBE_def C_UNSUBSCRIBE_def C_EVENT_def C_COMMAND_ACK_def

datatype client_decode = Cmd client_cmd | Unknown u8

definition u8_of_bool :: "bool \<Rightarrow> u8" where
  "u8_of_bool b = (if b then 1 else 0)"

definition write_abs_opt :: "lat_lng option \<Rightarrow> u8 list option" where
  "write_abs_opt v = (case v of None \<Rightarrow> Some [] | Some p \<Rightarrow> write_abs p)"

text \<open>\<open>None\<close> is the panic of \<^verbatim>\<open>expect\<close> in \<^verbatim>\<open>write_abs\<close> and \<^verbatim>\<open>encode_loc_frame\<close>.\<close>

fun encode_client_cmd :: "uuid_crate \<Rightarrow> client_cmd \<Rightarrow> u8 list option" where
  "encode_client_cmd U (Resume track_uid last_client_seq) =
     Some (put_u8 C_RESUME @ put_uuid U track_uid @ put_u32 (ucast last_client_seq))"
| "encode_client_cmd U (TrackStart location route metadata) =
     map_option (\<lambda>loc. put_u8 C_TRACK_START @ put_u8 (if location \<noteq> None then 1 else 0) @
                        loc @ write_route_abs route @ put_bytes metadata)
       (write_abs_opt location)"
| "encode_client_cmd U (TrackStop _) = Some (put_u8 C_TRACK_STOP)"
| "encode_client_cmd U (LocationAdd _ client_seq point) =
     map_option (\<lambda>pt. put_u8 C_LOC @ put_u32 (ucast client_seq) @ put_u8 1 @ pt) (write_abs point)"
| "encode_client_cmd U (LocationBatch _ client_seq points) =
     map_option (\<lambda>frames. case frames of [] \<Rightarrow> [] | first # _ \<Rightarrow> first)
       (encode_loc_frames client_seq points)"
| "encode_client_cmd U (Subscribe device_uid include_events min_location_interval_ms) =
     Some (put_u8 C_SUBSCRIBE @ put_uuid U device_uid @ put_u8 (u8_of_bool include_events) @
           put_u16 (ucast (min min_location_interval_ms 65535)))"
| "encode_client_cmd U (Unsubscribe sub) = Some (put_u8 C_UNSUBSCRIBE @ put_u8 sub)"
| "encode_client_cmd U (Event _ payload timestamp) =
     Some (put_u8 C_EVENT @ put_bytes payload @ put_i64 (case timestamp of None \<Rightarrow> 0 | Some t \<Rightarrow> t))"
| "encode_client_cmd U (CommandAck command_id status message) =
     Some (put_u8 C_COMMAND_ACK @ put_uuid U command_id @ put_u8 (command_ack_status_u8 status) @
           put_str (case message of None \<Rightarrow> [] | Some m \<Rightarrow> m))"

definition encode_client_msg :: "uuid_crate \<Rightarrow> client_cmd \<Rightarrow> u8 list option" where
  "encode_client_msg U cmd = encode_client_cmd U cmd"

text \<open>A zero timestamp, an empty message: absent on the wire.\<close>

definition nonzero :: "'a::zero \<Rightarrow> 'a option" where
  "nonzero t = (if t = 0 then None else Some t)"

definition nonempty :: "'a list \<Rightarrow> 'a list option" where
  "nonempty m = (if m = [] then None else Some m)"

definition loc_cmd :: "u64 \<Rightarrow> lat_lng list \<Rightarrow> client_cmd" where
  "loc_cmd seq points = (case points of [p] \<Rightarrow> LocationAdd [] seq p | _ \<Rightarrow> LocationBatch [] seq points)"

definition decode_loc :: "u8 list \<Rightarrow> decode_error + client_cmd \<times> u8 list" where
  "decode_loc r =
     and_then (get_u32 r) (\<lambda>(seq, r). and_then (get_u8 r) (\<lambda>(count, r).
       if count = 0 \<or> MAX_LOC_POINTS < count then Inl DecodeInvalid
       else and_then (read_points (unat count) None r) (\<lambda>(points, r).
         Inr (loc_cmd (ucast seq) points, r))))"

definition decode_track_start :: "client_cmd reader" where
  "decode_track_start r =
     and_then (get_u8 r) (\<lambda>(flags, r).
     and_then (get_opt (flags AND 1 \<noteq> 0) (read_point None) r) (\<lambda>(location, r).
     and_then (read_route_abs r) (\<lambda>(route, r).
     and_then (get_bytes r) (\<lambda>(metadata, r).
       Inr (TrackStart (map_option fst location) route metadata, r)))))"

definition decode_subscribe :: "uuid_crate \<Rightarrow> client_cmd reader" where
  "decode_subscribe U r =
     and_then (get_uuid U r) (\<lambda>(device_uid, r).
     and_then (get_u8 r) (\<lambda>(flags, r).
     and_then (get_u16 r) (\<lambda>(min_interval, r).
       Inr (Subscribe device_uid (flags AND 1 \<noteq> 0) (ucast min_interval), r))))"

definition decode_event :: "client_cmd reader" where
  "decode_event r =
     and_then (get_bytes r) (\<lambda>(payload, r).
     and_then (get_i64 r) (\<lambda>(t, r). Inr (Event [] payload (nonzero t), r)))"

definition decode_command_ack :: "uuid_crate \<Rightarrow> client_cmd reader" where
  "decode_command_ack U r =
     and_then (get_uuid U r) (\<lambda>(command_id, r).
     and_then (get_u8 r) (\<lambda>(status, r).
     and_then (get_str r) (\<lambda>(message, r).
       Inr (CommandAck command_id (command_ack_status_from_u8 status) (nonempty message), r))))"

definition decode_resume :: "uuid_crate \<Rightarrow> client_cmd reader" where
  "decode_resume U r =
     and_then (get_uuid U r) (\<lambda>(track_uid, r).
     and_then (get_u32 r) (\<lambda>(seq, r). Inr (Resume track_uid (ucast seq), r)))"

definition as_cmd :: "decode_error + client_cmd \<times> u8 list \<Rightarrow> decode_error + client_decode" where
  "as_cmd res = and_then res (\<lambda>(c, _). Inr (Cmd c))"

definition decode_client :: "uuid_crate \<Rightarrow> u8 list \<Rightarrow> decode_error + client_decode" where
  "decode_client U bytes =
     (if bytes = [] then Inl DecodeTruncated
      else and_then (get_u8 bytes) (\<lambda>(typ, r).
        if typ = C_RESUME then as_cmd (decode_resume U r)
        else if typ = C_TRACK_START then as_cmd (decode_track_start r)
        else if typ = C_TRACK_STOP then Inr (Cmd (TrackStop []))
        else if typ = C_LOC then as_cmd (decode_loc r)
        else if typ = C_SUBSCRIBE then as_cmd (decode_subscribe U r)
        else if typ = C_UNSUBSCRIBE then
          as_cmd (and_then (get_u8 r) (\<lambda>(sub, r). Inr (Unsubscribe sub, r)))
        else if typ = C_EVENT then as_cmd (decode_event r)
        else if typ = C_COMMAND_ACK then as_cmd (decode_command_ack U r)
        else if typ = 0x00 \<or> typ = 0x7F \<or> typ = 0xFF then Inl DecodeInvalid
        else if 0x01 \<le> typ \<and> typ \<le> 0x7E then Inr (Unknown typ)
        else Inl DecodeInvalid))"

definition decode_client_cmd :: "uuid_crate \<Rightarrow> u8 list \<Rightarrow> decode_error + client_cmd" where
  "decode_client_cmd U bytes =
     and_then (decode_client U bytes) (\<lambda>d. case d of Cmd c \<Rightarrow> Inr c | Unknown _ \<Rightarrow> Inl DecodeInvalid)"

definition client_resume :: "string \<Rightarrow> u64 \<Rightarrow> client_cmd" where
  "client_resume track_uid last_client_seq = Resume track_uid last_client_seq"

section \<open>What the server sees\<close>

definition seq_img :: "u64 \<Rightarrow> u64" where
  "seq_img s = ucast (ucast s :: u32)"

text \<open>The frame of a batch that is not split, or the first of several.\<close>

definition batch_img :: "u64 \<Rightarrow> lat_lng list \<Rightarrow> client_cmd" where
  "batch_img seq points =
     (let c = hd (chunks points)
      in loc_cmd (seq_img (seq - of_nat (length points) + of_nat (length c))) (map point_img c))"

fun client_img :: "uuid_crate \<Rightarrow> client_cmd \<Rightarrow> client_cmd" where
  "client_img U (Resume uid seq) = Resume (uuid_img U uid) (seq_img seq)"
| "client_img U (TrackStart location route metadata) =
     TrackStart (map_option point_img location) (map abs_img (take 65535 route)) (take MAX_STRING metadata)"
| "client_img U (TrackStop _) = TrackStop []"
| "client_img U (LocationAdd _ seq p) = LocationAdd [] (seq_img seq) (point_img p)"
| "client_img U (LocationBatch _ seq ps) = batch_img seq ps"
| "client_img U (Subscribe d e m) = Subscribe (uuid_img U d) e (min m 65535)"
| "client_img U (Unsubscribe sub) = Unsubscribe sub"
| "client_img U (Event _ payload t) = Event [] (take MAX_STRING payload) (Option.bind t nonzero)"
| "client_img U (CommandAck i s m) =
     CommandAck (uuid_img U i) s (Option.bind m (\<lambda>m. nonempty (take MAX_STRING m)))"

text \<open>When the server accepts the frame: coordinates in range, text not cut inside a character.\<close>

fun client_ok :: "client_cmd \<Rightarrow> bool" where
  "client_ok (TrackStart location route _) =
     (list_all point_ok (take 65535 route) \<and> pred_option point_ok location)"
| "client_ok (LocationAdd _ _ p) = point_ok p"
| "client_ok (LocationBatch _ _ ps) = (ps \<noteq> [] \<and> list_all point_ok ps)"
| "client_ok (CommandAck _ _ (Some m)) = utf8 (take MAX_STRING m)"
| "client_ok _ = True"

section \<open>Laws\<close>

lemma flag_bit0 [simp]: "((if b then 1 else 0 :: u8) AND 1 \<noteq> 0) \<longleftrightarrow> b" "(u8_of_bool b AND 1 \<noteq> 0) \<longleftrightarrow> b"
  by (simp_all add: u8_of_bool_def)

lemma u8_of_bool_nonzero [simp]: "u8_of_bool b \<noteq> 0 \<longleftrightarrow> b" "u8_of_bool b = 0 \<longleftrightarrow> \<not> b"
  by (simp_all add: u8_of_bool_def)

lemma write_abs_opt_Some: "\<exists>bs. write_abs_opt v = Some bs"
  using write_abs_Some by (cases v) (simp_all add: write_abs_opt_def)

lemma read_write_abs_opt:
  assumes "write_abs_opt v = Some bs" and "pred_option point_ok v"
  shows "get_opt (v \<noteq> None) (read_point None) (bs @ r) =
    Inr (map_option (\<lambda>p. (point_img p, micro_coords p)) v, r)"
  using assms by (cases v) (auto simp: write_abs_opt_def get_opt_def read_write_abs)

lemma decode_client_typ:
  "decode_client U (put_u8 t @ r) =
     (if t = C_RESUME then as_cmd (decode_resume U r)
      else if t = C_TRACK_START then as_cmd (decode_track_start r)
      else if t = C_TRACK_STOP then Inr (Cmd (TrackStop []))
      else if t = C_LOC then as_cmd (decode_loc r)
      else if t = C_SUBSCRIBE then as_cmd (decode_subscribe U r)
      else if t = C_UNSUBSCRIBE then
        as_cmd (and_then (get_u8 r) (\<lambda>(sub, r). Inr (Unsubscribe sub, r)))
      else if t = C_EVENT then as_cmd (decode_event r)
      else if t = C_COMMAND_ACK then as_cmd (decode_command_ack U r)
      else if t = 0x00 \<or> t = 0x7F \<or> t = 0xFF then Inl DecodeInvalid
      else if 0x01 \<le> t \<and> t \<le> 0x7E then Inr (Unknown t)
      else Inl DecodeInvalid)"
proof -
  have "put_u8 t @ r \<noteq> []" by (simp add: put_u8_def)
  then show ?thesis by (simp only: decode_client_def u8.get_put if_False and_then_simps prod.case)
qed

lemma decode_client_types:
  "decode_client U (put_u8 C_RESUME @ r) = as_cmd (decode_resume U r)"
  "decode_client U (put_u8 C_TRACK_START @ r) = as_cmd (decode_track_start r)"
  "decode_client U (put_u8 C_TRACK_STOP @ r) = Inr (Cmd (TrackStop []))"
  "decode_client U (put_u8 C_LOC @ r) = as_cmd (decode_loc r)"
  "decode_client U (put_u8 C_SUBSCRIBE @ r) = as_cmd (decode_subscribe U r)"
  "decode_client U (put_u8 C_UNSUBSCRIBE @ r) =
     as_cmd (and_then (get_u8 r) (\<lambda>(sub, r). Inr (Unsubscribe sub, r)))"
  "decode_client U (put_u8 C_EVENT @ r) = as_cmd (decode_event r)"
  "decode_client U (put_u8 C_COMMAND_ACK @ r) = as_cmd (decode_command_ack U r)"
  by (simp_all only: decode_client_typ) (simp_all add: client_type_defs)

lemma field_end:
  "get_u8 (put_u8 v) = Inr (v, [])" "get_u16 (put_u16 w) = Inr (w, [])"
  "get_u32 (put_u32 x) = Inr (x, [])" "get_i64 (put_i64 y) = Inr (y, [])"
  "get_bytes (put_bytes b) = Inr (take MAX_STRING b, [])"
  "utf8 (take MAX_STRING t) \<Longrightarrow> get_str (put_str t) = Inr (take MAX_STRING t, [])"
  "uuid_laws U \<Longrightarrow> get_uuid U (put_uuid U i) = Inr (uuid_img U i, [])"
  using u8.get_put [of v "[]"] u16.get_put [of w "[]"] u32.get_put [of x "[]"] i64.get_put [of y "[]"]
    bytes.get_put [of b "[]"] str.get_put [of t "[]"] uuid.get_put [of U i "[]"] by simp_all

text \<open>A location frame carries its chunk and the low 32 bits of the chunk's sequence number.\<close>

lemma loc_cmd_map: "loc_cmd s (map point_img c) = (case c of [p] \<Rightarrow> LocationAdd [] s (point_img p)
    | _ \<Rightarrow> LocationBatch [] s (map point_img c))"
  by (simp add: loc_cmd_def split: list.splits)

lemma decode_frame:
  assumes c: "c \<noteq> []" "length c \<le> 100" "deltas_fit None c" and ok: "list_all point_ok c"
  shows "decode_client U (frame_bytes seq c) = Inr (Cmd (loc_cmd (seq_img seq) (map point_img c)))"
proof -
  obtain body where body: "write_points None c = Some body"
    using c(3) write_points_Some_iff by blast
  have n: "unat (of_nat (length c) :: u8) = length c" using c(2) by (simp add: unat_of_nat)
  have "(of_nat (length c) :: u8) \<noteq> 0" using n c(1) by (metis length_0_conv unat_0)
  moreover have "\<not> MAX_LOC_POINTS < (of_nat (length c) :: u8)"
    using n c(2) by (simp add: MAX_LOC_POINTS_def word_less_nat_alt)
  moreover have "read_points (length c) None body = Inr (map point_img c, [])"
    using read_write_points [OF body ok, of "[]"] by simp
  ultimately show ?thesis
    using body n by (simp add: frame_bytes_def encode_loc_frame_def decode_client_types
        decode_loc_def u8.get_put u32.get_put as_cmd_def seq_img_def)
qed

lemma decode_location_add:
  assumes "write_abs p = Some bs" and "point_ok p"
  shows "decode_client U (put_u8 C_LOC @ put_u32 (ucast seq) @ put_u8 1 @ bs) =
    Inr (Cmd (LocationAdd [] (seq_img seq) (point_img p)))"
  using read_write_abs [OF assms, of "[]"]
  by (simp add: decode_client_types decode_loc_def u8.get_put u32.get_put MAX_LOC_POINTS_def
      as_cmd_def seq_img_def loc_cmd_def micro_coords_def)

text \<open>The encoder never panics.\<close>

lemma encode_client_total: "\<exists>bs. encode_client_cmd U cmd = Some bs"
  using write_abs_Some write_abs_opt_Some
  by (cases cmd) (auto simp: encode_loc_frames_eq)

lemma chunks_hd:
  assumes "ps \<noteq> []"
  shows "chunks ps \<noteq> []" and "hd (chunks ps) = take (length (hd (chunks ps))) ps"
    and "1 \<le> length (hd (chunks ps))" "length (hd (chunks ps)) \<le> 100" "deltas_fit None (hd (chunks ps))"
proof -
  show ne: "chunks ps \<noteq> []" using assms by (cases ps) simp_all
  then have "hd (chunks ps) \<in> set (chunks ps)" by simp
  from chunks_ok [OF this] show "1 \<le> length (hd (chunks ps))" "length (hd (chunks ps)) \<le> 100"
    "deltas_fit None (hd (chunks ps))" by (auto simp: Suc_le_eq)
  have "ps = hd (chunks ps) @ concat (tl (chunks ps))"
    using ne concat_chunks [of ps] by (metis concat.simps(2) list.collapse)
  then show "hd (chunks ps) = take (length (hd (chunks ps))) ps" by (metis append_eq_conv_conj)
qed

lemma encode_batch:
  assumes "ps \<noteq> []"
  shows "encode_client_cmd U (LocationBatch uid seq ps) =
    Some (frame_bytes (seq - of_nat (length ps) + of_nat (length (hd (chunks ps)))) (hd (chunks ps)))"
  using chunks_hd(1) [OF assms]
  by (cases "chunks ps") (simp_all add: encode_loc_frames_eq algebra_simps)

lemma unat_min_u16: "(ucast (ucast (min m 65535 :: u32) :: u16) :: u32) = min m 65535"
proof -
  have "min m 65535 \<le> (65535 :: u32)" by simp
  then have "unat (min m 65535 :: u32) < 2 ^ 16" by (simp add: word_le_nat_alt)
  then have "take_bit 16 (unat (min m 65535 :: u32)) = unat (min m 65535 :: u32)"
    by (rule take_bit_nat_eq_self)
  then have "unat (ucast (ucast (min m 65535 :: u32) :: u16) :: u32) = unat (min m 65535 :: u32)"
    by (simp add: unsigned_ucast_eq unsigned_take_bit_eq)
  then show ?thesis by (rule unsigned_word_eqI)
qed

lemma decode_track_start_enc:
  assumes enc: "encode_client_cmd U (TrackStart location route metadata) = Some bs"
    and ok: "client_ok (TrackStart location route metadata)"
  shows "decode_client U bs = Inr (Cmd (client_img U (TrackStart location route metadata)))"
proof -
  obtain loc where loc: "write_abs_opt location = Some loc"
    and bs: "bs = put_u8 C_TRACK_START @ put_u8 (if location \<noteq> None then 1 else 0) @
               loc @ write_route_abs route @ put_bytes metadata"
    using enc by auto
  have "get_opt (location \<noteq> None) (read_point None) (loc @ write_route_abs route @ put_bytes metadata) =
      Inr (map_option (\<lambda>p. (point_img p, micro_coords p)) location, write_route_abs route @ put_bytes metadata)"
    using loc ok by (intro read_write_abs_opt) simp_all
  then show ?thesis
    using ok route.get_put [of route]
    by (simp add: bs decode_client_types decode_track_start_def u8.get_put as_cmd_def field_end
        option.map_comp o_def)
qed

lemma decode_batch_enc:
  assumes enc: "encode_client_cmd U (LocationBatch uid seq ps) = Some bs"
    and ok: "client_ok (LocationBatch uid seq ps)"
  shows "decode_client U bs = Inr (Cmd (client_img U (LocationBatch uid seq ps)))"
proof -
  have ps: "ps \<noteq> []" "list_all point_ok ps" using ok by simp_all
  let ?c = "hd (chunks ps)"
  have "list_all point_ok ?c"
    using ps(2) chunks_hd(2) [OF ps(1)] by (metis append_take_drop_id list_all_append)
  moreover have "?c \<noteq> []" using chunks_hd(3) [OF ps(1)] by auto
  ultimately have "decode_client U (frame_bytes (seq - of_nat (length ps) + of_nat (length ?c)) ?c) =
      Inr (Cmd (batch_img seq ps))"
    using chunks_hd [OF ps(1)] by (simp add: decode_frame batch_img_def Let_def)
  moreover have "bs = frame_bytes (seq - of_nat (length ps) + of_nat (length ?c)) ?c"
    using enc encode_batch [OF ps(1), of U uid seq] by (simp only: option.inject)
  ultimately show ?thesis by (simp only: client_img.simps)
qed

lemma decode_event_enc:
  "decode_client U (put_u8 C_EVENT @ put_bytes payload @ put_i64 (case t of None \<Rightarrow> 0 | Some t \<Rightarrow> t)) =
   Inr (Cmd (client_img U (Event uid payload t)))"
proof -
  have "nonzero (case t of None \<Rightarrow> 0 | Some t \<Rightarrow> t) = Option.bind t nonzero"
    by (cases t) (simp_all add: nonzero_def)
  then show ?thesis
    by (simp add: decode_client_types decode_event_def bytes.get_put field_end as_cmd_def)
qed

lemma decode_command_ack_enc:
  assumes "uuid_laws U" and "client_ok (CommandAck i st m)"
  shows "decode_client U (put_u8 C_COMMAND_ACK @ put_uuid U i @ put_u8 (command_ack_status_u8 st) @
      put_str (case m of None \<Rightarrow> [] | Some m \<Rightarrow> m)) = Inr (Cmd (client_img U (CommandAck i st m)))"
proof -
  let ?s = "case m of None \<Rightarrow> [] | Some m \<Rightarrow> m"
  have "utf8 (take MAX_STRING ?s)" using assms(2) by (cases m) (simp_all add: utf8_def)
  moreover have "nonempty (take MAX_STRING ?s) = Option.bind m (\<lambda>m. nonempty (take MAX_STRING m))"
    by (cases m) (simp_all add: nonempty_def)
  ultimately show ?thesis using assms(1)
    by (simp add: decode_client_types decode_command_ack_def uuid.get_put u8.get_put field_end as_cmd_def)
qed

lemma decode_encode_client:
  assumes U: "uuid_laws U" and ok: "client_ok cmd" and enc: "encode_client_cmd U cmd = Some bs"
  shows "decode_client U bs = Inr (Cmd (client_img U cmd))"
proof (cases cmd)
  case (Resume uid seq)
  with enc have "bs = put_u8 C_RESUME @ put_uuid U uid @ put_u32 (ucast seq)" by simp
  with Resume U show ?thesis
    by (simp add: decode_client_types decode_resume_def uuid.get_put field_end as_cmd_def seq_img_def)
next
  case (Subscribe d e m)
  with enc have "bs = put_u8 C_SUBSCRIBE @ put_uuid U d @ put_u8 (u8_of_bool e) @
      put_u16 (ucast (min m 65535))" by simp
  with Subscribe U show ?thesis
    by (simp add: decode_client_types decode_subscribe_def uuid.get_put u8.get_put field_end as_cmd_def
        unat_min_u16)
next
  case (Unsubscribe sub)
  with enc show ?thesis by (auto simp: decode_client_types field_end as_cmd_def)
next
  case (TrackStop uid)
  with enc decode_client_types(3) [of U "[]"] show ?thesis by auto
next
  case (LocationAdd uid seq p)
  with enc ok show ?thesis by (auto simp: decode_location_add)
next
  case (Event uid payload t)
  with enc decode_event_enc [of U payload t uid] show ?thesis by simp
next
  case (CommandAck i st m)
  with enc ok decode_command_ack_enc [OF U, of i st m] show ?thesis by simp
next
  case (TrackStart location route metadata)
  with enc ok show ?thesis by (simp only: decode_track_start_enc)
next
  case (LocationBatch uid seq ps)
  with enc ok show ?thesis by (simp only: decode_batch_enc)
qed

section \<open>Text cut inside a character\<close>

text \<open>
  \<^verbatim>\<open>put_str\<close> cuts at 4096 bytes whatever they are, and the reader insists on whole
  characters: the peer rejects such a frame.
\<close>

lemma from_utf8_None: "\<not> utf8 s \<Longrightarrow> from_utf8 (as_bytes s) = None"
proof -
  have b: "unat (of_nat (of_char c) :: u8) = of_char c" for c
    by (simp add: unat_of_nat)
  assume "\<not> utf8 s"
  then show ?thesis by (simp add: utf8_def from_utf8_def as_bytes_def o_def b)
qed

lemma get_str_cut: "\<not> utf8 (take MAX_STRING s) \<Longrightarrow> get_str (put_str s @ r) = Inl DecodeInvalid"
proof -
  assume bad: "\<not> utf8 (take MAX_STRING s)"
  have "put_str s = put_u16 (of_nat (length (take MAX_STRING s))) @ as_bytes (take MAX_STRING s)"
    by (simp only: put_str_eq put_bytes_eq take_as_bytes length_as_bytes)
  moreover have "length (take MAX_STRING s) \<le> MAX_STRING" by simp
  ultimately show ?thesis
    using bad by (simp only: get_str_def append_assoc u16.get_put and_then_simps prod.case
        unat_len_u16 need_append length_as_bytes) (simp add: from_utf8_None)
qed

lemma utf8_valid_ascii: "utf8_valid (replicate n 97 @ s) = utf8_valid s"
  by (induction n) simp_all

section \<open>Readers of client messages\<close>

lemma client_readers:
  "wire_reader (decode_resume U)" "wire_reader decode_track_start" "wire_reader (decode_subscribe U)"
  "wire_reader decode_event" "wire_reader (decode_command_ack U)" "wire_reader decode_loc"
  "wire_reader (\<lambda>r. and_then (get_u8 r) (\<lambda>(sub, r). Inr (Unsubscribe sub, r)))"
  unfolding decode_resume_def [abs_def] decode_track_start_def [abs_def] decode_subscribe_def [abs_def]
    decode_event_def [abs_def] decode_command_ack_def [abs_def] decode_loc_def [abs_def]
  by (intro reader_intros read_point_reader read_route_reader read_points_reader)+

lemma as_cmd_local:
  assumes "wire_reader g"
  shows "as_cmd (g r) = Inr d \<longrightarrow> as_cmd (g (r @ z)) = Inr d"
  using wire_reader.local [OF assms, of r] by (auto simp: as_cmd_def and_then_Inr_iff)

lemmas client_locals = client_readers [THEN as_cmd_local]

lemma if_Inr_imp:
  "x = Inr d \<longrightarrow> y = Inr d \<Longrightarrow> x' = Inr d \<longrightarrow> y' = Inr d \<Longrightarrow>
   (if b then x else x') = Inr d \<longrightarrow> (if b then y else y') = Inr d"
  by simp

lemma get_u8_Cons [simp]: "get_u8 (b # r) = Inr (b, r)"
  using u8.get_put [of b r] by (simp add: put_u8_def)

lemma decode_client_local:
  assumes "decode_client U bs = Inr d"
  shows "decode_client U (bs @ z) = Inr d"
proof (cases bs)
  case Nil
  with assms show ?thesis by (simp add: decode_client_def)
next
  case (Cons b r)
  note by_type = decode_client_typ [of U b, unfolded put_u8_def append_Cons append_Nil]
  have "decode_client U (b # r) = Inr d \<longrightarrow> decode_client U (b # (r @ z)) = Inr d"
    unfolding by_type [of r] by_type [of "r @ z"]
    by (intro if_Inr_imp client_locals imp_refl)
  with assms Cons show ?thesis by simp
qed

section \<open>The image is a fixed point\<close>

lemma uid_bytes_string:
  "uuid_laws U \<Longrightarrow> length b = 16 \<Longrightarrow> uid_bytes U (uuid_string U b) = b"
  by (simp add: uuid_laws_def uid_bytes_def)

lemma uuid_img_idem: "uuid_laws U \<Longrightarrow> uuid_img U (uuid_img U s) = uuid_img U s"
  by (simp add: uuid_img_def uid_bytes_string length_uid_bytes)

text \<open>A concrete \<^verbatim>\<open>uuid\<close> crate that obeys the laws, for the witnesses.\<close>

definition raw_uuid :: uuid_crate where
  "raw_uuid = \<lparr>uuid_parse = (\<lambda>s. if length s = 16 then Some (as_bytes s) else None),
               uuid_string = map (\<lambda>b. char_of (unat b))\<rparr>"

lemma raw_uuid_laws: "uuid_laws raw_uuid"
proof -
  have b: "of_nat (unat b mod 256) = b" for b :: u8
    using unat_u8_less [of b] by simp
  show ?thesis
    by (auto simp: uuid_laws_def raw_uuid_def as_bytes_def b split: if_splits intro!: nth_equalityI)
qed

end
