(* ===== verification/Server_Codec.thy ===== *)
theory Server_Codec
  imports Client_Codec
begin

text \<open>
  Server frames (\<^verbatim>\<open>src/tracking/codec.rs\<close>): \<^verbatim>\<open>encode_server_evt\<close>,
  \<^verbatim>\<open>decode_server_evt\<close> and \<^verbatim>\<open>decode_server_msg\<close>. \<open>server_img\<close> is the event the
  client sees; the laws are the round trip on it, the classification of the type bytes, and
  that bytes after a complete message change nothing.
\<close>

section \<open>Definitions\<close>

definition S_HELLO :: u8 where "S_HELLO = 0x80"
definition S_RELOCATE :: u8 where "S_RELOCATE = 0x81"
definition S_RESUME_OK :: u8 where "S_RESUME_OK = 0x82"
definition S_TRACK_STARTED :: u8 where "S_TRACK_STARTED = 0x83"
definition S_TRACK_STOPPED :: u8 where "S_TRACK_STOPPED = 0x84"
definition S_ACK :: u8 where "S_ACK = 0x85"
definition S_LOC :: u8 where "S_LOC = 0x86"
definition S_SUBSCRIBED :: u8 where "S_SUBSCRIBED = 0x87"
definition S_ERROR :: u8 where "S_ERROR = 0x88"
definition S_EVENT_ADDED :: u8 where "S_EVENT_ADDED = 0x89"
definition S_COMMAND :: u8 where "S_COMMAND = 0x8A"
definition S_PRESENCE :: u8 where "S_PRESENCE = 0x8B"

lemmas server_type_defs = S_HELLO_def S_RELOCATE_def S_RESUME_OK_def S_TRACK_STARTED_def
  S_TRACK_STOPPED_def S_ACK_def S_LOC_def S_SUBSCRIBED_def S_ERROR_def S_EVENT_ADDED_def
  S_COMMAND_def S_PRESENCE_def

definition or_zero :: "'a::zero option \<Rightarrow> 'a" where
  "or_zero v = (case v of None \<Rightarrow> 0 | Some x \<Rightarrow> x)"

definition or_empty :: "'a list option \<Rightarrow> 'a list" where
  "or_empty v = (case v of None \<Rightarrow> [] | Some x \<Rightarrow> x)"

definition subscribed_flags :: "lat_lng option \<Rightarrow> i64 option \<Rightarrow> lat_lng list \<Rightarrow> u8" where
  "subscribed_flags last_location last_seen_ms route =
     (if last_location \<noteq> None then 1 else 0) OR (if last_seen_ms \<noteq> None then 2 else 0) OR
     (if route \<noteq> [] then 4 else 0)"

fun encode_server_evt :: "uuid_crate \<Rightarrow> server_evt \<Rightarrow> u8 list option" where
  "encode_server_evt U (Hello version node_id shard) =
     Some (put_u8 S_HELLO @ put_u8 version @ put_u16 (ucast shard) @ put_uuid U node_id)"
| "encode_server_evt U (Relocate endpoint retry_after_ms) =
     Some (put_u8 S_RELOCATE @ put_u32 retry_after_ms @ put_str endpoint)"
| "encode_server_evt U (ResumeOk track_uid last_acked_seq) =
     Some (put_u8 S_RESUME_OK @ put_uuid U track_uid @ put_u32 (ucast last_acked_seq))"
| "encode_server_evt U (TrackStarted track_uid metadata) =
     Some (put_u8 S_TRACK_STARTED @ put_uuid U track_uid @ put_bytes metadata)"
| "encode_server_evt U (TrackStopped track_uid) = Some (put_u8 S_TRACK_STOPPED @ put_uuid U track_uid)"
| "encode_server_evt U (Ack seq) = Some (put_u8 S_ACK @ put_u32 (ucast seq))"
| "encode_server_evt U (LocationAdded _ _ point client_seq sub) =
     map_option (\<lambda>pt. put_u8 S_LOC @ put_u8 sub @ put_u32 (ucast client_seq) @ pt) (write_abs point)"
| "encode_server_evt U (Subscribed sub device_uid track_uid last_location route estimated_distance
       estimated_duration start_location_name end_location_name metadata online last_seen_ms) =
     map_option (\<lambda>loc.
       put_u8 S_SUBSCRIBED @ put_u8 sub @ put_uuid U device_uid @ put_uuid U track_uid @
       put_u8 (u8_of_bool online) @ put_u8 (subscribed_flags last_location last_seen_ms route) @
       loc @ put_opt put_i64 last_seen_ms @ (if route \<noteq> [] then write_route_abs route else []) @
       put_f64 estimated_distance @ put_f64 estimated_duration @
       put_str start_location_name @ put_str end_location_name @ put_bytes metadata)
       (write_abs_opt last_location)"
| "encode_server_evt U (Error code message track_uid retry_after_ms) =
     Some (put_u8 S_ERROR @ put_u8 (error_code_u8 code) @ put_u32 (or_zero retry_after_ms) @
           put_uuid U (or_empty track_uid) @ put_str message)"
| "encode_server_evt U (EventAdded _ _ payload timestamp sub) =
     Some (put_u8 S_EVENT_ADDED @ put_u8 sub @ put_bytes payload @ put_i64 (or_zero timestamp))"
| "encode_server_evt U (Command command_id payload timestamp) =
     Some (put_u8 S_COMMAND @ put_uuid U command_id @ put_bytes payload @ put_i64 (or_zero timestamp))"
| "encode_server_evt U (DevicePresence _ online last_seen_ms sub) =
     Some (put_u8 S_PRESENCE @ put_u8 sub @ put_u8 (u8_of_bool online) @ put_i64 (or_zero last_seen_ms))"

text \<open>The decoder, one definition per message, in the order of the \<^verbatim>\<open>match\<close>.\<close>

type_synonym evt_reader = "server_evt reader"

definition decode_hello :: "uuid_crate \<Rightarrow> evt_reader" where
  "decode_hello U r =
     and_then (get_u8 r) (\<lambda>(version, r). and_then (get_u16 r) (\<lambda>(shard, r).
     and_then (get_uuid U r) (\<lambda>(node_id, r). Inr (Hello version node_id (ucast shard), r))))"

definition decode_relocate :: evt_reader where
  "decode_relocate r =
     and_then (get_u32 r) (\<lambda>(retry, r). and_then (get_str r) (\<lambda>(endpoint, r).
       Inr (Relocate endpoint retry, r)))"

definition decode_resume_ok :: "uuid_crate \<Rightarrow> evt_reader" where
  "decode_resume_ok U r =
     and_then (get_uuid U r) (\<lambda>(uid, r). and_then (get_u32 r) (\<lambda>(seq, r).
       Inr (ResumeOk uid (ucast seq), r)))"

definition decode_track_started :: "uuid_crate \<Rightarrow> evt_reader" where
  "decode_track_started U r =
     and_then (get_uuid U r) (\<lambda>(uid, r). and_then (get_bytes r) (\<lambda>(metadata, r).
       Inr (TrackStarted uid metadata, r)))"

definition decode_track_stopped :: "uuid_crate \<Rightarrow> evt_reader" where
  "decode_track_stopped U r = and_then (get_uuid U r) (\<lambda>(uid, r). Inr (TrackStopped uid, r))"

definition decode_ack :: evt_reader where
  "decode_ack r = and_then (get_u32 r) (\<lambda>(seq, r). Inr (Ack (ucast seq), r))"

definition decode_location_added :: evt_reader where
  "decode_location_added r =
     and_then (get_u8 r) (\<lambda>(sub, r). and_then (get_u32 r) (\<lambda>(seq, r).
     and_then (read_point None r) (\<lambda>((point, _, _), r).
       Inr (LocationAdded [] [] point (ucast seq) sub, r))))"

definition decode_subscribed :: "uuid_crate \<Rightarrow> evt_reader" where
  "decode_subscribed U r =
     and_then (get_u8 r) (\<lambda>(sub, r).
     and_then (get_uuid U r) (\<lambda>(device_uid, r).
     and_then (get_uuid_opt U r) (\<lambda>(track_uid, r).
     and_then (get_u8 r) (\<lambda>(online, r).
     and_then (get_u8 r) (\<lambda>(flags, r).
     and_then (get_opt (flags AND 1 \<noteq> 0) (read_point None) r) (\<lambda>(last_location, r).
     and_then (get_opt (flags AND 2 \<noteq> 0) get_i64 r) (\<lambda>(last_seen_ms, r).
     and_then (get_opt (flags AND 4 \<noteq> 0) read_route_abs r) (\<lambda>(route, r).
     and_then (get_f64 r) (\<lambda>(estimated_distance, r).
     and_then (get_f64 r) (\<lambda>(estimated_duration, r).
     and_then (get_str r) (\<lambda>(start_location_name, r).
     and_then (get_str r) (\<lambda>(end_location_name, r).
     and_then (get_bytes r) (\<lambda>(metadata, r).
       Inr (Subscribed sub device_uid (or_empty track_uid) (map_option fst last_location)
              (or_empty route) estimated_distance estimated_duration start_location_name
              end_location_name metadata (online \<noteq> 0) last_seen_ms, r))))))))))))))"

definition decode_error_msg :: "uuid_crate \<Rightarrow> evt_reader" where
  "decode_error_msg U r =
     and_then (get_u8 r) (\<lambda>(c, r).
     case error_code_from_u8 c of
       None \<Rightarrow> Inl DecodeInvalid
     | Some code \<Rightarrow>
         and_then (get_u32 r) (\<lambda>(retry, r). and_then (get_uuid_opt U r) (\<lambda>(track_uid, r).
         and_then (get_str r) (\<lambda>(message, r).
           Inr (Error code message track_uid (nonzero retry), r)))))"

definition decode_event_added :: evt_reader where
  "decode_event_added r =
     and_then (get_u8 r) (\<lambda>(sub, r). and_then (get_bytes r) (\<lambda>(payload, r).
     and_then (get_i64 r) (\<lambda>(t, r). Inr (EventAdded [] [] payload (nonzero t) sub, r))))"

definition decode_command :: "uuid_crate \<Rightarrow> evt_reader" where
  "decode_command U r =
     and_then (get_uuid U r) (\<lambda>(command_id, r). and_then (get_bytes r) (\<lambda>(payload, r).
     and_then (get_i64 r) (\<lambda>(t, r). Inr (Command command_id payload (nonzero t), r))))"

definition decode_presence :: evt_reader where
  "decode_presence r =
     and_then (get_u8 r) (\<lambda>(sub, r). and_then (get_u8 r) (\<lambda>(online, r).
     and_then (get_i64 r) (\<lambda>(t, r). Inr (DevicePresence [] (online \<noteq> 0) (nonzero t) sub, r))))"

definition as_evt :: "decode_error + server_evt \<times> u8 list \<Rightarrow> decode_error + server_evt option" where
  "as_evt res = and_then res (\<lambda>(e, _). Inr (Some e))"

definition decode_server_evt :: "uuid_crate \<Rightarrow> u8 list \<Rightarrow> decode_error + server_evt option" where
  "decode_server_evt U bytes =
     (if bytes = [] then Inl DecodeTruncated
      else and_then (get_u8 bytes) (\<lambda>(t, r).
        if t = S_HELLO then as_evt (decode_hello U r)
        else if t = S_RELOCATE then as_evt (decode_relocate r)
        else if t = S_RESUME_OK then as_evt (decode_resume_ok U r)
        else if t = S_TRACK_STARTED then as_evt (decode_track_started U r)
        else if t = S_TRACK_STOPPED then as_evt (decode_track_stopped U r)
        else if t = S_ACK then as_evt (decode_ack r)
        else if t = S_LOC then as_evt (decode_location_added r)
        else if t = S_SUBSCRIBED then as_evt (decode_subscribed U r)
        else if t = S_ERROR then as_evt (decode_error_msg U r)
        else if t = S_EVENT_ADDED then as_evt (decode_event_added r)
        else if t = S_COMMAND then as_evt (decode_command U r)
        else if t = S_PRESENCE then as_evt (decode_presence r)
        else if t = 0x00 \<or> t = 0x7F \<or> t = 0xFF \<or> t = 0x8C then Inl DecodeInvalid
        else if 0x80 \<le> t \<and> t \<le> 0xFE then Inr None
        else Inl DecodeInvalid))"

definition decode_server_msg :: "uuid_crate \<Rightarrow> u8 list \<Rightarrow> decode_error + server_evt" where
  "decode_server_msg U data =
     and_then (decode_server_evt U data) (\<lambda>e. case e of None \<Rightarrow> Inl DecodeInvalid | Some e \<Rightarrow> Inr e)"

definition protocol_version :: u8 where
  "protocol_version = PROTOCOL_VERSION"

section \<open>What the client sees\<close>

fun server_img :: "uuid_crate \<Rightarrow> server_evt \<Rightarrow> server_evt" where
  "server_img U (Hello v n s) = Hello v (uuid_img U n) (ucast (ucast s :: u16))"
| "server_img U (Relocate e t) = Relocate (take MAX_STRING e) t"
| "server_img U (ResumeOk uid seq) = ResumeOk (uuid_img U uid) (seq_img seq)"
| "server_img U (TrackStarted uid m) = TrackStarted (uuid_img U uid) (take MAX_STRING m)"
| "server_img U (TrackStopped uid) = TrackStopped (uuid_img U uid)"
| "server_img U (Ack seq) = Ack (seq_img seq)"
| "server_img U (LocationAdded _ _ p seq sub) = LocationAdded [] [] (point_img p) (seq_img seq) sub"
| "server_img U (Subscribed sub d t l r ed et sn en m on seen) =
     Subscribed sub (uuid_img U d) (or_empty (uuid_opt_img U t)) (map_option point_img l)
       (map abs_img (take 65535 r)) ed et (take MAX_STRING sn) (take MAX_STRING en) (take MAX_STRING m)
       on seen"
| "server_img U (Error c m uid retry) =
     Error c (take MAX_STRING m) (uuid_opt_img U (or_empty uid)) (Option.bind retry nonzero)"
| "server_img U (EventAdded _ _ p t sub) = EventAdded [] [] (take MAX_STRING p) (Option.bind t nonzero) sub"
| "server_img U (Command i p t) = Command (uuid_img U i) (take MAX_STRING p) (Option.bind t nonzero)"
| "server_img U (DevicePresence _ on t sub) = DevicePresence [] on (Option.bind t nonzero) sub"

fun server_ok :: "server_evt \<Rightarrow> bool" where
  "server_ok (Relocate e _) = utf8 (take MAX_STRING e)"
| "server_ok (LocationAdded _ _ p _ _) = point_ok p"
| "server_ok (Subscribed _ _ _ l r _ _ sn en _ _ _) =
     (pred_option point_ok l \<and> list_all point_ok (take 65535 r) \<and>
      utf8 (take MAX_STRING sn) \<and> utf8 (take MAX_STRING en))"
| "server_ok (Error _ m _ _) = utf8 (take MAX_STRING m)"
| "server_ok _ = True"

section \<open>Laws\<close>

lemma nonzero_or_zero: "nonzero (or_zero t) = Option.bind t nonzero"
  by (cases t) (simp_all add: or_zero_def nonzero_def)

lemma subscribed_flag_bits:
  "subscribed_flags l s r AND 1 \<noteq> 0 \<longleftrightarrow> l \<noteq> None"
  "subscribed_flags l s r AND 2 \<noteq> 0 \<longleftrightarrow> s \<noteq> None"
  "subscribed_flags l s r AND 4 \<noteq> 0 \<longleftrightarrow> r \<noteq> []"
  by (cases l; cases s; cases r; simp add: subscribed_flags_def)+

lemma encode_server_total: "\<exists>bs. encode_server_evt U evt = Some bs"
  using write_abs_Some write_abs_opt_Some by (cases evt) auto

lemma decode_server_typ:
  "decode_server_evt U (put_u8 t @ r) =
       (if t = S_HELLO then as_evt (decode_hello U r)
        else if t = S_RELOCATE then as_evt (decode_relocate r)
        else if t = S_RESUME_OK then as_evt (decode_resume_ok U r)
        else if t = S_TRACK_STARTED then as_evt (decode_track_started U r)
        else if t = S_TRACK_STOPPED then as_evt (decode_track_stopped U r)
        else if t = S_ACK then as_evt (decode_ack r)
        else if t = S_LOC then as_evt (decode_location_added r)
        else if t = S_SUBSCRIBED then as_evt (decode_subscribed U r)
        else if t = S_ERROR then as_evt (decode_error_msg U r)
        else if t = S_EVENT_ADDED then as_evt (decode_event_added r)
        else if t = S_COMMAND then as_evt (decode_command U r)
        else if t = S_PRESENCE then as_evt (decode_presence r)
        else if t = 0x00 \<or> t = 0x7F \<or> t = 0xFF \<or> t = 0x8C then Inl DecodeInvalid
        else if 0x80 \<le> t \<and> t \<le> 0xFE then Inr None
        else Inl DecodeInvalid)"
proof -
  have "put_u8 t @ r \<noteq> []" by (simp add: put_u8_def)
  then show ?thesis by (simp only: decode_server_evt_def u8.get_put if_False and_then_simps prod.case)
qed

lemma decode_server_types:
  "decode_server_evt U (put_u8 S_HELLO @ r) = as_evt (decode_hello U r)"
  "decode_server_evt U (put_u8 S_RELOCATE @ r) = as_evt (decode_relocate r)"
  "decode_server_evt U (put_u8 S_RESUME_OK @ r) = as_evt (decode_resume_ok U r)"
  "decode_server_evt U (put_u8 S_TRACK_STARTED @ r) = as_evt (decode_track_started U r)"
  "decode_server_evt U (put_u8 S_TRACK_STOPPED @ r) = as_evt (decode_track_stopped U r)"
  "decode_server_evt U (put_u8 S_ACK @ r) = as_evt (decode_ack r)"
  "decode_server_evt U (put_u8 S_LOC @ r) = as_evt (decode_location_added r)"
  "decode_server_evt U (put_u8 S_SUBSCRIBED @ r) = as_evt (decode_subscribed U r)"
  "decode_server_evt U (put_u8 S_ERROR @ r) = as_evt (decode_error_msg U r)"
  "decode_server_evt U (put_u8 S_EVENT_ADDED @ r) = as_evt (decode_event_added r)"
  "decode_server_evt U (put_u8 S_COMMAND @ r) = as_evt (decode_command U r)"
  "decode_server_evt U (put_u8 S_PRESENCE @ r) = as_evt (decode_presence r)"
  by (simp_all only: decode_server_typ) (simp_all add: server_type_defs)

lemma decode_subscribed_enc:
  assumes U: "uuid_laws U" and loc: "write_abs_opt l = Some loc"
    and ok: "server_ok (Subscribed sub d t l route ed et sn en m on seen)"
  shows "decode_subscribed U (put_u8 sub @ put_uuid U d @ put_uuid U t @ put_u8 (u8_of_bool on) @
      put_u8 (subscribed_flags l seen route) @ loc @ put_opt put_i64 seen @
      (if route \<noteq> [] then write_route_abs route else []) @ put_f64 ed @ put_f64 et @
      put_str sn @ put_str en @ put_bytes m) =
    Inr (server_img U (Subscribed sub d t l route ed et sn en m on seen), [])"
proof -
  have l: "get_opt (l \<noteq> None) (read_point None) (loc @ z) =
      Inr (map_option (\<lambda>p. (point_img p, micro_coords p)) l, z)" for z
    using loc ok by (intro read_write_abs_opt) simp_all
  have s: "get_opt (seen \<noteq> None) get_i64 (put_opt put_i64 seen @ z) = Inr (seen, z)" for z
    using get_opt_put_opt [of get_i64 put_i64 "\<lambda>x. x" seen] by (simp add: i64.get_put option.map_ident)
  have rt: "get_opt (route \<noteq> []) read_route_abs ((if route \<noteq> [] then write_route_abs route else []) @ z) =
      Inr (if route \<noteq> [] then Some (map abs_img (take 65535 route)) else None, z)" for z
    using ok by (simp add: get_opt_def route.get_put)
  have str: "get_str (put_str sn @ z) = Inr (take MAX_STRING sn, z)"
    "get_str (put_str en @ z) = Inr (take MAX_STRING en, z)" for z
    using ok by (simp_all add: str.get_put)
  have r0: "or_empty (if route \<noteq> [] then Some (map abs_img (take 65535 route)) else None) =
      map abs_img (take 65535 route)"
    by (simp add: or_empty_def)
  show ?thesis
    by (simp only: decode_subscribed_def u8.get_put uuid.get_put [OF U] uuid_opt.get_put [OF U]
        and_then_simps prod.case subscribed_flag_bits l s rt str f64.get_put field_end r0
        option.map_comp o_def fst_conv u8_of_bool_nonzero not_not server_img.simps)
qed

lemma decode_error_enc:
  assumes "uuid_laws U" and "utf8 (take MAX_STRING m)"
  shows "decode_error_msg U (put_u8 (error_code_u8 c) @ put_u32 (or_zero retry) @
      put_uuid U (or_empty uid) @ put_str m) = Inr (server_img U (Error c m uid retry), [])"
  using assms by (simp add: decode_error_msg_def u8.get_put u32.get_put uuid_opt.get_put field_end
      nonzero_or_zero)

lemma decode_encode_server:
  assumes U: "uuid_laws U" and ok: "server_ok evt" and enc: "encode_server_evt U evt = Some bs"
  shows "decode_server_evt U bs = Inr (Some (server_img U evt))"
proof (cases evt)
  case (Hello v n s)
  with enc show ?thesis using U
    by (auto simp: decode_server_types decode_hello_def as_evt_def field_get_put field_end)
next
  case (Relocate e t)
  with enc ok show ?thesis
    by (auto simp: decode_server_types decode_relocate_def as_evt_def field_get_put field_end)
next
  case (ResumeOk uid seq)
  with enc show ?thesis using U
    by (auto simp: decode_server_types decode_resume_ok_def as_evt_def field_get_put field_end seq_img_def)
next
  case (TrackStarted uid m)
  with enc show ?thesis using U
    by (auto simp: decode_server_types decode_track_started_def as_evt_def field_get_put field_end)
next
  case (TrackStopped uid)
  with enc show ?thesis using U
    by (auto simp: decode_server_types decode_track_stopped_def as_evt_def field_end)
next
  case (Ack seq)
  with enc show ?thesis
    by (auto simp: decode_server_types decode_ack_def as_evt_def field_end seq_img_def)
next
  case (LocationAdded d t p seq sub)
  with enc ok obtain pt where "write_abs p = Some pt"
    and "bs = put_u8 S_LOC @ put_u8 sub @ put_u32 (ucast seq) @ pt" and "point_ok p" by auto
  with LocationAdded read_write_abs [of p pt "[]"] show ?thesis
    by (simp add: decode_server_types decode_location_added_def as_evt_def field_get_put seq_img_def
        micro_coords_def)
next
  case (Subscribed sub d t l route ed et sn en m on seen)
  with enc obtain loc where "write_abs_opt l = Some loc"
    and bs: "bs = put_u8 S_SUBSCRIBED @ (put_u8 sub @ put_uuid U d @ put_uuid U t @ put_u8 (u8_of_bool on) @
      put_u8 (subscribed_flags l seen route) @ loc @ put_opt put_i64 seen @
      (if route \<noteq> [] then write_route_abs route else []) @ put_f64 ed @ put_f64 et @
      put_str sn @ put_str en @ put_bytes m)" by auto
  with decode_subscribed_enc [OF U] ok Subscribed show ?thesis
    by (simp only: bs decode_server_types as_evt_def and_then_simps prod.case)
next
  case (Error c m uid retry)
  with enc ok decode_error_enc [OF U, of m c retry uid] show ?thesis
    by (auto simp: decode_server_types as_evt_def simp del: server_img.simps)
next
  case (EventAdded d t p ts sub)
  with enc show ?thesis
    by (auto simp: decode_server_types decode_event_added_def as_evt_def field_get_put field_end nonzero_or_zero)
next
  case (Command i p ts)
  with enc show ?thesis using U
    by (auto simp: decode_server_types decode_command_def as_evt_def field_get_put field_end nonzero_or_zero)
next
  case (DevicePresence d on ts sub)
  with enc show ?thesis
    by (auto simp: decode_server_types decode_presence_def as_evt_def field_get_put field_end nonzero_or_zero)
qed

section \<open>Locality and classification\<close>

lemma server_readers:
  "wire_reader (decode_hello U)" "wire_reader decode_relocate" "wire_reader (decode_resume_ok U)"
  "wire_reader (decode_track_started U)" "wire_reader (decode_track_stopped U)" "wire_reader decode_ack"
  "wire_reader decode_location_added" "wire_reader (decode_subscribed U)"
  "wire_reader (decode_error_msg U)" "wire_reader decode_event_added" "wire_reader (decode_command U)"
  "wire_reader decode_presence"
  unfolding decode_hello_def [abs_def] decode_relocate_def [abs_def] decode_resume_ok_def [abs_def]
    decode_track_started_def [abs_def] decode_track_stopped_def [abs_def] decode_ack_def [abs_def]
    decode_location_added_def [abs_def] decode_subscribed_def [abs_def] decode_error_msg_def [abs_def]
    decode_event_added_def [abs_def] decode_command_def [abs_def] decode_presence_def [abs_def]
  by (intro reader_intros read_point_reader read_route_reader)+

lemma as_evt_local:
  assumes "wire_reader g"
  shows "as_evt (g r) = Inr d \<longrightarrow> as_evt (g (r @ z)) = Inr d"
  using wire_reader.local [OF assms, of r] by (auto simp: as_evt_def and_then_Inr_iff)

lemmas server_locals = server_readers [THEN as_evt_local]

lemma decode_server_local:
  assumes "decode_server_evt U bs = Inr d"
  shows "decode_server_evt U (bs @ z) = Inr d"
proof (cases bs)
  case Nil
  with assms show ?thesis by (simp add: decode_server_evt_def)
next
  case (Cons b r)
  note by_type = decode_server_typ [of U b, unfolded put_u8_def append_Cons append_Nil]
  have "decode_server_evt U (b # r) = Inr d \<longrightarrow> decode_server_evt U (b # (r @ z)) = Inr d"
    unfolding by_type [of r] by_type [of "r @ z"]
    by (intro if_Inr_imp server_locals imp_refl)
  with assms Cons show ?thesis by simp
qed

end
