(* ===== verification/Noise_Filter.thy ===== *)
theory Noise_Filter
  imports Tracking_Types
begin

text \<open>
  The device GPS filter (\<^verbatim>\<open>src/tracking/filter.rs\<close>): which samples of a 50 Hz
  stream are worth sending. The filter is the record \<open>noise_filter\<close>; \<^verbatim>\<open>push\<close>
  takes the clock reading that \<^verbatim>\<open>now_ms\<close> would give as an argument, and
  \<^verbatim>\<open>sin\<close>, \<^verbatim>\<open>cos\<close>, \<^verbatim>\<open>asin\<close> are the parameter
  \<open>libm\<close>. The laws: a sample is sent or held, never changed but for its missing time;
  what is held is less than a heartbeat after the last sent sample; and collapsing removes
  exactly one interior sample.
\<close>

section \<open>Geometry\<close>

definition HEARTBEAT_MS :: int where "HEARTBEAT_MS = 1000"
definition HEADING_JUMP_DEG :: f64 where "HEADING_JUMP_DEG = f64_of_int 25"
definition MIN_MOVE_M :: f64 where "MIN_MOVE_M = f64_of_int 2"
definition MOTION_EPS_MS :: f64 where "MOTION_EPS_MS = F64 0x3FE0000000000000"

definition haversine_m :: "libm \<Rightarrow> lat_lng \<Rightarrow> lat_lng \<Rightarrow> f64" where
  "haversine_m L a b =
     (let R = f64_of_int 6371000;
          two = f64_of_int 2;
          dlat = f64_to_radians (f64_sub (latitude b) (latitude a));
          dlon = f64_to_radians (f64_sub (longitude b) (longitude a));
          la1 = f64_to_radians (latitude a);
          la2 = f64_to_radians (latitude b);
          h = f64_add (f64_sq (m_sin L (f64_div dlat two)))
                (f64_mul (f64_mul (m_cos L la1) (m_cos L la2)) (f64_sq (m_sin L (f64_div dlon two))))
      in f64_mul (f64_mul two R) (m_asin L (f64_sqrt h)))"

definition project_m :: "libm \<Rightarrow> lat_lng \<Rightarrow> lat_lng \<Rightarrow> f64 \<times> f64" where
  "project_m L origin p =
     (let M_PER_DEG_LAT = f64_of_int 111320;
          lat0 = f64_to_radians (latitude origin)
      in (f64_mul (f64_mul (f64_sub (longitude p) (longitude origin)) M_PER_DEG_LAT) (m_cos L lat0),
          f64_mul (f64_sub (latitude p) (latitude origin)) M_PER_DEG_LAT))"

text \<open>\<open>0x3EB0C6F7A0B5ED8D\<close> is the literal \<^verbatim>\<open>1e-6\<close>.\<close>

definition perpendicular_m :: "libm \<Rightarrow> lat_lng \<Rightarrow> lat_lng \<Rightarrow> lat_lng \<Rightarrow> f64" where
  "perpendicular_m L a b p =
     (let (ax, ay) = project_m L a a;
          (bx, by') = project_m L a b;
          (px, py) = project_m L a p;
          dx = f64_sub bx ax;
          dy = f64_sub by' ay;
          len2 = f64_add (f64_mul dx dx) (f64_mul dy dy)
      in if f64_lt len2 (F64 0x3EB0C6F7A0B5ED8D) then haversine_m L a p
         else
           (let t = f64_div (f64_add (f64_mul (f64_sub px ax) dx) (f64_mul (f64_sub py ay) dy)) len2;
                qx = f64_add ax (f64_mul t dx);
                qy = f64_add ay (f64_mul t dy)
            in f64_sqrt (f64_add (f64_sq (f64_sub px qx)) (f64_sq (f64_sub py qy)))))"

definition heading_delta_deg :: "f64 \<Rightarrow> f64 \<Rightarrow> f64" where
  "heading_delta_deg a b =
     (let d = f64_rem_euclid (f64_sub b a) (f64_of_int 360)
      in if f64_gt d (f64_of_int 180) then f64_sub (f64_of_int 360) d else d)"

definition unwrap_or :: "'a \<Rightarrow> 'a option \<Rightarrow> 'a" where
  "unwrap_or d v = (case v of None \<Rightarrow> d | Some x \<Rightarrow> x)"

lemma unwrap_or_simps [simp]: "unwrap_or d None = d" "unwrap_or d (Some x) = x"
  by (simp_all add: unwrap_or_def)

section \<open>NoiseFilter\<close>

record noise_filter =
  last_emitted :: "lat_lng option"
  candidate :: "lat_lng option"
  last_emit_at :: "i64 option"

definition filter_new :: noise_filter where
  "filter_new = \<lparr>last_emitted = None, candidate = None, last_emit_at = None\<rparr>"

definition filter_seed :: "lat_lng \<Rightarrow> noise_filter \<Rightarrow> noise_filter" where
  "filter_seed point f =
     f\<lparr>last_emitted := Some point, candidate := None, last_emit_at := Some (unwrap_or 0 (timestamp_ms point))\<rparr>"

definition filter_reset :: "noise_filter \<Rightarrow> noise_filter" where
  "filter_reset f = filter_new"

definition filter_emit :: "lat_lng \<Rightarrow> i64 \<Rightarrow> noise_filter \<Rightarrow> lat_lng \<times> noise_filter" where
  "filter_emit point now f =
     (point, f\<lparr>last_emitted := Some point, candidate := None, last_emit_at := Some now\<rparr>)"

definition moved :: "libm \<Rightarrow> lat_lng \<Rightarrow> lat_lng \<Rightarrow> bool" where
  "moved L prev current =
     (let acc = unwrap_or (f64_of_int 0) (accuracy current)
      in f64_ge (haversine_m L prev current) (f64_max MIN_MOVE_M (f64_mul (f64_of_int 2) acc)))"

definition left_line :: "libm \<Rightarrow> lat_lng \<Rightarrow> lat_lng option \<Rightarrow> lat_lng \<Rightarrow> bool" where
  "left_line L prev cand current = (case cand of None \<Rightarrow> False | Some c \<Rightarrow>
     (let acc = unwrap_or (f64_of_int 0) (accuracy current);
          spd = unwrap_or (f64_of_int 0) (speed current);
          eps = f64_max (f64_max MIN_MOVE_M acc) (f64_mul (F64 0x3FE0000000000000) spd)
      in f64_ge (perpendicular_m L prev current c) eps))"

definition turned :: "lat_lng \<Rightarrow> lat_lng \<Rightarrow> bool" where
  "turned prev current = (case (heading prev, heading current) of
       (Some h0, Some h1) \<Rightarrow> f64_ge (heading_delta_deg h0 h1) HEADING_JUMP_DEG
     | _ \<Rightarrow> False)"

definition motion_changed :: "lat_lng \<Rightarrow> lat_lng \<Rightarrow> bool" where
  "motion_changed prev current = (case (speed prev, speed current) of
       (Some s0, Some s1) \<Rightarrow> f64_gt s0 MOTION_EPS_MS \<noteq> f64_gt s1 MOTION_EPS_MS
     | _ \<Rightarrow> False)"

definition heartbeat_due :: "noise_filter \<Rightarrow> i64 \<Rightarrow> bool" where
  "heartbeat_due f now \<longleftrightarrow>
     HEARTBEAT_MS \<le> sint (i64_saturating_sub now (unwrap_or now (last_emit_at f)))"

definition should_emit :: "libm \<Rightarrow> noise_filter \<Rightarrow> lat_lng \<Rightarrow> i64 \<Rightarrow> bool" where
  "should_emit L f current now = (case last_emitted f of
       None \<Rightarrow> True
     | Some prev \<Rightarrow>
         if heartbeat_due f now then True
         else if moved L prev current then True
         else if left_line L prev (candidate f) current then True
         else if turned prev current then True
         else if motion_changed prev current then True
         else False)"

definition filter_push :: "libm \<Rightarrow> i64 \<Rightarrow> lat_lng \<Rightarrow> noise_filter \<Rightarrow> lat_lng option \<times> noise_filter" where
  "filter_push L clock current f =
     (let now = unwrap_or clock (timestamp_ms current);
          current = current\<lparr>timestamp_ms := Some now\<rparr>
      in if last_emitted f = None then
           (let (p, f') = filter_emit current now f in (Some p, f'))
         else if should_emit L f current now then
           (let (p, f') = filter_emit current now f in (Some p, f'))
         else (None, f\<lparr>candidate := Some current\<rparr>))"

section \<open>collapse\_one\_collinear\<close>

text \<open>The \<^verbatim>\<open>for\<close> loop over interior indices, from index \<open>i\<close> on.\<close>

definition collinear_at :: "libm \<Rightarrow> lat_lng list \<Rightarrow> nat \<Rightarrow> bool" where
  "collinear_at L points i =
     (let acc = unwrap_or (f64_of_int 0) (accuracy (points ! i));
          eps = f64_max MIN_MOVE_M acc
      in f64_lt (perpendicular_m L (points ! (i - 1)) (points ! (i + 1)) (points ! i)) eps)"

definition collapse_one_collinear :: "libm \<Rightarrow> lat_lng list \<Rightarrow> bool \<times> lat_lng list" where
  "collapse_one_collinear L points =
     (if length points < 3 then (False, points)
      else case List.find (collinear_at L points) [1..<length points - 1] of
             None \<Rightarrow> (False, points)
           | Some i \<Rightarrow> (True, remove_nth i points))"

section \<open>Laws of the filter\<close>

text \<open>The time a sample gets.\<close>

definition stamped :: "i64 \<Rightarrow> lat_lng \<Rightarrow> lat_lng" where
  "stamped clock p = p\<lparr>timestamp_ms := Some (unwrap_or clock (timestamp_ms p))\<rparr>"

lemma filter_push_cases:
  "filter_push L clock p f =
     (let now = unwrap_or clock (timestamp_ms p)
      in if should_emit L f (stamped clock p) now
         then (Some (stamped clock p),
               f\<lparr>last_emitted := Some (stamped clock p), candidate := None, last_emit_at := Some now\<rparr>)
         else (None, f\<lparr>candidate := Some (stamped clock p)\<rparr>))"
  by (simp add: filter_push_def filter_emit_def stamped_def Let_def should_emit_def)

text \<open>The filter's state: the time of the last sent sample is known once one was sent.\<close>

definition filter_wf :: "noise_filter \<Rightarrow> bool" where
  "filter_wf f \<longleftrightarrow> (last_emitted f = None \<longleftrightarrow> last_emit_at f = None) \<and>
     (last_emitted f = None \<longrightarrow> candidate f = None)"

lemma filter_wf_ops:
  "filter_wf filter_new" "filter_wf (filter_seed p f)" "filter_wf (filter_reset f)"
  by (simp_all add: filter_wf_def filter_new_def filter_seed_def filter_reset_def)

lemma filter_wf_push: "filter_wf f \<Longrightarrow> filter_push L clock p f = (out, f') \<Longrightarrow> filter_wf f'"
  by (auto simp: filter_push_cases Let_def filter_wf_def should_emit_def split: if_splits)

lemma push_held:
  assumes "filter_push L clock p f = (None, f')"
  shows "\<exists>prev. last_emitted f = Some prev" and "last_emitted f' = last_emitted f"
    and "last_emit_at f' = last_emit_at f" and "\<not> heartbeat_due f (unwrap_or clock (timestamp_ms p))"
  using assms by (auto simp: filter_push_cases Let_def should_emit_def split: if_splits option.splits)

lemma push_sent:
  "filter_push L clock p f = (Some q, f') \<Longrightarrow>
   q = stamped clock p \<and> last_emitted f' = Some q \<and> candidate f' = None \<and> last_emit_at f' = timestamp_ms q"
  by (auto simp: filter_push_cases Let_def stamped_def split: if_splits)

lemma not_due:
  assumes "last_emit_at f = Some t" and "\<not> heartbeat_due f now"
  shows "sint now - sint t < HEARTBEAT_MS"
proof -
  have "clamp_int i64_min i64_max (sint now - sint t) < 1000"
    using assms by (simp add: heartbeat_due_def HEARTBEAT_MS_def sint_i64_saturating_sub)
  then show ?thesis by (simp add: HEARTBEAT_MS_def clamp_int_def split: if_splits)
qed

text \<open>A run of the filter: the clock readings and samples in, what was sent out.\<close>

fun filter_run :: "libm \<Rightarrow> noise_filter \<Rightarrow> (i64 \<times> lat_lng) list \<Rightarrow> lat_lng option list \<times> noise_filter" where
  "filter_run L f [] = ([], f)"
| "filter_run L f ((clock, p) # ps) =
     (let (out, f1) = filter_push L clock p f; (outs, f2) = filter_run L f1 ps in (out # outs, f2))"

lemma filter_run_append:
  "filter_run L f (xs @ ys) =
     (let (o1, f1) = filter_run L f xs; (o2, f2) = filter_run L f1 ys in (o1 @ o2, f2))"
  by (induction xs arbitrary: f) (auto simp: Let_def split: prod.splits)

lemma filter_run_snoc:
  "filter_run L f (xs @ [(clock, p)]) =
     (let (o1, f1) = filter_run L f xs; (out, f2) = filter_push L clock p f1 in (o1 @ [out], f2))"
  by (simp add: filter_run_append Let_def split: prod.splits)

text \<open>The last sent sample of a run is the one the filter remembers, time included.\<close>

definition last_sent :: "lat_lng option list \<Rightarrow> lat_lng option" where
  "last_sent outs = 
     (let sent = List.map_filter (\<lambda>x. x) outs in if sent = [] then None else Some (last sent))"

lemma last_sent_snoc:
  "last_sent [] = None" "last_sent (outs @ [Some q]) = Some q" "last_sent (outs @ [None]) = last_sent outs"
  by (simp_all add: last_sent_def List.map_filter_def Let_def)

lemma run_last_sent:
  "filter_run L filter_new ps = (outs, f) \<Longrightarrow>
     last_emitted f = last_sent outs \<and> last_emit_at f = Option.bind (last_sent outs) timestamp_ms \<and> filter_wf f"
proof (induction ps arbitrary: outs f rule: rev_induct)
  case Nil
  then show ?case by (auto simp: filter_new_def last_sent_snoc filter_wf_def)
next
  case (snoc x ps)
  obtain clock p where x: "x = (clock, p)" by (cases x)
  obtain o1 f1 where r: "filter_run L filter_new ps = (o1, f1)" by fastforce
  obtain out where push: "filter_push L clock p f1 = (out, f)" and outs: "outs = o1 @ [out]"
    using snoc.prems by (auto simp: x filter_run_snoc r split: prod.splits)
  note IH = snoc.IH [OF r]
  have wf: "filter_wf f" using IH push filter_wf_push by blast
  show ?case
  proof (cases out)
    case None
    with push_held [of L clock p f1 f] push IH wf outs show ?thesis by (simp add: last_sent_snoc)
  next
    case (Some q)
    with push_sent [of L clock p f1 q f] push wf outs show ?thesis by (simp add: last_sent_snoc)
  qed
qed

lemma run_held_within_heartbeat:
  assumes "filter_run L filter_new (ps @ [(clock, p)]) = (outs @ [None], f)"
  shows "\<exists>q t. last_sent outs = Some q \<and> timestamp_ms q = Some t \<and>
    sint (unwrap_or clock (timestamp_ms p)) - sint t < HEARTBEAT_MS"
proof -
  obtain o1 f1 where r: "filter_run L filter_new ps = (o1, f1)" by fastforce
  with assms have push: "filter_push L clock p f1 = (None, f)" and o: "outs = o1"
    by (auto simp: filter_run_snoc split: prod.splits)
  from run_last_sent [OF r] have m: "last_emitted f1 = last_sent outs"
    "last_emit_at f1 = Option.bind (last_sent outs) timestamp_ms" "filter_wf f1" using o by simp_all
  from push_held(1) [OF push] m obtain q where q: "last_sent outs = Some q" by auto
  with m push_held(1) [OF push] obtain t where t: "timestamp_ms q = Some t"
    by (cases "timestamp_ms q") (auto simp: filter_wf_def)
  with m q have "last_emit_at f1 = Some t" by simp
  from not_due [OF this push_held(4) [OF push]] q t show ?thesis by blast
qed

section \<open>Laws of collapsing\<close>

lemma find_interior:
  assumes "List.find P [1..<n] = Some i"
  shows "0 < i \<and> i < n"
  using assms by (auto simp: find_Some_iff)

lemma collapse_true:
  assumes "collapse_one_collinear L ps = (True, qs)"
  shows "\<exists>i. 0 < i \<and> Suc i < length ps \<and> qs = remove_nth i ps \<and> collinear_at L ps i"
proof -
  obtain i where f: "List.find (collinear_at L ps) [1..<length ps - 1] = Some i"
    and qs: "qs = remove_nth i ps" and l: "\<not> length ps < 3"
    using assms by (auto simp: collapse_one_collinear_def split: if_splits option.splits)
  have "collinear_at L ps i" using f by (auto simp: find_Some_iff)
  with find_interior [OF f] qs l show ?thesis by (intro exI [of _ i]) auto
qed

lemma collapse_false: "collapse_one_collinear L ps = (False, qs) \<Longrightarrow> qs = ps"
  by (auto simp: collapse_one_collinear_def split: if_splits option.splits)

lemma collapse_false_none:
  "collapse_one_collinear L ps = (False, qs) \<Longrightarrow> 0 < i \<Longrightarrow> Suc i < length ps \<Longrightarrow> \<not> collinear_at L ps i"
  by (auto simp: collapse_one_collinear_def find_None_iff split: if_splits option.splits)

lemma collapse_length: "collapse_one_collinear L ps = (True, qs) \<Longrightarrow> Suc (length qs) = length ps"
  by (drule collapse_true) (auto simp: length_remove_nth)

lemma collapse_ends:
  "collapse_one_collinear L ps = (True, qs) \<Longrightarrow> hd qs = hd ps \<and> last qs = last ps \<and> 2 \<le> length qs"
  by (drule collapse_true) (auto simp: hd_last_remove_nth length_remove_nth)

text \<open>A mathematics library that is good enough to run the filter on an example.\<close>

definition plain_libm :: libm where
  "plain_libm = \<lparr>m_sin = (\<lambda>x. x), m_cos = (\<lambda>x. f64_of_int 1), m_asin = (\<lambda>x. x)\<rparr>"

end
