(* ===== verification/Offline_Queue.thy ===== *)
theory Offline_Queue
  imports Noise_Filter "HOL-Library.Sublist"
begin

text \<open>
  The offline queue (\<^verbatim>\<open>src/tracking/queue.rs\<close>): samples waiting for a sequence
  number (\<open>staging\<close>), samples waiting for an Ack (\<open>inflight\<close>), and the last sequence
  numbers of the frames on the wire (\<open>sent_frame_seqs\<close>, the send window). \<^verbatim>\<open>usize\<close>
  is \<open>nat\<close>, sequence numbers are 64-bit words. The locale \<open>capped_buffer\<close> is the contract
  the three inserting operations share. The laws: the cap holds after every insertion, the
  newest sample survives, nothing is reordered, in-flight numbers stay consecutive, an Ack
  removes exactly what it covers, and numbering neither loses nor reorders samples.
\<close>

section \<open>State and operations\<close>

definition DEFAULT_MAX_QUEUE :: nat where "DEFAULT_MAX_QUEUE = 10000"
definition MAX_UNACKED_FRAMES :: nat where "MAX_UNACKED_FRAMES = 8"

record queued_point =
  q_seq :: u64
  q_point :: lat_lng
  q_sent :: bool

record offline_queue =
  max_size :: nat
  staging :: "lat_lng list"
  inflight :: "queued_point list"
  sent_frame_seqs :: "u64 list"

definition queue_new :: "nat \<Rightarrow> offline_queue" where
  "queue_new n = \<lparr>max_size = (if n = 0 then DEFAULT_MAX_QUEUE else n), staging = [], inflight = [],
                  sent_frame_seqs = []\<rparr>"

definition queue_size :: "offline_queue \<Rightarrow> nat" where
  "queue_size q = length (staging q) + length (inflight q)"

definition staging_len :: "offline_queue \<Rightarrow> nat" where
  "staging_len q = length (staging q)"

definition last_assigned_seq :: "offline_queue \<Rightarrow> u64" where
  "last_assigned_seq q = (if inflight q = [] then 0 else q_seq (last (inflight q)))"

text \<open>\<^verbatim>\<open>enforce_cap\<close>: one turn of the loop, and the loop.\<close>

definition evict_one :: "libm \<Rightarrow> offline_queue \<Rightarrow> offline_queue" where
  "evict_one L q =
     (let (removed, st) = collapse_one_collinear L (staging q)
      in if removed then q\<lparr>staging := st\<rparr>
         else if staging q \<noteq> [] then q\<lparr>staging := remove_nth 0 (staging q)\<rparr>
         else q\<lparr>inflight := remove_nth 0 (inflight q)\<rparr>)"

lemma evict_one_size:
  assumes "0 < queue_size q"
  shows "Suc (queue_size (evict_one L q)) = queue_size q"
proof (cases "collapse_one_collinear L (staging q)")
  case (Pair removed st)
  show ?thesis
  proof (cases removed)
    case True
    with Pair collapse_length [of L "staging q" st] show ?thesis
      by (simp add: evict_one_def queue_size_def)
  next
    case False
    with Pair assms show ?thesis
      by (cases "staging q"; cases "inflight q") (simp_all add: evict_one_def queue_size_def)
  qed
qed

function enforce_cap :: "libm \<Rightarrow> offline_queue \<Rightarrow> offline_queue" where
  "enforce_cap L q =
     (if max_size q < queue_size q then
        if staging q = [] \<and> inflight q = [] then q else enforce_cap L (evict_one L q)
      else q)"
  by pat_completeness auto
termination
proof (relation "measure (\<lambda>(L, q). queue_size q)")
  fix L :: libm and q :: offline_queue
  assume "\<not> (staging q = [] \<and> inflight q = [])"
  then have "0 < queue_size q" by (auto simp: queue_size_def)
  from evict_one_size [OF this, of L]
  show "((L, evict_one L q), (L, q)) \<in> measure (\<lambda>(L, q). queue_size q)" by simp
qed simp

declare enforce_cap.simps [simp del]

definition push_staging :: "libm \<Rightarrow> lat_lng \<Rightarrow> offline_queue \<Rightarrow> offline_queue" where
  "push_staging L point q = enforce_cap L (q\<lparr>staging := staging q @ [point]\<rparr>)"

text \<open>\<^verbatim>\<open>assign_from_staging\<close>: the loop over the next \<open>n\<close> samples.\<close>

fun assign_loop :: "nat \<Rightarrow> u64 \<Rightarrow> offline_queue \<Rightarrow> queued_point list \<times> offline_queue" where
  "assign_loop 0 next_seq q = ([], q)"
| "assign_loop (Suc n) next_seq q =
     (let point = hd (staging q);
          next_seq = next_seq + 1;
          x = \<lparr>q_seq = next_seq, q_point = point, q_sent = False\<rparr>;
          (out, q) = assign_loop n next_seq
                       (q\<lparr>staging := remove_nth 0 (staging q), inflight := inflight q @ [x]\<rparr>)
      in (x # out, q))"

definition assign_from_staging :: "nat \<Rightarrow> u64 \<Rightarrow> offline_queue \<Rightarrow> queued_point list \<times> offline_queue" where
  "assign_from_staging n next_seq q = assign_loop (min n (length (staging q))) next_seq q"

definition enqueue :: "libm \<Rightarrow> u64 \<Rightarrow> lat_lng \<Rightarrow> offline_queue \<Rightarrow> nat \<times> offline_queue" where
  "enqueue L seq point q =
     (let q = q\<lparr>inflight := inflight q @ [\<lparr>q_seq = seq, q_point = point, q_sent = True\<rparr>]\<rparr>;
          old_size = queue_size q;
          q = enforce_cap L q
      in (min (old_size - queue_size q) 1, q))"

definition push_inflight_unsent :: "libm \<Rightarrow> u64 \<Rightarrow> lat_lng \<Rightarrow> offline_queue \<Rightarrow> offline_queue" where
  "push_inflight_unsent L seq point q =
     enforce_cap L (q\<lparr>inflight := inflight q @ [\<lparr>q_seq = seq, q_point = point, q_sent = False\<rparr>]\<rparr>)"

definition mark_unsent :: "offline_queue \<Rightarrow> offline_queue" where
  "mark_unsent q = q\<lparr>inflight := map (\<lambda>p. p\<lparr>q_sent := False\<rparr>) (inflight q), sent_frame_seqs := []\<rparr>"

definition window_full :: "offline_queue \<Rightarrow> bool" where
  "window_full q \<longleftrightarrow> MAX_UNACKED_FRAMES \<le> length (sent_frame_seqs q)"

definition window_remaining :: "offline_queue \<Rightarrow> nat" where
  "window_remaining q = MAX_UNACKED_FRAMES - length (sent_frame_seqs q)"

definition record_frame :: "u64 \<Rightarrow> offline_queue \<Rightarrow> offline_queue" where
  "record_frame last_seq q =
     q\<lparr>sent_frame_seqs := sent_frame_seqs q @ [last_seq],
       inflight := map (\<lambda>p. if q_seq p \<le> last_seq then p\<lparr>q_sent := True\<rparr> else p) (inflight q)\<rparr>"

definition ack_through :: "u64 \<Rightarrow> offline_queue \<Rightarrow> offline_queue" where
  "ack_through ack q =
     q\<lparr>inflight := filter (\<lambda>p. ack < q_seq p) (inflight q),
       sent_frame_seqs := filter (\<lambda>s. ack < s) (sent_frame_seqs q)\<rparr>"

definition peek_all :: "offline_queue \<Rightarrow> queued_point list" where
  "peek_all q = inflight q"

definition peek_staging :: "offline_queue \<Rightarrow> lat_lng list" where
  "peek_staging q = staging q"

definition unsent_inflight :: "offline_queue \<Rightarrow> queued_point list" where
  "unsent_inflight q = filter (\<lambda>p. \<not> q_sent p) (inflight q)"

definition queue_clear :: "offline_queue \<Rightarrow> offline_queue" where
  "queue_clear q = q\<lparr>staging := [], inflight := [], sent_frame_seqs := []\<rparr>"

section \<open>Eviction\<close>

lemma evict_one_fields [simp]:
  "max_size (evict_one L q) = max_size q" "sent_frame_seqs (evict_one L q) = sent_frame_seqs q"
  by (auto simp: evict_one_def split: prod.splits)

lemma enforce_cap_max [simp, queue_simps]: "max_size (enforce_cap L q) = max_size q"
  by (induction L q rule: enforce_cap.induct) (subst enforce_cap.simps; simp)

lemma enforce_cap_frames [simp, queue_simps]: "sent_frame_seqs (enforce_cap L q) = sent_frame_seqs q"
  by (induction L q rule: enforce_cap.induct) (subst enforce_cap.simps; simp)

lemma enforce_cap_le: "queue_size (enforce_cap L q) \<le> max_size q"
  by (induction L q rule: enforce_cap.induct) (subst enforce_cap.simps; simp add: queue_size_def)

lemma enforce_cap_size: "queue_size (enforce_cap L q) = min (queue_size q) (max_size q)"
proof (induction L q rule: enforce_cap.induct)
  case (1 L q)
  show ?case
  proof (cases "max_size q < queue_size q")
    case True
    then have "\<not> (staging q = [] \<and> inflight q = [])" by (auto simp: queue_size_def)
    with True 1 evict_one_size [of q L] show ?thesis by (subst enforce_cap.simps) simp
  next
    case False
    then show ?thesis by (subst enforce_cap.simps) simp
  qed
qed

lemma enforce_cap_id: "queue_size q \<le> max_size q \<Longrightarrow> enforce_cap L q = q"
  by (subst enforce_cap.simps) simp

text \<open>What one eviction and the whole loop leave: a subsequence of \<open>staging\<close>, a suffix of \<open>inflight\<close>.\<close>

lemma remove_nth_subseq: "subseq (remove_nth i xs) xs"
proof (induction xs arbitrary: i)
  case Nil
  show ?case by (simp add: remove_nth_def)
next
  case (Cons x xs)
  then show ?case by (cases i) auto
qed

lemma collapse_subseq: "collapse_one_collinear L ps = (b, qs) \<Longrightarrow> subseq qs ps"
  by (cases b) (auto dest: collapse_true collapse_false simp: remove_nth_subseq)

lemma evict_one_staging: "subseq (staging (evict_one L q)) (staging q)"
  by (auto simp: evict_one_def remove_nth_subseq intro: collapse_subseq split: prod.splits)

lemma remove_nth_0_tl: "remove_nth 0 xs = tl xs"
  by (cases xs) (simp_all add: remove_nth_def)

lemma evict_one_inflight:
  "inflight (evict_one L q) = (if staging q = [] then tl (inflight q) else inflight q)"
  using collapse_length [of L "[]"]
  by (auto simp: evict_one_def remove_nth_0_tl split: prod.splits)

lemma enforce_cap_staging: "subseq (staging (enforce_cap L q)) (staging q)"
proof (induction L q rule: enforce_cap.induct)
  case (1 L q)
  show ?case
    using 1 evict_one_staging [of L q] subseq_order.trans
    by (subst enforce_cap.simps) auto
qed

lemma enforce_cap_inflight: "\<exists>k. inflight (enforce_cap L q) = drop k (inflight q)"
proof (induction L q rule: enforce_cap.induct)
  case (1 L q)
  have "\<exists>k. drop j (tl (inflight q)) = drop k (inflight q)" for j by (metis drop_Suc)
  moreover have "\<exists>k. inflight q = drop k (inflight q)" by (rule exI [of _ 0]) simp
  ultimately show ?case
    using 1 by (subst enforce_cap.simps) (auto simp: evict_one_inflight split: if_splits)
qed

text \<open>The newest staged sample survives as long as in-flight samples leave it room.\<close>

lemma evict_one_last:
  assumes "2 \<le> length (staging q)"
  shows "staging (evict_one L q) \<noteq> [] \<and> last (staging (evict_one L q)) = last (staging q)"
proof (cases "collapse_one_collinear L (staging q)")
  case (Pair removed st)
  show ?thesis
  proof (cases removed)
    case True
    with Pair collapse_ends [of L "staging q" st] show ?thesis by (auto simp: evict_one_def)
  next
    case False
    with Pair assms show ?thesis
      by (cases "staging q"; cases "tl (staging q)") (auto simp: evict_one_def)
  qed
qed

lemma enforce_cap_last:
  "staging q \<noteq> [] \<Longrightarrow> length (inflight q) < max_size q \<Longrightarrow>
   staging (enforce_cap L q) \<noteq> [] \<and> last (staging (enforce_cap L q)) = last (staging q) \<and>
   inflight (enforce_cap L q) = inflight q"
proof (induction L q rule: enforce_cap.induct)
  case (1 L q)
  show ?case
  proof (cases "max_size q < queue_size q")
    case True
    with 1 have two: "2 \<le> length (staging q)" by (simp add: queue_size_def)
    with 1 True evict_one_last [OF two, of L] show ?thesis
      by (subst (1 2 3) enforce_cap.simps) (simp add: evict_one_inflight)
  next
    case False
    with 1 show ?thesis by (simp add: enforce_cap_id)
  qed
qed

section \<open>The contract of the inserting operations\<close>

text \<open>
  An operation that adds to a buffer of bounded size: the bound is a constant of the
  buffer and holds afterwards, however full the buffer was.
\<close>

locale capped_buffer =
  fixes size_of :: "'q \<Rightarrow> nat" and cap :: "'q \<Rightarrow> nat" and add :: "'a \<Rightarrow> 'q \<Rightarrow> 'q"
  assumes cap_add: "cap (add x q) = cap q"
    and size_add: "size_of (add x q) = min (Suc (size_of q)) (cap q)"
begin

lemma fold_cap: "cap (fold add xs q) = cap q"
  by (induction xs arbitrary: q) (simp_all add: cap_add)

lemma fold_size: "size_of q \<le> cap q \<Longrightarrow> size_of (fold add xs q) = min (size_of q + length xs) (cap q)"
  by (induction xs arbitrary: q) (simp_all add: cap_add size_add)

lemma fold_bounded: "size_of q \<le> cap q \<Longrightarrow> size_of (fold add xs q) \<le> cap q"
  by (simp add: fold_size)

lemma fold_room: "size_of q + length xs \<le> cap q \<Longrightarrow> size_of (fold add xs q) = size_of q + length xs"
  by (simp add: fold_size)

end

lemma queue_size_snoc:
  "queue_size (q\<lparr>staging := staging q @ [x]\<rparr>) = Suc (queue_size q)"
  "queue_size (q\<lparr>inflight := inflight q @ [y]\<rparr>) = Suc (queue_size q)"
  by (simp_all add: queue_size_def)

interpretation push: capped_buffer queue_size max_size "push_staging L"
  by unfold_locales (auto simp: push_staging_def enforce_cap_size queue_size_snoc)

interpretation live: capped_buffer queue_size max_size "\<lambda>(seq, p). push_inflight_unsent L seq p"
  by unfold_locales (auto simp: push_inflight_unsent_def enforce_cap_size queue_size_snoc)

interpretation enq: capped_buffer queue_size max_size "\<lambda>(seq, p) q. snd (enqueue L seq p q)"
  by unfold_locales (auto simp: enqueue_def Let_def enforce_cap_size queue_size_snoc)

section \<open>Numbering\<close>

text \<open>In-flight numbers are consecutive.\<close>

fun consecutive :: "u64 list \<Rightarrow> bool" where
  "consecutive [] = True"
| "consecutive [s] = True"
| "consecutive (s # t # rest) = (unat t = Suc (unat s) \<and> consecutive (t # rest))"

lemma consecutive_tl: "consecutive xs \<Longrightarrow> consecutive (tl xs)"
  by (cases xs rule: consecutive.cases) simp_all

lemma consecutive_drop: "consecutive xs \<Longrightarrow> consecutive (drop k xs)"
  by (induction k arbitrary: xs) (simp_all add: drop_Suc consecutive_tl)

lemma consecutive_snoc:
  "consecutive xs \<Longrightarrow> (xs = [] \<or> unat s = Suc (unat (last xs))) \<Longrightarrow> consecutive (xs @ [s])"
  by (induction xs rule: consecutive.induct) simp_all

lemma consecutive_Cons: "consecutive (s # xs) \<longleftrightarrow> (xs = [] \<or> unat (hd xs) = Suc (unat s)) \<and> consecutive xs"
  by (cases xs) simp_all

lemma consecutive_less: "consecutive (s # xs) \<Longrightarrow> t \<in> set xs \<Longrightarrow> s < t"
proof (induction xs arbitrary: s)
  case (Cons u xs)
  then have "s < u" by (simp add: word_less_nat_alt)
  with Cons show ?case by (auto intro: less_trans)
qed simp

lemma consecutive_filter:
  "consecutive xs \<Longrightarrow> \<exists>k. filter (\<lambda>s. ack < s) xs = drop k xs"
proof (induction xs)
  case (Cons s xs)
  show ?case
  proof (cases "ack < s")
    case True
    with Cons.prems have "filter (\<lambda>s. ack < s) (s # xs) = s # xs"
      by (intro filter_True) (auto dest: consecutive_less)
    then show ?thesis by (intro exI [of _ 0]) simp
  next
    case False
    with Cons obtain k where "filter (\<lambda>s. ack < s) xs = drop k xs"
      by (auto simp: consecutive_Cons)
    with False show ?thesis by (intro exI [of _ "Suc k"]) simp
  qed
qed simp

definition seqs :: "offline_queue \<Rightarrow> u64 list" where
  "seqs q = map q_seq (inflight q)"

lemma last_assigned_eq: "last_assigned_seq q = (if seqs q = [] then 0 else last (seqs q))"
  by (simp add: last_assigned_seq_def seqs_def last_map)

lemma seqs_enforce_cap: "\<exists>k. seqs (enforce_cap L q) = drop k (seqs q)"
  using enforce_cap_inflight [of L q] by (auto simp: seqs_def drop_map)

lemma seqs_mark_unsent [simp, queue_simps]: "seqs (mark_unsent q) = seqs q"
  by (simp add: seqs_def mark_unsent_def o_def)

lemma seqs_record_frame [simp, queue_simps]: "seqs (record_frame s q) = seqs q"
  by (simp add: seqs_def record_frame_def)

lemma seqs_ack: "seqs (ack_through a q) = filter (\<lambda>s. a < s) (seqs q)"
  by (simp add: seqs_def ack_through_def filter_map o_def)


text \<open>Assigning numbers moves samples from the head of \<open>staging\<close> to the tail of \<open>inflight\<close>.\<close>

fun number_points :: "u64 \<Rightarrow> lat_lng list \<Rightarrow> queued_point list" where
  "number_points s [] = []"
| "number_points s (p # ps) = \<lparr>q_seq = s + 1, q_point = p, q_sent = False\<rparr> # number_points (s + 1) ps"

lemma number_points_facts [simp]:
  "map q_point (number_points s ps) = ps" "length (number_points s ps) = length ps"
  by (induction ps arbitrary: s) simp_all

lemma number_points_unsent: "p \<in> set (number_points s ps) \<Longrightarrow> \<not> q_sent p"
  by (induction ps arbitrary: s) auto

lemma assign_loop_eq:
  "n \<le> length (staging q) \<Longrightarrow>
   assign_loop n s q = (number_points s (take n (staging q)),
     q\<lparr>staging := drop n (staging q), inflight := inflight q @ number_points s (take n (staging q))\<rparr>)"
proof (induction n arbitrary: s q)
  case (Suc n)
  then obtain p ps where st: "staging q = p # ps" by (cases "staging q") simp_all
  with Suc show ?case by (simp add: Let_def)
qed simp

lemma assign_from_staging_eq:
  "assign_from_staging n s q = (number_points s (take n (staging q)),
     q\<lparr>staging := drop n (staging q), inflight := inflight q @ number_points s (take n (staging q))\<rparr>)"
proof -
  have "take (min n (length (staging q))) (staging q) = take n (staging q)"
    and "drop (min n (length (staging q))) (staging q) = drop n (staging q)"
    by (simp_all add: min_def)
  then show ?thesis by (simp add: assign_from_staging_def assign_loop_eq)
qed

lemma unat_suc_u64: "unat (s :: u64) + 1 < 2 ^ 64 \<Longrightarrow> unat (s + 1) = Suc (unat s)"
  by (simp add: unat_word_ariths)

lemma number_points_consecutive:
  "unat s + length ps < 2 ^ 64 \<Longrightarrow>
   consecutive (map q_seq (number_points s ps)) \<and>
   (ps \<noteq> [] \<longrightarrow> hd (map q_seq (number_points s ps)) = s + 1 \<and>
                last (map q_seq (number_points s ps)) = s + of_nat (length ps))"
proof (induction ps arbitrary: s)
  case (Cons p ps)
  have u: "unat (s + 1) = Suc (unat s)" using Cons.prems by (intro unat_suc_u64) simp
  with Cons.prems have "unat (s + 1) + length ps < 2 ^ 64" by simp
  note IH = Cons.IH [OF this]
  have "ps \<noteq> [] \<Longrightarrow> unat (s + 1 + 1) = Suc (unat (s + 1))"
    using Cons.prems u by (intro unat_suc_u64) (cases ps; simp)
  with IH show ?case by (cases ps) (auto simp: consecutive_Cons algebra_simps)
qed simp

lemma consecutive_append:
  "consecutive xs \<Longrightarrow> consecutive ys \<Longrightarrow>
   (xs \<noteq> [] \<Longrightarrow> ys \<noteq> [] \<Longrightarrow> unat (hd ys) = Suc (unat (last xs))) \<Longrightarrow> consecutive (xs @ ys)"
proof (induction xs)
  case (Cons x xs)
  then show ?case by (cases xs) (auto simp: consecutive_Cons)
qed simp

text \<open>
  The numbering invariant: the in-flight numbers are consecutive and end at the last number
  given out.
\<close>

definition numbered :: "u64 \<Rightarrow> offline_queue \<Rightarrow> bool" where
  "numbered s q \<longleftrightarrow> consecutive (seqs q) \<and> (seqs q \<noteq> [] \<longrightarrow> last (seqs q) = s)"

lemma numbered_drop: "numbered s q \<Longrightarrow> seqs q' = drop k (seqs q) \<Longrightarrow> numbered s q'"
  by (auto simp: numbered_def consecutive_drop)

lemma numbered_same: "seqs q' = seqs q \<Longrightarrow> numbered s q' \<longleftrightarrow> numbered s q"
  by (simp add: numbered_def)

lemma numbered_push_staging: "numbered s q \<Longrightarrow> numbered s (push_staging L p q)"
  using seqs_enforce_cap [of L "q\<lparr>staging := staging q @ [p]\<rparr>"]
  by (auto simp: push_staging_def seqs_def intro: numbered_drop [of s q, unfolded seqs_def, simplified])

lemma numbered_ack: "numbered s q \<Longrightarrow> numbered s (ack_through a q)"
  using consecutive_filter [of "seqs q" a] numbered_drop [of s q "ack_through a q"]
  by (auto simp: numbered_def seqs_ack)

lemma numbered_assign:
  assumes "numbered s q" and "unat s + n < 2 ^ 64" and "assign_from_staging n s q = (out, q')"
  shows "numbered (s + of_nat (length out)) q'"
proof -
  let ?ps = "take n (staging q)"
  have out: "out = number_points s ?ps" and q': "seqs q' = seqs q @ map q_seq (number_points s ?ps)"
    using assms(3) by (auto simp: assign_from_staging_eq seqs_def)
  have lt: "unat s + length ?ps < 2 ^ 64" using assms(2) by simp
  note np = number_points_consecutive [OF lt]
  have u: "?ps \<noteq> [] \<Longrightarrow> unat (s + 1) = Suc (unat s)"
    using lt by (intro unat_suc_u64) (cases ?ps; simp)
  have ne: "map q_seq (number_points s ?ps) = [] \<longleftrightarrow> ?ps = []"
    by (metis length_0_conv length_map number_points_facts(2))
  have "consecutive (seqs q')"
    unfolding q' using assms(1) np u ne by (intro consecutive_append) (auto simp: numbered_def)
  moreover have "seqs q' \<noteq> [] \<Longrightarrow> last (seqs q') = s + of_nat (length out)"
    using assms(1) np ne unfolding q' out by (cases "?ps = []") (auto simp: numbered_def last_append)
  ultimately show ?thesis by (simp add: numbered_def)
qed

lemma numbered_push_inflight:
  assumes "numbered s q" and "unat s + 1 < 2 ^ 64"
  shows "numbered (s + 1) (push_inflight_unsent L (s + 1) p q)"
proof -
  let ?q = "q\<lparr>inflight := inflight q @ [\<lparr>q_seq = s + 1, q_point = p, q_sent = False\<rparr>]\<rparr>"
  have "seqs ?q = seqs q @ [s + 1]" by (simp add: seqs_def)
  then have "numbered (s + 1) ?q"
    using assms unat_suc_u64 [of s] by (auto simp: numbered_def intro!: consecutive_snoc)
  then show ?thesis
    using seqs_enforce_cap [of L ?q] numbered_drop by (auto simp: push_inflight_unsent_def)
qed

lemma numbered_clear: "numbered s (queue_clear q)"
  by (simp add: numbered_def seqs_def queue_clear_def)

section \<open>What an Ack removes\<close>

lemma ack_mem: "p \<in> set (inflight (ack_through a q)) \<longleftrightarrow> p \<in> set (inflight q) \<and> a < q_seq p"
  by (auto simp: ack_through_def)

lemma ack_staging [simp, queue_simps]: "staging (ack_through a q) = staging q" "max_size (ack_through a q) = max_size q"
  by (simp_all add: ack_through_def)

lemma ack_size: "queue_size (ack_through a q) \<le> queue_size q"
  by (simp add: queue_size_def ack_through_def)

lemma ack_window: "length (sent_frame_seqs (ack_through a q)) \<le> length (sent_frame_seqs q)"
  by (simp add: ack_through_def)

lemma queue_fields [simp, queue_simps]:
  "staging (mark_unsent q) = staging q" "max_size (mark_unsent q) = max_size q"
  "queue_size (mark_unsent q) = queue_size q" "sent_frame_seqs (mark_unsent q) = []"
  "staging (record_frame s q) = staging q" "max_size (record_frame s q) = max_size q"
  "queue_size (record_frame s q) = queue_size q"
  "sent_frame_seqs (record_frame s q) = sent_frame_seqs q @ [s]"
  by (simp_all add: mark_unsent_def record_frame_def queue_size_def)

lemma unsent_mark_unsent: "map q_seq (unsent_inflight (mark_unsent q)) = seqs q"
  "length (unsent_inflight (mark_unsent q)) = length (inflight q)"
  by (simp_all add: unsent_inflight_def mark_unsent_def seqs_def filter_map o_def)

lemma consecutive_sorted: "consecutive xs \<Longrightarrow> sorted_wrt (<) xs"
proof (induction xs)
  case (Cons x xs)
  then show ?case using consecutive_less [of x xs] by (auto simp: consecutive_Cons)
qed simp

section \<open>The samples in order\<close>

text \<open>The samples of the queue, oldest first: numbered ones, then those waiting for a number.\<close>

definition points_of :: "offline_queue \<Rightarrow> lat_lng list" where
  "points_of q = map q_point (inflight q) @ staging q"

lemma points_record [simp]: "points_of (record_frame f q) = points_of q"
  by (simp add: points_of_def record_frame_def o_def if_distrib)

end
