(* ===== verification/Backoff.thy ===== *)
theory Backoff
  imports Float64_Laws
begin

text \<open>
  Reconnect delays (\<^verbatim>\<open>src/tracking/backoff.rs\<close>): full-jitter exponential backoff.
  A \<^verbatim>\<open>Duration\<close> is its number of nanoseconds; the random number is an argument, as
  in the code. The laws: whatever the random number (out of range, NaN), the delay lies
  under the configured maximum and under the exponential window of the attempt; the number
  of attempts is bounded; a reset starts over.
\<close>

section \<open>Definitions\<close>

type_synonym duration = nat

definition from_millis :: "nat \<Rightarrow> duration" where "from_millis ms = ms * 1000000"
definition as_millis :: "duration \<Rightarrow> nat" where "as_millis d = d div 1000000"

record backoff_state =
  attempt :: u32
  min_delay :: duration
  max_delay :: duration
  max_attempts :: u32

definition new_backoff :: "duration \<Rightarrow> duration \<Rightarrow> u32 \<Rightarrow> backoff_state" where
  "new_backoff lo hi n =
     \<lparr>attempt = 0, min_delay = (if lo = 0 then from_millis 500 else lo),
      max_delay = (if hi = 0 then from_millis 30000 else hi), max_attempts = n\<rparr>"

text \<open>\<^verbatim>\<open>2f64.powi(k)\<close>, an exact power of two or, above the range, infinity.\<close>

definition f64_powi2 :: "i32 \<Rightarrow> f64" where
  "f64_powi2 k = f64_encode False (pow2 (sint k))"

definition backoff_exp :: "backoff_state \<Rightarrow> f64" where
  "backoff_exp s =
     (let min_ms = f64_of_int (int (as_millis (min_delay s)));
          max_ms = f64_of_int (int (as_millis (max_delay s)));
          ex = f64_mul min_ms (f64_powi2 (ucast (attempt s)))
      in if f64_gt ex max_ms then max_ms else ex)"

definition next_delay :: "f64 \<Rightarrow> backoff_state \<Rightarrow> duration option \<times> backoff_state" where
  "next_delay random s =
     (if 0 < max_attempts s \<and> max_attempts s \<le> attempt s then (None, s)
      else let ex = backoff_exp s;
               r = f64_clamp random (f64_of_int 0) (f64_of_int 1)
           in (Some (from_millis (unat (f64_to_u64 (f64_floor (f64_mul r ex))))),
               s\<lparr>attempt := attempt s + 1\<rparr>))"

definition reset_backoff :: "backoff_state \<Rightarrow> backoff_state" where
  "reset_backoff s = s\<lparr>attempt := 0\<rparr>"

section \<open>Signs\<close>

lemma div_two52_less: "b < 2047 * two52 \<Longrightarrow> b div two52 < 2047"
proof -
  assume "b < 2047 * two52"
  moreover have "two52 * (b div two52) + b mod two52 = b" by simp
  moreover have "0 \<le> b mod two52" by simp
  ultimately show ?thesis by linarith
qed

text \<open>No negative number and no negative infinity.\<close>

definition f64_nonneg :: "f64 \<Rightarrow> bool" where
  "f64_nonneg a = (case f64_value a of NaN \<Rightarrow> True | Infinite s \<Rightarrow> \<not> s | Finite s x \<Rightarrow> \<not> s \<and> 0 \<le> x)"

lemma encode_nonneg: "0 \<le> x \<Longrightarrow> f64_nonneg (f64_encode False x)"
proof -
  assume x: "0 \<le> x"
  let ?b = "if x = 0 then 0 else (lsb_exp x + 1074) * two52 + f64_mant x"
  have "0 \<le> ?b"
    using lsb_exp_ge [of x] f64_mant_bounds [of x] x by auto
  show ?thesis
  proof (cases "inf_bits \<le> ?b")
    case True
    then have "f64_encode False x = f64_inf False" by (simp only: f64_encode_def Let_def if_True)
    then show ?thesis by (simp add: f64_nonneg_def f64_inf_def f64_value_def Let_def)
  next
    case False
    then have e: "f64_encode False x = F64 (word_of_int ?b)"
      by (simp only: f64_encode_def Let_def if_False add_0)
    have u: "uint (word_of_int ?b :: u64) = ?b"
      using \<open>0 \<le> ?b\<close> False by (intro uint_word_of_int_u64) linarith+
    have "\<exists>y \<ge> 0. f64_value (F64 (word_of_int ?b)) = Finite False y"
    proof -
      have lt: "?b < 2047 * two52" using False by simp
      have "?b div two52 < 2047" using lt by (rule div_two52_less)
      moreover have "0 \<le> ?b div two52" by (rule div_int_pos_iff [THEN iffD2]) (use \<open>0 \<le> ?b\<close> in simp)
      ultimately have "?b div two52 mod 2048 \<noteq> 2047" by (simp only: mod_pos_pos_trivial)
      moreover have "\<not> two63 \<le> ?b" using False by linarith
      moreover have "0 \<le> ?b mod two52" by (rule pos_mod_sign) simp
      ultimately show ?thesis
        unfolding f64_value_def Let_def f64.sel u by (simp del: mod_mod_trivial)
    qed
    then show ?thesis by (auto simp: f64_nonneg_def e)
  qed
qed

lemma of_val_nonneg: "0 \<le> x \<Longrightarrow> f64_nonneg (f64_of_val (Finite False x))"
  by (simp add: f64_of_val_def encode_nonneg)

lemma special_nonneg: "f64_nonneg (f64_of_val NaN)" "f64_nonneg (f64_of_val (Infinite False))"
  by (simp_all add: f64_of_val_def f64_nonneg_def f64_nan_def f64_inf_def f64_value_def Let_def)

lemma mul_nonneg: "f64_nonneg a \<Longrightarrow> f64_nonneg b \<Longrightarrow> f64_nonneg (f64_mul a b)"
  unfolding f64_mul_def f64_nonneg_def [of a] f64_nonneg_def [of b]
  by (auto simp: of_val_nonneg special_nonneg split: fval.splits)

lemma of_int_nonneg: "0 \<le> i \<Longrightarrow> f64_nonneg (f64_of_int i)"
  by (simp add: f64_of_int_def encode_nonneg)

lemma clamp_nonpos: "0 \<le> hi \<Longrightarrow> x \<le> 0 \<Longrightarrow> clamp_int 0 hi x = 0"
  by (simp add: clamp_int_def)

section \<open>The jittered delay\<close>

text \<open>A factor of at most one, rounded, does not lead above a representable bound.\<close>

lemma jitter_bound:
  assumes r: "f64_value r = NaN \<or> (\<exists>s y. f64_value r = Finite s y \<and> 0 \<le> y \<and> y \<le> 1)"
    and e: "f64_value e = NaN \<or> (\<exists>x. f64_value e = Finite False x \<and> 0 \<le> x \<and> x \<le> b)"
    and b: "f64_repr b" "b \<le> pow2 1000"
    and hi: "0 \<le> hi"
  shows "of_int (f64_to_int 0 hi (f64_floor (f64_mul r e))) \<le> b"
proof (cases "f64_value r = NaN \<or> f64_value e = NaN")
  case True
  then have "f64_mul r e = f64_nan" by (auto simp: f64_mul_def f64_of_val_def split: fval.splits)
  moreover have "f64_to_int 0 hi (f64_floor f64_nan) = 0"
    by (simp add: f64_to_int_def f64_floor_def f64_nan_def f64_value_def Let_def)
  ultimately show ?thesis using f64_repr_nonneg [OF b(1)] by simp
next
  case False
  with r e obtain s y x where r: "f64_value r = Finite s y" "0 \<le> y" "y \<le> 1"
    and e: "f64_value e = Finite False x" "0 \<le> x" "x \<le> b" by auto
  have xy: "0 \<le> y * x" "y * x \<le> b"
    using r e mult_mono [of y 1 x b] by simp_all
  have big: "b < pow2 1023"
    using b(2) by (rule le_less_trans) simp
  let ?z = "f64_rnd (y * x)"
  have mul: "f64_value (f64_mul r e) = Finite s ?z"
    using r e xy big by (simp add: f64_mul_def f64_of_val_def value_encode)
  have z: "0 \<le> ?z" "?z \<le> b"
    using xy b f64_rnd_nonneg f64_rnd_le_repr by auto
  have fl: "(0 :: rat) \<le> of_int \<lfloor>?z\<rfloor>" "of_int \<lfloor>?z\<rfloor> \<le> b" using z by (simp_all, linarith)
  show ?thesis
  proof (cases s)
    case False
    let ?w = "f64_rnd (of_int \<lfloor>?z\<rfloor>)"
    have "f64_value (f64_floor (f64_mul r e)) = Finite False ?w"
      using False fl big by (simp add: f64_floor_def mul value_encode)
    moreover have "?w \<le> b" "0 \<le> ?w"
      using b fl f64_rnd_le_repr f64_rnd_nonneg by auto
    ultimately show ?thesis using fl b by (auto simp: f64_to_int_def clamp_int_def) linarith+
  next
    case True
    have c: "(0 :: rat) \<le> of_int \<lceil>?z\<rceil>" "of_int \<lceil>?z\<rceil> < pow2 1023"
    proof -
      show "(0 :: rat) \<le> of_int \<lceil>?z\<rceil>" using z by simp
      have "pow2 0 \<le> pow2 1000" by (simp only: pow2_le_iff)
      then have one: "1 \<le> pow2 1000" by (simp only: pow2_0)
      have "pow2 1001 = pow2 1000 * pow2 1" using pow2_add [of 1000 1] by simp
      also have "\<dots> = pow2 1000 + pow2 1000" using pow2_of_nat [of 1] by simp
      finally have dbl: "pow2 1001 = pow2 1000 + pow2 1000" .
      have "of_int \<lceil>?z\<rceil> < ?z + 1" by linarith
      also have "\<dots> \<le> pow2 1001" unfolding dbl using z b(2) one by linarith
      also have "\<dots> < pow2 1023" by simp
      finally show "of_int \<lceil>?z\<rceil> < pow2 1023" .
    qed
    have "0 \<le> \<lfloor>f64_rnd (of_int \<lceil>?z\<rceil>)\<rfloor>" using f64_rnd_nonneg [OF c(1)] by simp
    moreover have "f64_value (f64_floor (f64_mul r e)) = Finite True (f64_rnd (of_int \<lceil>?z\<rceil>))"
      using True c by (simp add: f64_floor_def mul value_encode)
    ultimately show ?thesis using f64_repr_nonneg [OF b(1)] hi
      by (simp only: f64_to_int_def fval.case if_True clamp_nonpos neg_le_0_iff_le of_int_0)
  qed
qed


lemma clamped_random:
  "f64_value (f64_clamp r (f64_of_int 0) (f64_of_int 1)) = NaN \<or>
   (\<exists>s y. f64_value (f64_clamp r (f64_of_int 0) (f64_of_int 1)) = Finite s y \<and> 0 \<le> y \<and> y \<le> 1)"
proof -
  have c: "f64_value (f64_of_int 0) = Finite False 0" "f64_value (f64_of_int 1) = Finite False 1"
    by (simp_all add: value_of_int)
  have nn: "0 \<le> x" if "f64_value r = Finite s x" for s x
    using that by (auto simp: f64_value_def Let_def split: if_splits)
  show ?thesis
  proof (cases "f64_value r")
    case (Finite s x)
    with nn [OF Finite] c show ?thesis
      by (auto simp: f64_clamp_def f64_lt_def signed_def split: if_splits)
  qed (auto simp: f64_clamp_def f64_lt_def c)
qed

lemma le_of_not_gt:
  assumes "f64_value M = Finite False m" and "f64_nonneg a" and "0 \<le> m"
  shows "f64_value (if f64_gt a M then M else a) = NaN \<or>
    (\<exists>x. f64_value (if f64_gt a M then M else a) = Finite False x \<and> 0 \<le> x \<and> x \<le> m)"
  using assms by (auto simp: f64_nonneg_def f64_lt_def signed_def split: fval.splits)

lemma unat_f64_to_u64: "unat (f64_to_u64 v) = nat (f64_to_int 0 18446744073709551615 v)"
proof -
  have "0 \<le> f64_to_int 0 18446744073709551615 v \<and> f64_to_int 0 18446744073709551615 v \<le> 18446744073709551615"
    by (auto simp: f64_to_int_def clamp_int_def split: fval.splits)
  then show ?thesis by (simp add: f64_to_u64_def unat_eq_nat_uint uint_word_of_int_u64)
qed

lemma exp_nonneg: "f64_nonneg (f64_mul (f64_of_int (int n)) (f64_powi2 k))"
  by (intro mul_nonneg of_int_nonneg) (simp_all add: f64_powi2_def encode_nonneg)

lemma delay_le:
  assumes e: "f64_value (backoff_exp s) = NaN \<or> (\<exists>x. f64_value (backoff_exp s) = Finite False x \<and> 0 \<le> x \<and> x \<le> of_nat b)"
    and b: "f64_repr (of_nat b)" "of_nat b \<le> pow2 1000"
    and nd: "next_delay r s = (Some d, s')"
  shows "d \<le> from_millis b"
proof -
  let ?v = "f64_floor (f64_mul (f64_clamp r (f64_of_int 0) (f64_of_int 1)) (backoff_exp s))"
  have d: "d = from_millis (unat (f64_to_u64 ?v))"
    using nd by (auto simp: next_delay_def Let_def split: if_splits)
  have "of_int (f64_to_int 0 18446744073709551615 ?v) \<le> (of_nat b :: rat)"
    by (intro jitter_bound clamped_random e b) simp
  then have "f64_to_int 0 18446744073709551615 ?v \<le> int b" by (simp only: of_int_of_nat_eq flip: of_int_le_iff [where 'a = rat])
  then show ?thesis by (simp add: d unat_f64_to_u64 from_millis_def nat_le_iff)
qed

lemma of_nat_le_pow2: "n \<le> 2 ^ k \<Longrightarrow> of_nat n \<le> pow2 (int k)"
proof -
  assume "n \<le> 2 ^ k"
  then have "(of_nat n :: rat) \<le> of_nat (2 ^ k)" by (simp only: of_nat_le_iff)
  then show ?thesis by (simp only: pow2_of_nat of_nat_power of_nat_numeral)
qed

lemma delay_le_max:
  assumes "as_millis (max_delay s) \<le> 2 ^ 53" and "next_delay r s = (Some d, s')"
  shows "d \<le> from_millis (as_millis (max_delay s))"
proof (rule delay_le [OF _ _ _ assms(2)])
  let ?n = "as_millis (max_delay s)"
  have "int ?n \<le> int (2 ^ 53)" using assms(1) by (simp only: of_nat_le_iff)
  then have i: "\<bar>int ?n\<bar> \<le> 2 ^ 53" by simp
  then have v: "f64_value (f64_of_int (int ?n)) = Finite False (of_nat ?n)"
    by (simp add: value_of_int)
  show "f64_value (backoff_exp s) = NaN \<or> (\<exists>x. f64_value (backoff_exp s) = Finite False x \<and> 0 \<le> x \<and> x \<le> of_nat ?n)"
    using le_of_not_gt [OF v exp_nonneg] by (simp add: backoff_exp_def Let_def)
  show "f64_repr (of_nat ?n)" using f64_repr_of_int [of "int ?n"] i by simp
  have "of_nat ?n \<le> pow2 53" using of_nat_le_pow2 [OF assms(1)] by simp
  then show "of_nat ?n \<le> pow2 1000" by (rule order_trans) simp
qed

lemma le_of_min:
  assumes "f64_value a = Finite False x" and "f64_nonneg M" and "0 \<le> x"
  shows "f64_value (if f64_gt a M then M else a) = NaN \<or>
    (\<exists>y. f64_value (if f64_gt a M then M else a) = Finite False y \<and> 0 \<le> y \<and> y \<le> x)"
  using assms by (auto simp: f64_nonneg_def f64_lt_def signed_def split: fval.splits)

text \<open>The window of attempt \<open>j\<close> is exact: a product of an integer and a power of two.\<close>

lemma repr_shift: "0 \<le> m \<Longrightarrow> m \<le> 2 ^ 53 \<Longrightarrow> j \<le> 900 \<Longrightarrow> f64_repr (of_int m * pow2 (int j))"
  unfolding f64_repr_def by (rule exI [of _ m], rule exI [of _ "int j"]) simp

lemma window_value:
  assumes n: "n \<le> 2 ^ 53" and j: "j \<le> 900"
  shows "f64_value (f64_mul (f64_of_int (int n)) (f64_encode False (pow2 (int j)))) =
      Finite False (of_nat (n * 2 ^ j))"
    and "f64_repr (of_nat (n * 2 ^ j))" and "of_nat (n * 2 ^ j) \<le> pow2 1000"
proof -
  have "int n \<le> int (2 ^ 53)" using n by (simp only: of_nat_le_iff)
  then have i: "\<bar>int n\<bar> \<le> 2 ^ 53" by simp
  have n2: "(of_nat (n * 2 ^ j) :: rat) = of_nat n * pow2 (int j)"
    by (simp only: of_nat_mult of_nat_power of_nat_numeral pow2_of_nat)
  have v: "f64_value (f64_of_int (int n)) = Finite False (of_nat n)"
    using i by (simp add: value_of_int)
  have w: "f64_value (f64_encode False (pow2 (int j))) = Finite False (pow2 (int j))"
    using j repr_shift [of 1 j] by (simp add: value_encode f64_rnd_repr)
  have r: "f64_repr (of_nat n * pow2 (int j))" using repr_shift [of "int n" j] i j by simp
  have "of_nat n * pow2 (int j) \<le> pow2 53 * pow2 900"
    using j of_nat_le_pow2 [OF n] by (intro mult_mono) simp_all
  also have "\<dots> = pow2 953" using pow2_add [of 53 900] by simp
  finally have le: "of_nat n * pow2 (int j) \<le> pow2 953" .
  have b: "of_nat n * pow2 (int j) < pow2 1023" using le by (rule le_less_trans) simp
  show "f64_value (f64_mul (f64_of_int (int n)) (f64_encode False (pow2 (int j)))) =
      Finite False (of_nat (n * 2 ^ j))"
    unfolding n2 using b r by (simp add: f64_mul_def v w f64_of_val_def value_encode f64_rnd_repr)
  show "f64_repr (of_nat (n * 2 ^ j))" unfolding n2 by (rule r)
  show "of_nat (n * 2 ^ j) \<le> pow2 1000" unfolding n2 using le by (rule order_trans) simp
qed

lemma delay_le_window:
  assumes lo: "as_millis (min_delay s) \<le> 2 ^ 53" and a: "unat (attempt s) \<le> 900"
    and nd: "next_delay r s = (Some d, s')"
  shows "d \<le> from_millis (as_millis (min_delay s) * 2 ^ unat (attempt s))"
proof (rule delay_le [OF _ _ _ nd])
  let ?n = "as_millis (min_delay s)" and ?a = "unat (attempt s)"
  have "uint (attempt s) \<le> 900" unfolding uint_nat using a by linarith
  then have "sint (word_of_int (uint (attempt s)) :: i32) = uint (attempt s)"
    using uint_ge_0 [of "attempt s"] by (intro sint_i32_of_int) linarith+
  then have "sint (attempt s) = uint (attempt s)" by (simp only: word_of_int_uint)
  then have k: "f64_powi2 (ucast (attempt s)) = f64_encode False (pow2 (int ?a))"
    by (simp only: f64_powi2_def ucast_id uint_nat)
  note window = window_value [OF lo a]
  show "f64_value (backoff_exp s) = NaN \<or> (\<exists>x. f64_value (backoff_exp s) = Finite False x \<and> 0 \<le> x \<and>
      x \<le> of_nat (?n * 2 ^ ?a))"
    using le_of_min [OF window(1) of_int_nonneg [of "int (as_millis (max_delay s))"] of_nat_0_le_iff]
    by (simp only: backoff_exp_def Let_def k)
  show "f64_repr (of_nat (?n * 2 ^ ?a))" "of_nat (?n * 2 ^ ?a) \<le> pow2 1000"
    by (rule window(2), rule window(3))
qed

section \<open>The number of attempts\<close>

lemma next_delay_step:
  "next_delay r s = (out, s') \<Longrightarrow>
   (if 0 < max_attempts s \<and> max_attempts s \<le> attempt s then out = None \<and> s' = s
    else out \<noteq> None \<and> s' = s\<lparr>attempt := attempt s + 1\<rparr>)"
  by (auto simp: next_delay_def Let_def split: if_splits)

text \<open>The delays granted for a list of random numbers, up to the first refusal.\<close>

fun granted :: "f64 list \<Rightarrow> backoff_state \<Rightarrow> duration list" where
  "granted [] s = []"
| "granted (r # rs) s =
     (case next_delay r s of (None, s) \<Rightarrow> [] | (Some d, s) \<Rightarrow> d # granted rs s)"

lemma length_granted:
  "0 < max_attempts s \<Longrightarrow> attempt s \<le> max_attempts s \<Longrightarrow>
   length (granted rs s) = min (length rs) (unat (max_attempts s) - unat (attempt s))"
proof (induction rs arbitrary: s)
  case (Cons r rs)
  obtain out s' where nd: "next_delay r s = (out, s')" by fastforce
  note step = next_delay_step [OF nd]
  show ?case
  proof (cases "max_attempts s \<le> attempt s")
    case True
    with step Cons.prems have "out = None" by simp
    with True Cons.prems show ?thesis by (simp add: nd word_le_nat_alt)
  next
    case False
    then have lt: "unat (attempt s) < unat (max_attempts s)" by (simp add: word_le_nat_alt)
    then have u: "unat (attempt s + 1) = Suc (unat (attempt s))"
      using unsigned_less [of "max_attempts s", where 'a = nat] by (simp add: unat_word_ariths)
    from step False obtain d where "out = Some d" and s': "s' = s\<lparr>attempt := attempt s + 1\<rparr>" by auto
    moreover have "attempt s' \<le> max_attempts s'" using u lt by (simp add: s' word_le_nat_alt)
    ultimately show ?thesis using Cons.IH [of s'] Cons.prems lt u by (simp add: nd)
  qed
qed simp

end
