(* ===== verification/Rate.thy ===== *)
theory Rate
  imports Backoff
begin

text \<open>
  The publish gate (\<^verbatim>\<open>src/tracking/rate.rs\<close>): at most \<open>MAX_PUBLISH_HZ\<close> samples
  a second pass. An \<^verbatim>\<open>Instant\<close> is the number of nanoseconds since some origin.
  \<open>spaced\<close> instants and how many of them fit into an interval; that the client's calls are so
  spaced is \<open>Session_Rate\<close>.
\<close>

type_synonym instant = nat

definition MAX_PUBLISH_HZ :: nat where "MAX_PUBLISH_HZ = 50"
definition MIN_PUBLISH_INTERVAL :: duration where
  "MIN_PUBLISH_INTERVAL = from_millis (1000 div MAX_PUBLISH_HZ)"
definition MIN_PUBLISH_INTERVAL_MS :: nat where
  "MIN_PUBLISH_INTERVAL_MS = 1000 div MAX_PUBLISH_HZ"

definition can_accept_publish :: "instant \<Rightarrow> instant \<Rightarrow> int \<Rightarrow> bool" where
  "can_accept_publish next_allowed_at now point_count =
     (if point_count \<le> 0 then True else next_allowed_at \<le> now)"

definition next_publish_allowed_at :: "instant \<Rightarrow> instant \<Rightarrow> int \<Rightarrow> instant" where
  "next_publish_allowed_at next_allowed_at now point_count =
     (let start = (if next_allowed_at > now then next_allowed_at else now);
          count = nat (max point_count 0)
      in start + MIN_PUBLISH_INTERVAL * count)"

lemma interval_value: "MIN_PUBLISH_INTERVAL = 20000000"
  by (simp add: MIN_PUBLISH_INTERVAL_def from_millis_def MAX_PUBLISH_HZ_def)

text \<open>Instants at least \<open>d\<close> apart, each before all later ones.\<close>

fun spaced :: "nat \<Rightarrow> nat list \<Rightarrow> bool" where
  "spaced d [] = True"
| "spaced d (t # ts) = (list_all (\<lambda>u. t + d \<le> u) ts \<and> spaced d ts)"

text \<open>Spaced instants in an interval: their number is bounded by its length.\<close>

lemma spaced_count:
  "spaced d ts \<Longrightarrow> 0 < d \<Longrightarrow> (\<forall>t \<in> set ts. lo \<le> t \<and> t < hi) \<Longrightarrow> ts \<noteq> [] \<Longrightarrow>
   lo + (length ts - 1) * d < hi"
proof (induction ts arbitrary: lo)
  case (Cons t ts)
  show ?case
  proof (cases "ts = []")
    case True
    with Cons.prems show ?thesis by auto
  next
    case False
    with Cons.prems have "t + d + (length ts - 1) * d < hi"
      by (intro Cons.IH) (auto simp: list_all_iff)
    moreover have "length ts * d = d + (length ts - 1) * d"
      using False by (cases ts) simp_all
    ultimately show ?thesis using Cons.prems(3) by simp
  qed
qed simp

end
