(* ===== verification/Ws_Url.thy ===== *)
theory Ws_Url
  imports Rate Tracking_Types "HOL-Library.Sublist"
begin

text \<open>
  The client's configuration (the public types of \<^verbatim>\<open>src/tracking/client.rs\<close>) and the
  WebSocket address built from it (\<^verbatim>\<open>src/tracking/url.rs\<close>). The \<^verbatim>\<open>url\<close>
  crate is the parameter \<open>url_crate\<close>; what the code relies on is \<open>url_laws\<close>. The laws: only
  ws and wss addresses are built, an encrypted endpoint stays encrypted, and the query
  carries the credentials of exactly one role.
\<close>

section \<open>Configuration\<close>

definition MAX_EVENT_BYTES :: nat where "MAX_EVENT_BYTES = 4 * 1024"
definition MAX_EVENT_HZ :: nat where "MAX_EVENT_HZ = 1"
definition MIN_EVENT_INTERVAL :: duration where "MIN_EVENT_INTERVAL = from_millis 1000"
definition SUBPROTOCOL :: string where "SUBPROTOCOL = ''tracking.v2''"
definition DEFAULT_WS_PATH :: string where "DEFAULT_WS_PATH = ''/v2/ws''"

datatype connection_state = Connecting | Open | Reconnecting | Closed

fun connection_state_as_str :: "connection_state \<Rightarrow> string" where
  "connection_state_as_str Connecting = ''connecting''"
| "connection_state_as_str Open = ''open''"
| "connection_state_as_str Reconnecting = ''reconnecting''"
| "connection_state_as_str Closed = ''closed''"

record device_auth =
  client_id :: string
  client_secret :: string

record listener_auth =
  access_token :: string

text \<open>
  The transport has one value and is left out. \<open>refresh_auth\<close> says whether the callback is
  set; what it returns is an argument of the handler that calls it.
\<close>

record config =
  endpoint :: string
  device :: "device_auth option"
  listener :: "listener_auth option"
  ws_path :: string
  disable_reconnect :: bool
  reconnect_min_delay :: duration
  reconnect_max_delay :: duration
  reconnect_max_attempts :: u32
  refresh_auth :: bool
  max_queue_size :: nat
  hello_timeout :: duration
  subscribe_uids :: "string list"

definition config_default :: config where
  "config_default = \<lparr>endpoint = [], device = None, listener = None, ws_path = [],
     disable_reconnect = False, reconnect_min_delay = 0, reconnect_max_delay = 0,
     reconnect_max_attempts = 0, refresh_auth = False, max_queue_size = 10000,
     hello_timeout = from_millis 10000, subscribe_uids = []\<rparr>"

section \<open>Text\<close>

text \<open>\<^verbatim>\<open>str::trim\<close>: the length of the white-space character that starts a UTF-8 text, or 0.\<close>

definition white_len :: "nat list \<Rightarrow> nat" where
  "white_len s = (case s of
       [] \<Rightarrow> 0
     | a # s1 \<Rightarrow>
        if (9 \<le> a \<and> a \<le> 13) \<or> a = 32 then 1
        else case s1 of [] \<Rightarrow> 0
        | b # s2 \<Rightarrow>
           if a = 0xC2 \<and> (b = 0x85 \<or> b = 0xA0) then 2
           else case s2 of [] \<Rightarrow> 0
           | c # s3 \<Rightarrow>
              if (a = 0xE1 \<and> b = 0x9A \<and> c = 0x80) \<or>
                 (a = 0xE2 \<and> b = 0x80 \<and> (0x80 \<le> c \<and> c \<le> 0x8A \<or> c = 0xA8 \<or> c = 0xA9 \<or> c = 0xAF)) \<or>
                 (a = 0xE2 \<and> b = 0x81 \<and> c = 0x9F) \<or> (a = 0xE3 \<and> b = 0x80 \<and> c = 0x80)
              then 3 else 0)"

function trim_front :: "nat list \<Rightarrow> nat list" where
  "trim_front s = (if white_len s = 0 \<or> s = [] then s else trim_front (drop (white_len s) s))"
  by pat_completeness auto
termination
  by (relation "measure length") auto

text \<open>The white-space character that ends a text.\<close>

definition white_len_end :: "nat list \<Rightarrow> nat" where
  "white_len_end s =
     (let ends = (\<lambda>k. k \<le> length s \<and> white_len (drop (length s - k) s) = k)
      in if ends 1 then 1 else if ends 2 then 2 else if ends 3 then 3 else 0)"

function trim_back :: "nat list \<Rightarrow> nat list" where
  "trim_back s =
     (if white_len_end s = 0 \<or> s = [] then s else trim_back (take (length s - white_len_end s) s))"
  by pat_completeness auto
termination
  by (relation "measure length") auto

declare trim_front.simps [simp del] trim_back.simps [simp del]

definition trim :: "string \<Rightarrow> string" where
  "trim s = map char_of (trim_back (trim_front (map of_char s)))"

definition contains :: "string \<Rightarrow> string \<Rightarrow> bool" where
  "contains s pat \<longleftrightarrow> sublist pat s"

section \<open>build\_ws\_url\<close>

record 'u url_crate =
  url_parse :: "string \<Rightarrow> string + 'u"
  url_scheme :: "'u \<Rightarrow> string"
  url_set_scheme :: "string \<Rightarrow> 'u \<Rightarrow> 'u option"
  url_set_path :: "string \<Rightarrow> 'u \<Rightarrow> 'u"
  url_append_pairs :: "(string \<times> string) list \<Rightarrow> 'u \<Rightarrow> 'u"
  url_pairs :: "'u \<Rightarrow> (string \<times> string) list"

text \<open>Each error is one message of the code; \<open>BadEndpoint\<close> carries the parser's text.\<close>

datatype ws_url_error =
    EndpointRequired | BadEndpoint string | CannotSetWs | CannotSetWss | UnsupportedScheme string

fun ws_url_error_text :: "ws_url_error \<Rightarrow> string" where
  "ws_url_error_text EndpointRequired = ''tracking: Endpoint is required''"
| "ws_url_error_text (BadEndpoint e) = ''tracking: bad endpoint: '' @ e"
| "ws_url_error_text CannotSetWs = ''tracking: cannot set ws scheme''"
| "ws_url_error_text CannotSetWss = ''tracking: cannot set wss scheme''"
| "ws_url_error_text (UnsupportedScheme s) =
     ''tracking: unsupported scheme '' @ [CHR 0x22] @ s @ [CHR 0x22]"

definition normalize_scheme :: "('u, 'z) url_crate_scheme \<Rightarrow> 'u \<Rightarrow> ws_url_error + 'u" where
  "normalize_scheme C u =
     (if url_scheme C u = ''http'' then
        (case url_set_scheme C ''ws'' u of None \<Rightarrow> Inl CannotSetWs | Some u \<Rightarrow> Inr u)
      else if url_scheme C u = ''https'' then
        (case url_set_scheme C ''wss'' u of None \<Rightarrow> Inl CannotSetWss | Some u \<Rightarrow> Inr u)
      else if url_scheme C u = ''ws'' \<or> url_scheme C u = ''wss'' then Inr u
      else Inl (UnsupportedScheme (url_scheme C u)))"

definition auth_pairs :: "config \<Rightarrow> (string \<times> string) list" where
  "auth_pairs cfg = (case device cfg of
       Some d \<Rightarrow> [(''client-id'', client_id d), (''client-secret'', client_secret d)]
     | None \<Rightarrow> (case listener cfg of
         Some l \<Rightarrow> [(''access-token'', access_token l)]
       | None \<Rightarrow> []))"

definition build_ws_url :: "('u, 'z) url_crate_scheme \<Rightarrow> config \<Rightarrow> ws_url_error + 'u" where
  "build_ws_url C cfg =
     (let raw = trim (endpoint cfg) in
      if raw = [] then Inl EndpointRequired
      else let raw = (if \<not> contains raw ''://'' then ''ws://'' @ raw else raw) in
        and_then (case url_parse C raw of Inl e \<Rightarrow> Inl (BadEndpoint e) | Inr u \<Rightarrow> Inr u) (\<lambda>u.
        and_then (normalize_scheme C u) (\<lambda>u.
          let path = (if ws_path cfg = [] then DEFAULT_WS_PATH else ws_path cfg);
              u = url_set_path C path u
          in Inr (url_append_pairs C (auth_pairs cfg) u))))"

section \<open>Laws\<close>

text \<open>What the \<^verbatim>\<open>url\<close> crate documents of the operations used here.\<close>

definition url_laws :: "('u, 'z) url_crate_scheme \<Rightarrow> bool" where
  "url_laws C \<longleftrightarrow>
     (\<forall>s u u'. url_set_scheme C s u = Some u' \<longrightarrow> url_scheme C u' = s \<and> url_pairs C u' = url_pairs C u) \<and>
     (\<forall>p u. url_scheme C (url_set_path C p u) = url_scheme C u \<and>
            url_pairs C (url_set_path C p u) = url_pairs C u) \<and>
     (\<forall>ps u. url_scheme C (url_append_pairs C ps u) = url_scheme C u \<and>
             url_pairs C (url_append_pairs C ps u) = url_pairs C u @ ps)"

lemma normalize_scheme_ok:
  assumes "url_laws C" and "normalize_scheme C u = Inr v"
  shows "url_scheme C v =
      (if url_scheme C u = ''http'' \<or> url_scheme C u = ''ws'' then ''ws'' else ''wss'')"
    and "url_pairs C v = url_pairs C u"
    and "url_scheme C u \<in> {''http'', ''https'', ''ws'', ''wss''}"
  using assms by (auto simp: normalize_scheme_def url_laws_def split: if_splits option.splits)

lemma build_ws_url_ok:
  assumes L: "url_laws C" and b: "build_ws_url C cfg = Inr u"
  shows "\<exists>raw p. raw = trim (endpoint cfg) \<and> raw \<noteq> [] \<and>
    url_parse C (if \<not> contains raw ''://'' then ''ws://'' @ raw else raw) = Inr p \<and>
    url_scheme C p \<in> {''http'', ''https'', ''ws'', ''wss''} \<and>
    url_scheme C u = (if url_scheme C p = ''http'' \<or> url_scheme C p = ''ws'' then ''ws'' else ''wss'') \<and>
    url_pairs C u = url_pairs C p @ auth_pairs cfg"
proof -
  let ?raw = "trim (endpoint cfg)"
  obtain p v where p: "url_parse C (if \<not> contains ?raw ''://'' then ''ws://'' @ ?raw else ?raw) = Inr p"
    and v: "normalize_scheme C p = Inr v" and ne: "?raw \<noteq> []"
    and u: "u = url_append_pairs C (auth_pairs cfg)
              (url_set_path C (if ws_path cfg = [] then DEFAULT_WS_PATH else ws_path cfg) v)"
    using b by (auto simp: build_ws_url_def Let_def and_then_Inr_iff split: if_splits sum.splits)
  have "url_scheme C u = url_scheme C v" "url_pairs C u = url_pairs C v @ auth_pairs cfg"
    using L by (simp_all add: u url_laws_def)
  with p ne normalize_scheme_ok [OF L v] show ?thesis by (intro exI [of _ ?raw] exI [of _ p]) simp
qed

text \<open>An address library that obeys the laws: the scheme and the query of an address.\<close>

definition plain_url :: "(string \<times> (string \<times> string) list) url_crate" where
  "plain_url = \<lparr>url_parse = (\<lambda>s. Inr (takeWhile (\<lambda>c. c \<noteq> CHR '':'') s, [])), url_scheme = fst,
     url_set_scheme = (\<lambda>s u. Some (s, snd u)), url_set_path = (\<lambda>p u. u),
     url_append_pairs = (\<lambda>ps u. (fst u, snd u @ ps)), url_pairs = snd\<rparr>"

lemma plain_url_laws: "url_laws plain_url"
  by (simp add: url_laws_def plain_url_def)

end
