(* ===== verification/Session.thy ===== *)
theory Session
  imports Server_Codec Offline_Queue Ws_Url
begin

text \<open>
  The tracking client (\<^verbatim>\<open>src/tracking/client.rs\<close>): its shared state
  \<^verbatim>\<open>Inner\<close> and every critical section on it. The code takes the mutex, changes the
  state and releases it before each \<^verbatim>\<open>await\<close>; each such section is one definition
  here, a total function on \<open>session\<close>. How sections follow each other in the tasks of the
  client, and interleave, is the next theory.

  Beside the fields of \<^verbatim>\<open>Inner\<close> a \<open>session\<close> records the effects: what was put into
  the channel of each socket's writer (\<open>out_log\<close>; a socket is named by its dial generation),
  the writers that have ended (\<open>dead\<close>, chosen by the environment), the two bounded receive
  channels, and what waiting calls were given (\<open>woken\<close>): an answer, or \<open>None\<close> when the sender
  was dropped. A \<^verbatim>\<open>oneshot\<close> sender is a number that is never reused.
\<close>

section \<open>State\<close>

datatype outbound = Bin "u8 list" | CloseSocket

datatype wake_val = StartedUid string | StoppedOk | ResumedSeq u64

record session =
  cfg :: config
  conn :: connection_state
  track_uid :: string
  assigned_seq :: u64
  last_acked_seq :: u64
  queue :: offline_queue
  gps :: noise_filter
  session_ready :: bool
  backoff :: backoff_state
  next_publish_at :: instant
  next_event_at :: instant
  subscriptions :: "string list"
  sub_by_device :: "string \<rightharpoonup> u8"
  device_by_sub :: "u8 \<rightharpoonup> string"
  intentional :: bool
  dial_gen :: u64
  out_tx :: "u64 option"
  start_wait :: "nat option"
  stop_wait :: "nat option"
  resume_wait :: "nat option"
  starting :: bool
  recv_chan :: "server_evt list"
  cmd_chan :: "command list"
  out_log :: "(u64 \<times> outbound) list"
  dead :: "u64 list"
  woken :: "(nat \<times> (error + wake_val) option) list"
  next_wait :: nat

definition RECV_CAP :: nat where "RECV_CAP = 64"
definition CMD_CAP :: nat where "CMD_CAP = 16"

text \<open>\<^verbatim>\<open>HashSet\<close>: a list without repetition; its order stands for the iteration order.\<close>

definition set_insert :: "'a \<Rightarrow> 'a list \<Rightarrow> 'a list" where
  "set_insert x xs = (if x \<in> set xs then xs else xs @ [x])"

text \<open>\<^verbatim>\<open>try_send\<close> on a bounded channel drops what does not fit.\<close>

definition try_send :: "nat \<Rightarrow> 'a \<Rightarrow> 'a list \<Rightarrow> 'a list" where
  "try_send cap x q = (if length q < cap then q @ [x] else q)"

text \<open>\<^verbatim>\<open>connect\<close>: the checks and the initial state.\<close>

definition connect_init :: "instant \<Rightarrow> instant \<Rightarrow> config \<Rightarrow> error + session" where
  "connect_init now now2 c =
     (if endpoint c = [] then Inl (new_error Invalid ''Endpoint is required'')
      else if device c = None \<and> listener c = None then
        Inl (new_error Invalid ''Device or Listener auth is required'')
      else let c = (if hello_timeout c = 0 then c\<lparr>hello_timeout := from_millis 10000\<rparr> else c) in
        Inr \<lparr>cfg = c, conn = Connecting, track_uid = [], assigned_seq = 0, last_acked_seq = 0,
             queue = queue_new (max_queue_size c), gps = filter_new, session_ready = False,
             backoff = new_backoff (reconnect_min_delay c) (reconnect_max_delay c) (reconnect_max_attempts c),
             next_publish_at = now, next_event_at = now2, subscriptions = fold set_insert (subscribe_uids c) [],
             sub_by_device = Map.empty, device_by_sub = Map.empty, intentional = False, dial_gen = 0,
             out_tx = None, start_wait = None, stop_wait = None, resume_wait = None, starting = False,
             recv_chan = [], cmd_chan = [], out_log = [], dead = [], woken = [], next_wait = 0\<rparr>)"

section \<open>Waiting calls\<close>

definition wake :: "nat option \<Rightarrow> (error + wake_val) option \<Rightarrow> session \<Rightarrow> session" where
  "wake w res s = (case w of None \<Rightarrow> s | Some t \<Rightarrow> s\<lparr>woken := woken s @ [(t, res)]\<rparr>)"

definition take_start_wait :: "session \<Rightarrow> nat option \<times> session" where
  "take_start_wait s = (start_wait s, s\<lparr>start_wait := None\<rparr>)"

definition take_stop_wait :: "session \<Rightarrow> nat option \<times> session" where
  "take_stop_wait s = (stop_wait s, s\<lparr>stop_wait := None\<rparr>)"

definition take_resume_wait :: "session \<Rightarrow> nat option \<times> session" where
  "take_resume_wait s = (resume_wait s, s\<lparr>resume_wait := None\<rparr>)"

text \<open>What a call returns for what it was given: a dropped sender is an error of the call itself.\<close>

definition waited :: "string \<Rightarrow> (error + wake_val) option \<Rightarrow> error + wake_val" where
  "waited msg r = (case r of Some x \<Rightarrow> x | None \<Rightarrow> Inl (new_error TryAgain msg))"

text \<open>Dropping a sender.\<close>

definition drop_start_wait :: "session \<Rightarrow> session" where
  "drop_start_wait s =
     (let (w, s) = take_start_wait s in wake w None s)"

definition drop_stop_wait :: "session \<Rightarrow> session" where
  "drop_stop_wait s =
     (let (w, s) = take_stop_wait s in wake w None s)"

definition drop_resume_wait :: "session \<Rightarrow> session" where
  "drop_resume_wait s =
     (let (w, s) = take_resume_wait s in wake w None s)"

text \<open>A new sender in a slot drops the old one.\<close>

definition new_start_wait :: "session \<Rightarrow> nat \<times> session" where
  "new_start_wait s = (let s = drop_start_wait s; t = next_wait s
     in (t, s\<lparr>start_wait := Some t, next_wait := Suc t\<rparr>))"

definition new_stop_wait :: "session \<Rightarrow> nat \<times> session" where
  "new_stop_wait s = (let s = drop_stop_wait s; t = next_wait s
     in (t, s\<lparr>stop_wait := Some t, next_wait := Suc t\<rparr>))"

definition new_resume_wait :: "session \<Rightarrow> nat \<times> session" where
  "new_resume_wait s = (let s = drop_resume_wait s; t = next_wait s
     in (t, s\<lparr>resume_wait := Some t, next_wait := Suc t\<rparr>))"

definition reject_pending_locked :: "error \<Rightarrow> session \<Rightarrow> session" where
  "reject_pending_locked err s =
     (let (w, s) = take_start_wait s; s = wake w (Some (Inl err)) s;
          (w, s) = take_stop_wait s; s = wake w (Some (Inl err)) s;
          (w, s) = take_resume_wait s
      in wake w (Some (Inl err)) s)"

text \<open>\<^verbatim>\<open>out_tx.take()\<close> followed by the close message.\<close>

definition hang_up :: "session \<Rightarrow> session" where
  "hang_up s = (case out_tx s of
       None \<Rightarrow> s
     | Some g \<Rightarrow> s\<lparr>out_tx := None,
         out_log := (if g \<in> set (dead s) then out_log s else out_log s @ [(g, CloseSocket)])\<rparr>)"

section \<open>Sending\<close>

definition send_bin :: "u8 list \<Rightarrow> session \<Rightarrow> (error + unit) \<times> session" where
  "send_bin buf s =
     (if conn s = Closed \<and> intentional s then (Inl (new_error Invalid ''closed''), s)
      else case out_tx s of
          None \<Rightarrow> (Inl (new_error TryAgain ''socket not open''), s)
        | Some g \<Rightarrow>
            if g \<in> set (dead s) then (Inl (new_error TryAgain ''socket not open''), s)
            else (Inr (), s\<lparr>out_log := out_log s @ [(g, Bin buf)]\<rparr>))"

text \<open>The encoders never panic (\<open>encode_client_total\<close>, \<open>encode_loc_frames_eq\<close>).\<close>

definition client_bytes :: "uuid_crate \<Rightarrow> client_cmd \<Rightarrow> u8 list" where
  "client_bytes U cmd = (case encode_client_cmd U cmd of Some b \<Rightarrow> b | None \<Rightarrow> [])"

definition loc_frames :: "u64 \<Rightarrow> lat_lng list \<Rightarrow> u8 list list" where
  "loc_frames last_seq points = (case encode_loc_frames last_seq points of Some fs \<Rightarrow> fs | None \<Rightarrow> [])"

definition send_cmd :: "uuid_crate \<Rightarrow> client_cmd \<Rightarrow> session \<Rightarrow> (error + unit) \<times> session" where
  "send_cmd U cmd s = send_bin (client_bytes U cmd) s"

section \<open>Dialing\<close>

definition dial_begin :: "session \<Rightarrow> u64 \<times> session" where
  "dial_begin s =
     (let s = s\<lparr>dial_gen := dial_gen s + 1, session_ready := False\<rparr>;
          s = (if conn s = Open \<or> conn s = Reconnecting then s\<lparr>conn := Reconnecting\<rparr>
               else s\<lparr>conn := Connecting\<rparr>)
      in (dial_gen s, s))"

text \<open>
  What the network gives a dial: it fails (in the client request, the connection, the first
  read, or by the hello timeout, each with its message), or the first frame arrives.
\<close>

datatype first_frame =
    BadRequest string | DialFailed string | HelloTimeout | ClosedBeforeHello | ReadFailed string
  | FirstBinary "u8 list" | FirstOther string

datatype hello_outcome = HelloOk | HelloRelocate relocate | HelloFailed error

fun show_decode_error :: "decode_error \<Rightarrow> string" where
  "show_decode_error DecodeTruncated = ''truncated frame''"
| "show_decode_error DecodeInvalid = ''invalid frame''"

definition check_hello :: "uuid_crate \<Rightarrow> u8 list \<Rightarrow> hello_outcome" where
  "check_hello U data = (case decode_server_evt U data of
       Inl e \<Rightarrow> HelloFailed (new_error Invalid (''decode hello: '' @ show_decode_error e))
     | Inr (Some (Hello version _ _)) \<Rightarrow>
         if version \<noteq> PROTOCOL_VERSION
         then HelloFailed (new_error Invalid (''unsupported hello version '' @ show_nat (unat version)))
         else HelloOk
     | Inr (Some (Relocate ep retry_after)) \<Rightarrow>
         HelloRelocate \<lparr>rel_endpoint = ep, rel_retry_after_ms = retry_after\<rparr>
     | Inr (Some (Error code message uid retry)) \<Rightarrow>
         HelloFailed (error_from_evt (Error code message uid retry))
     | _ \<Rightarrow> HelloFailed (new_error Invalid ''expected hello''))"

fun dial_hello :: "uuid_crate \<Rightarrow> first_frame \<Rightarrow> hello_outcome" where
  "dial_hello U (BadRequest e) = HelloFailed (new_error Invalid (''ws request: '' @ e))"
| "dial_hello U (DialFailed e) = HelloFailed (new_error TryAgain (''ws dial: '' @ e))"
| "dial_hello U HelloTimeout = HelloFailed (new_error TryAgain ''hello timeout'')"
| "dial_hello U ClosedBeforeHello = HelloFailed (new_error TryAgain ''connection closed before hello'')"
| "dial_hello U (ReadFailed e) = HelloFailed (new_error TryAgain (''ws read: '' @ e))"
| "dial_hello U (FirstOther m) = HelloFailed (new_error Invalid (''expected binary hello, got '' @ m))"
| "dial_hello U (FirstBinary data) = check_hello U data"

text \<open>The address first, then the network.\<close>

definition dial_network ::
    "uuid_crate \<Rightarrow> ('u, 'z) url_crate_scheme \<Rightarrow> config \<Rightarrow> first_frame \<Rightarrow> hello_outcome" where
  "dial_network U C c ff = (case build_ws_url C c of
       Inl e \<Rightarrow> HelloFailed (new_error Invalid (ws_url_error_text e))
     | Inr url \<Rightarrow> dial_hello U ff)"

definition dial_register :: "u64 \<Rightarrow> session \<Rightarrow> (error + unit) \<times> session" where
  "dial_register gen s =
     (if gen \<noteq> dial_gen s \<or> intentional s then (Inl (new_error Invalid ''dial superseded''), s)
      else (Inr (), s\<lparr>out_tx := Some gen, conn := Open, backoff := reset_backoff (backoff s)\<rparr>))"

definition relocate_endpoint :: "relocate \<Rightarrow> session \<Rightarrow> session" where
  "relocate_endpoint rel s =
     (if rel_endpoint rel \<noteq> [] then s\<lparr>cfg := (cfg s)\<lparr>endpoint := rel_endpoint rel\<rparr>\<rparr> else s)"

definition relocate_check :: "bool \<Rightarrow> session \<Rightarrow> error + bool" where
  "relocate_check send_resume s =
     (let send_resume = (if track_uid s \<noteq> [] then True else send_resume)
      in if intentional s then Inl (new_error Invalid ''closed'') else Inr send_resume)"

definition resubscribe_section :: "session \<Rightarrow> string list \<times> session" where
  "resubscribe_section s =
     (subscriptions s, s\<lparr>sub_by_device := Map.empty, device_by_sub := Map.empty\<rparr>)"

definition subscribe_cmd :: "string \<Rightarrow> client_cmd" where
  "subscribe_cmd d = Subscribe d True 0"

text \<open>\<^verbatim>\<open>send_resume_and_wait\<close>: \<open>None\<close> when there is no track to resume.\<close>

definition resume_wait_begin :: "session \<Rightarrow> (client_cmd \<times> nat) option \<times> session" where
  "resume_wait_begin s =
     (if track_uid s = [] then (None, s)
      else let (t, s) = new_resume_wait s in (Some (Resume (track_uid s) (assigned_seq s), t), s))"

definition on_socket_closed_section :: "u64 \<Rightarrow> f64 \<Rightarrow> session \<Rightarrow> (bool \<times> duration) option \<times> session" where
  "on_socket_closed_section gen r s =
     (if gen \<noteq> dial_gen s then (None, s)
      else let s = s\<lparr>out_tx := None, session_ready := False, queue := mark_unsent (queue s),
                     sub_by_device := Map.empty, device_by_sub := Map.empty\<rparr> in
        if intentional s then (None, s\<lparr>conn := Closed\<rparr>)
        else if disable_reconnect (cfg s) then
          (None, reject_pending_locked (new_error TryAgain ''connection closed'') (s\<lparr>conn := Closed\<rparr>))
        else let s = s\<lparr>conn := Reconnecting\<rparr>; send_resume = (track_uid s \<noteq> []) in
          case next_delay r (backoff s) of
            (Some d, b) \<Rightarrow> (Some (send_resume, d), s\<lparr>backoff := b\<rparr>)
          | (None, b) \<Rightarrow>
              (None, reject_pending_locked (new_error TryAgain ''reconnect attempts exhausted'')
                       (s\<lparr>backoff := b, conn := Closed\<rparr>)))"

text \<open>\<^verbatim>\<open>handle_auth_error\<close>: without a callback, and with its answer.\<close>

definition auth_no_refresh :: "session \<Rightarrow> session" where
  "auth_no_refresh s = hang_up (s\<lparr>intentional := True, conn := Closed\<rparr>)"

definition auth_refreshed ::
    "device_auth option \<Rightarrow> listener_auth option \<Rightarrow> session \<Rightarrow> bool \<times> bool \<times> session" where
  "auth_refreshed d l s =
     (let c = cfg s;
          c = (case d of None \<Rightarrow> c | Some d \<Rightarrow> c\<lparr>device := Some d, listener := None\<rparr>);
          c = (case l of None \<Rightarrow> c | Some l \<Rightarrow> c\<lparr>listener := Some l, device := None\<rparr>);
          s = hang_up (s\<lparr>cfg := c, dial_gen := dial_gen s + 1, session_ready := False\<rparr>)
      in (track_uid s \<noteq> [], intentional s, s))"

definition auth_refresh_failed :: "session \<Rightarrow> session" where
  "auth_refresh_failed s = s\<lparr>intentional := True, conn := Closed\<rparr>"

end
