(* ===== verification/Session_Ops.thy ===== *)
theory Session_Ops
  imports Session
begin

text \<open>
  The critical sections of the client's work (\<^verbatim>\<open>src/tracking/client.rs\<close>): what
  \<^verbatim>\<open>dispatch\<close> does with each server event, \<^verbatim>\<open>flush_queue\<close>, and the
  sections of the public calls (\<^verbatim>\<open>publish\<close>, \<^verbatim>\<open>start_track_meta\<close>,
  \<^verbatim>\<open>resume\<close>, \<^verbatim>\<open>stop_track\<close>, \<^verbatim>\<open>send_event\<close>,
  \<^verbatim>\<open>subscribe\<close>, \<^verbatim>\<open>unsubscribe\<close>, \<^verbatim>\<open>close\<close>). Clock readings
  are arguments: \<open>now\<close> for \<^verbatim>\<open>Instant::now\<close>, \<open>wall\<close> for the system time.
\<close>

section \<open>Events that change the track\<close>

definition on_resume_ok :: "string \<Rightarrow> u64 \<Rightarrow> session \<Rightarrow> nat option \<times> session" where
  "on_resume_ok uid acked s =
     (let s = (if uid \<noteq> [] then s\<lparr>track_uid := uid\<rparr> else s);
          s = s\<lparr>last_acked_seq := acked\<rparr>;
          s = (if assigned_seq s < last_acked_seq s then s\<lparr>assigned_seq := last_acked_seq s\<rparr> else s);
          s = s\<lparr>queue := ack_through acked (queue s), session_ready := True\<rparr>
      in take_resume_wait s)"

definition on_track_started :: "string \<Rightarrow> session \<Rightarrow> nat option \<times> session" where
  "on_track_started uid s =
     take_start_wait (s\<lparr>track_uid := uid, assigned_seq := 0, last_acked_seq := 0, session_ready := True,
                        starting := False\<rparr>)"

definition on_track_stopped :: "string \<Rightarrow> session \<Rightarrow> nat option \<times> session" where
  "on_track_stopped uid s =
     (let s = (if track_uid s = uid
               then s\<lparr>track_uid := [], queue := queue_clear (queue s), session_ready := False,
                      gps := filter_reset (gps s)\<rparr>
               else s)
      in take_stop_wait s)"

definition on_ack :: "u64 \<Rightarrow> session \<Rightarrow> session" where
  "on_ack seq s =
     (let s = (if seq > last_acked_seq s then s\<lparr>last_acked_seq := seq\<rparr> else s)
      in s\<lparr>queue := ack_through seq (queue s)\<rparr>)"

definition on_error :: "error \<Rightarrow> session \<Rightarrow> session" where
  "on_error e s =
     (let s = (case resume_wait s of
                 None \<Rightarrow> s
               | Some t \<Rightarrow>
                   let s = s\<lparr>resume_wait := None\<rparr>;
                       s = (if is_fatal_resume_error (err_code e)
                            then s\<lparr>track_uid := [], queue := queue_clear (queue s), session_ready := False,
                                   gps := filter_reset (gps s)\<rparr>
                            else s)
                   in wake (Some t) (Some (Inl e)) s);
          s = (case start_wait s of
                 None \<Rightarrow> s
               | Some t \<Rightarrow> wake (Some t) (Some (Inl e)) (s\<lparr>start_wait := None, starting := False\<rparr>));
          s = (case stop_wait s of
                 None \<Rightarrow> s
               | Some t \<Rightarrow> wake (Some t) (Some (Inl e)) (s\<lparr>stop_wait := None\<rparr>))
      in if err_code e = TrackNotFound \<and> resume_wait s = None
         then s\<lparr>track_uid := [], queue := queue_clear (queue s), session_ready := False, starting := False\<rparr>
         else s)"

section \<open>Other events\<close>

definition on_subscribed :: "u8 \<Rightarrow> string \<Rightarrow> session \<Rightarrow> session" where
  "on_subscribed sub uid s =
     s\<lparr>sub_by_device := (sub_by_device s)(uid \<mapsto> sub), device_by_sub := (device_by_sub s)(sub \<mapsto> uid)\<rparr>"

definition notify :: "server_evt \<Rightarrow> session \<Rightarrow> session" where
  "notify msg s = s\<lparr>recv_chan := try_send RECV_CAP msg (recv_chan s)\<rparr>"

definition on_command :: "string \<Rightarrow> u8 list \<Rightarrow> i64 option \<Rightarrow> session \<Rightarrow> session" where
  "on_command uid payload ts s =
     s\<lparr>cmd_chan := try_send CMD_CAP
         \<lparr>cmd_command_id = uid, cmd_payload = payload, cmd_timestamp_ms = ts\<rparr> (cmd_chan s)\<rparr>"

fun evt_sub :: "server_evt \<Rightarrow> u8 option" where
  "evt_sub (LocationAdded _ _ _ _ sub) = Some sub"
| "evt_sub (EventAdded _ _ _ _ sub) = Some sub"
| "evt_sub (DevicePresence _ _ _ sub) = Some sub"
| "evt_sub _ = None"

text \<open>The device of a fan-out event, found by its subscription handle, unless it is already set.\<close>

fun with_device :: "string \<Rightarrow> server_evt \<Rightarrow> server_evt" where
  "with_device uid (LocationAdded d t p seq sub) =
     LocationAdded (if d = [] then uid else d) t p seq sub"
| "with_device uid (EventAdded d t p ts sub) = EventAdded (if d = [] then uid else d) t p ts sub"
| "with_device uid (DevicePresence d on ts sub) = DevicePresence (if d = [] then uid else d) on ts sub"
| "with_device uid e = e"

definition on_fanout :: "server_evt \<Rightarrow> u8 \<Rightarrow> session \<Rightarrow> session" where
  "on_fanout msg sub s =
     notify (with_device (case device_by_sub s sub of None \<Rightarrow> [] | Some d \<Rightarrow> d) msg) s"

section \<open>flush\_queue\<close>

text \<open>The sequence number of a frame, read back from bytes 1 to 4.\<close>

definition frame_seq :: "u64 \<Rightarrow> u8 list \<Rightarrow> u64" where
  "frame_seq last_seq frame =
     (if 5 \<le> length frame then of_nat (of_le_bytes (take 4 (drop 1 frame))) else last_seq)"

fun take_frames :: "nat \<Rightarrow> u64 \<Rightarrow> u8 list list \<Rightarrow> offline_queue \<Rightarrow> u8 list list \<times> offline_queue" where
  "take_frames remaining last_seq [] q = ([], q)"
| "take_frames remaining last_seq (f # fs) q =
     (if window_full q then ([], q)
      else let q = record_frame (frame_seq last_seq f) q
        in if remaining \<le> 1 then ([f], q)
           else let (out, q) = take_frames (remaining - 1) last_seq fs q in (f # out, q))"

text \<open>
  The locked part of one turn of the loop: the frames to send, none when the loop returns.
  Unsent in-flight samples go first; only when there are none are staged samples numbered.
\<close>

definition flush_batch :: "nat \<Rightarrow> session \<Rightarrow> u64 \<times> lat_lng list \<times> session" where
  "flush_batch remaining s =
     (let unsent = unsent_inflight (queue s) in
      if unsent \<noteq> [] then (q_seq (last unsent), map q_point unsent, s)
      else let n = min (staging_len (queue s)) (100 * remaining);
               (assigned, q) = assign_from_staging n (assigned_seq s) (queue s);
               s = s\<lparr>queue := q\<rparr>;
               s = (if assigned = [] then s else s\<lparr>assigned_seq := q_seq (last assigned)\<rparr>)
           in (if assigned = [] then 0 else q_seq (last assigned), map q_point assigned, s))"

definition flush_section :: "session \<Rightarrow> u8 list list \<times> session" where
  "flush_section s =
     (if \<not> session_ready s \<or> conn s \<noteq> Open \<or> out_tx s = None then ([], s)
      else let remaining = window_remaining (queue s) in
        if remaining = 0 then ([], s)
        else let (last_seq, points, s) = flush_batch remaining s in
          if points = [] then ([], s)
          else let (out, q) = take_frames remaining last_seq (loc_frames last_seq points) (queue s)
               in (out, s\<lparr>queue := q\<rparr>))"

section \<open>publish\<close>

text \<open>The first section: start a track when there is none and none is being started.\<close>

definition publish_begin :: "i64 \<Rightarrow> i64 \<Rightarrow> lat_lng \<Rightarrow> session \<Rightarrow> client_cmd option \<times> session" where
  "publish_begin wall1 wall2 point s =
     (if track_uid s = [] \<and> \<not> starting s then
        (Some (TrackStart (Some (stamp_lat_lng wall2 point)) [] []),
         s\<lparr>starting := True, queue := queue_clear (queue s), assigned_seq := 0, last_acked_seq := 0,
           session_ready := False, gps := filter_seed (stamp_lat_lng wall1 point) (filter_reset (gps s))\<rparr>)
      else (None, s))"

definition start_sent_failed :: "session \<Rightarrow> session" where
  "start_sent_failed s = s\<lparr>starting := False\<rparr>"

datatype publish_out =
    RateLimited u64
  | Held u64
  | Staged u64
  | Live u64 lat_lng

definition can_send_live :: "session \<Rightarrow> bool" where
  "can_send_live s \<longleftrightarrow> session_ready s \<and> conn s = Open \<and> out_tx s \<noteq> None \<and> \<not> window_full (queue s)"

definition publish_section ::
    "libm \<Rightarrow> instant \<Rightarrow> i64 \<Rightarrow> i64 \<Rightarrow> lat_lng \<Rightarrow> session \<Rightarrow> publish_out \<times> session" where
  "publish_section L now wall clock point s =
     (if \<not> can_accept_publish (next_publish_at s) now 1 then (RateLimited (assigned_seq s), s)
      else let s = s\<lparr>next_publish_at := next_publish_allowed_at (next_publish_at s) now 1\<rparr>;
               pt = stamp_lat_lng wall point;
               (emitted, f) = filter_push L clock pt (gps s);
               s = s\<lparr>gps := f\<rparr>
        in case emitted of
             None \<Rightarrow> (Held (assigned_seq s), s)
           | Some p \<Rightarrow>
               if \<not> can_send_live s
               then (Staged (assigned_seq s), s\<lparr>queue := push_staging L p (queue s)\<rparr>)
               else let seq = assigned_seq s + 1;
                        s = s\<lparr>assigned_seq := seq\<rparr>;
                        (dropped, q) = enqueue L seq p (queue s)
                    in (Live seq (strip_live_time p), s\<lparr>queue := record_frame seq q\<rparr>))"

text \<open>What \<^verbatim>\<open>publish\<close> returns: a sequence number and whether the sample was accepted.\<close>

fun publish_result :: "publish_out \<Rightarrow> u64 \<times> bool" where
  "publish_result (RateLimited n) = (n, False)"
| "publish_result (Held n) = (n, True)"
| "publish_result (Staged n) = (n, True)"
| "publish_result (Live n _) = (n, True)"

definition live_cmd :: "u64 \<Rightarrow> lat_lng \<Rightarrow> client_cmd" where
  "live_cmd seq p = LocationAdd [] seq p"

section \<open>Tracks\<close>

definition start_track_begin :: "i64 \<Rightarrow> lat_lng option \<Rightarrow> session \<Rightarrow> nat \<times> session" where
  "start_track_begin wall loc s =
     (let (t, s) = new_start_wait s;
          s = s\<lparr>starting := True, queue := queue_clear (queue s), assigned_seq := 0, last_acked_seq := 0,
                session_ready := False, gps := filter_reset (gps s)\<rparr>
      in (t, case loc of None \<Rightarrow> s | Some p \<Rightarrow> s\<lparr>gps := filter_seed (stamp_lat_lng wall p) (gps s)\<rparr>))"

definition start_track_cmd :: "i64 \<Rightarrow> lat_lng option \<Rightarrow> lat_lng list \<Rightarrow> u8 list \<Rightarrow> client_cmd" where
  "start_track_cmd wall loc route metadata =
     TrackStart (map_option (stamp_lat_lng wall) loc) (stamp_lat_lngs wall route) metadata"

definition start_track_failed :: "session \<Rightarrow> session" where
  "start_track_failed s = (drop_start_wait s)\<lparr>starting := False\<rparr>"

definition resume_begin :: "string \<Rightarrow> u64 \<Rightarrow> session \<Rightarrow> nat \<times> session" where
  "resume_begin uid last_client_seq s =
     new_resume_wait (s\<lparr>track_uid := uid, assigned_seq := last_client_seq\<rparr>)"

definition resume_failed :: "session \<Rightarrow> session" where
  "resume_failed s = drop_resume_wait s"

text \<open>\<^verbatim>\<open>stop_track\<close>: the track named by the call, else the local one; none, nothing to do.\<close>

definition stop_track_target :: "string option \<Rightarrow> session \<Rightarrow> string option" where
  "stop_track_target uid s =
     (let local_uid = track_uid s in
      case uid of
        Some u \<Rightarrow> (if u \<noteq> [] then Some u else if local_uid = [] then None else Some local_uid)
      | None \<Rightarrow> (if local_uid = [] then None else Some local_uid))"

definition stop_track_begin :: "session \<Rightarrow> nat \<times> session" where
  "stop_track_begin s = new_stop_wait s"

definition stop_track_failed :: "session \<Rightarrow> session" where
  "stop_track_failed s = drop_stop_wait s"

section \<open>Events, subscriptions, close\<close>

datatype event_out = EventRefused error | EventRateLimited | EventSkipped | EventSend

definition send_event_section :: "instant \<Rightarrow> u8 list \<Rightarrow> session \<Rightarrow> event_out \<times> session" where
  "send_event_section now payload s =
     (if MAX_EVENT_BYTES < length payload then
        (EventRefused (new_error Invalid ''event payload exceeds 4 KiB''), s)
      else if track_uid s = [] \<or> \<not> session_ready s then
        (EventRefused (new_error Invalid ''start_track() before send_event()''), s)
      else if now < next_event_at s then (EventRateLimited, s)
      else let s = s\<lparr>next_event_at := now + MIN_EVENT_INTERVAL\<rparr>
        in (if conn s = Open \<and> out_tx s \<noteq> None then EventSend else EventSkipped, s))"

definition event_cmd :: "i64 \<Rightarrow> u8 list \<Rightarrow> client_cmd" where
  "event_cmd wall payload = Event [] payload (Some wall)"

definition ack_command_cmd :: "string \<Rightarrow> command_ack_status \<Rightarrow> string option \<Rightarrow> client_cmd" where
  "ack_command_cmd uid status message = CommandAck uid status message"

definition subscribe_section :: "string \<Rightarrow> session \<Rightarrow> session" where
  "subscribe_section uid s = s\<lparr>subscriptions := set_insert uid (subscriptions s)\<rparr>"

definition unsubscribe_section :: "string \<Rightarrow> session \<Rightarrow> u8 option \<times> session" where
  "unsubscribe_section uid s =
     (sub_by_device s uid,
      s\<lparr>subscriptions := removeAll uid (subscriptions s), sub_by_device := (sub_by_device s)(uid := None)\<rparr>)"

definition close_cmd :: "session \<Rightarrow> client_cmd option" where
  "close_cmd s = (if track_uid s \<noteq> [] then Some (TrackStop (track_uid s)) else None)"

definition close_section :: "session \<Rightarrow> u64 option \<times> session" where
  "close_section s =
     (let s = s\<lparr>intentional := True, conn := Closed, session_ready := False\<rparr>;
          s = reject_pending_locked (new_error Invalid ''client closed'') s
      in (out_tx s, s\<lparr>out_tx := None\<rparr>))"

definition close_socket :: "u64 option \<Rightarrow> session \<Rightarrow> session" where
  "close_socket tx s = (case tx of None \<Rightarrow> s | Some g \<Rightarrow>
     s\<lparr>out_log := (if g \<in> set (dead s) then out_log s else out_log s @ [(g, CloseSocket)])\<rparr>)"

definition recv_section :: "session \<Rightarrow> server_evt option \<times> session" where
  "recv_section s = (case recv_chan s of [] \<Rightarrow> (None, s) | e # es \<Rightarrow> (Some e, s\<lparr>recv_chan := es\<rparr>))"

definition recv_command_section :: "session \<Rightarrow> command option \<times> session" where
  "recv_command_section s =
     (case cmd_chan s of [] \<Rightarrow> (None, s) | c # cs \<Rightarrow> (Some c, s\<lparr>cmd_chan := cs\<rparr>))"

end
