(* ===== verification/Session_Steps.thy ===== *)
theory Session_Steps
  imports Session_Ops
begin

text \<open>
  How the sections of the client follow each other (\<^verbatim>\<open>src/tracking/client.rs\<close>). A
  \<open>task\<close> is a suspended \<^verbatim>\<open>async\<close> call at one of its \<^verbatim>\<open>await\<close> points;
  \<open>exec\<close> runs it to the next one: it changes the shared session by one critical section
  (or one channel operation) and gives the tasks that continue. A running client is a
  session and a list of tasks; a step runs any of them, so every interleaving the runtime
  may choose is a sequence of steps. The environment supplies \<open>input\<close>: network frames, clock
  readings, random numbers, the answer of the credentials callback. Sleeping is a step that
  may come at any time.

  The locale \<open>kept\<close> is the contract between a property of the session and the sections: a
  property that every section keeps holds after every step, whatever the interleaving. Three
  sections may be guarded by a condition under which they keep it.
\<close>

section \<open>Tasks\<close>

datatype read_frame = ReadBinary "u8 list" | ReadEnd | ReadOther

record input =
  in_first :: first_frame
  in_read :: read_frame
  in_now :: instant
  in_wall :: i64
  in_wall2 :: i64
  in_clock :: i64
  in_rand :: f64
  in_refresh :: "(device_auth option \<times> listener_auth option) option"

text \<open>What is left to do for an event after the queue is flushed: answer a call, notify the user.\<close>

type_synonym post = "nat option \<times> (error + wake_val) \<times> server_evt option"

text \<open>
  The first flag of a dial says whether to resume; the second, whether a failure reconnects
  (\<^verbatim>\<open>on_socket_closed\<close>) or is dropped (relocation, credentials, \<^verbatim>\<open>connect\<close>).
\<close>

datatype task =
    Dial bool bool
  | DialNet u64 config bool bool
  | DialRegister u64 bool bool
  | RelocateSet relocate bool bool
  | RelocateCheck bool bool
  | RetryDial
  | SocketClosed u64
  | BackoffSleep bool
  | ResumeTrack bool
  | ResumeSend client_cmd nat bool
  | ResumeAwait nat bool
  | ResumeAgain bool
  | Resubscribe
  | SendSubs "string list"
  | Read u64
  | FlushQueue u64 post
  | FlushSend "u8 list list" u64 post
  | Finish u64 post
  | AuthError
  | AuthGiveUp
  | AuthRefresh
  | Publish lat_lng
  | PublishStart client_cmd
  | PublishStartFailed
  | PublishRun lat_lng
  | Send client_cmd
  | StartTrack "lat_lng option" "lat_lng list" "u8 list"
  | StartSend client_cmd
  | StartFailed
  | ResumeCall string u64
  | ResumeCallSend string u64 nat
  | ResumeCallFailed
  | ResumeCallAwait string u64 nat
  | StopTrack "string option"
  | StopBegin string
  | StopSend string
  | StopFailed
  | SendEvent "u8 list"
  | SendEventCmd "u8 list"
  | SubscribeCall string
  | UnsubscribeCall string
  | CloseCall
  | CloseSend client_cmd
  | CloseRun
  | CloseTx "u64 option"
  | Recv
  | RecvCommand

text \<open>The public calls.\<close>

fun is_call :: "task \<Rightarrow> bool" where
  "is_call (Publish _) = True"
| "is_call (StartTrack _ _ _) = True"
| "is_call (ResumeCall _ _) = True"
| "is_call (StopTrack _) = True"
| "is_call (SendEvent _) = True"
| "is_call (Send (CommandAck _ _ _)) = True"
| "is_call (SubscribeCall _) = True"
| "is_call (UnsubscribeCall _) = True"
| "is_call CloseCall = True"
| "is_call Recv = True"
| "is_call RecvCommand = True"
| "is_call _ = False"

section \<open>One task, one step\<close>

text \<open>A dial that failed: reconnecting again, or nobody looks at the error.\<close>

definition dial_failed :: "bool \<Rightarrow> task list" where
  "dial_failed retry = (if retry then [RetryDial] else [])"

text \<open>\<^verbatim>\<open>dispatch\<close>: the section of the event and what follows.\<close>

definition dispatch_section :: "u64 \<Rightarrow> server_evt \<Rightarrow> session \<Rightarrow> session \<times> task list" where
  "dispatch_section g msg s = (case msg of
       Relocate ep retry_after \<Rightarrow>
         (s, [RelocateSet \<lparr>rel_endpoint = ep, rel_retry_after_ms = retry_after\<rparr> True False, Read g])
     | ResumeOk uid acked \<Rightarrow>
         (let (w, s) = on_resume_ok uid acked s in (s, [FlushQueue g (w, Inr (ResumedSeq acked), Some msg)]))
     | TrackStarted uid metadata \<Rightarrow>
         (let (w, s) = on_track_started uid s in (s, [FlushQueue g (w, Inr (StartedUid uid), Some msg)]))
     | TrackStopped uid \<Rightarrow>
         (let (w, s) = on_track_stopped uid s in (s, [Finish g (w, Inr StoppedOk, Some msg)]))
     | Ack seq \<Rightarrow> (on_ack seq s, [FlushQueue g (None, Inr StoppedOk, None)])
     | Command uid payload ts \<Rightarrow> (on_command uid payload ts s, [Read g])
     | Error code message uid retry \<Rightarrow>
         (on_error (error_from_evt msg) s,
          (if is_auth_error code then [AuthError] else []) @ [Finish g (None, Inr StoppedOk, Some msg)])
     | Subscribed sub uid _ _ _ _ _ _ _ _ _ _ \<Rightarrow>
         (on_subscribed sub uid s, [Finish g (None, Inr StoppedOk, Some msg)])
     | LocationAdded _ _ _ _ sub \<Rightarrow> (on_fanout msg sub s, [Read g])
     | EventAdded _ _ _ _ sub \<Rightarrow> (on_fanout msg sub s, [Read g])
     | DevicePresence _ _ _ sub \<Rightarrow> (on_fanout msg sub s, [Read g])
     | _ \<Rightarrow> (s, [Finish g (None, Inr StoppedOk, Some msg)]))"

definition read_section :: "uuid_crate \<Rightarrow> u64 \<Rightarrow> read_frame \<Rightarrow> session \<Rightarrow> session \<times> task list" where
  "read_section U g f s = (case f of
       ReadEnd \<Rightarrow> (s, [SocketClosed g])
     | ReadOther \<Rightarrow> (s, [Read g])
     | ReadBinary b \<Rightarrow> (case decode_server_evt U b of
           Inr (Some msg) \<Rightarrow> dispatch_section g msg s
         | Inr None \<Rightarrow> (s, [Read g])
         | Inl _ \<Rightarrow> (s, [Read g])))"

text \<open>The next turn after an awaited resume, by its answer.\<close>

definition resume_answer :: "(error + wake_val) option \<Rightarrow> task list \<Rightarrow> task list \<Rightarrow> task list \<Rightarrow> task list" where
  "resume_answer res done again failed = (case res of
       None \<Rightarrow> failed
     | Some (Inr _) \<Rightarrow> done
     | Some (Inl e) \<Rightarrow> if is_retry_resume_error (err_code e) then again else failed)"

definition finish_section :: "post \<Rightarrow> session \<Rightarrow> session" where
  "finish_section p s =
     (let (w, res, evt) = p; s = wake w (Some res) s in case evt of None \<Rightarrow> s | Some e \<Rightarrow> notify e s)"

text \<open>Send, and continue with one of two task lists.\<close>

definition send_then ::
    "uuid_crate \<Rightarrow> client_cmd \<Rightarrow> task list \<Rightarrow> task list \<Rightarrow> session \<Rightarrow> session \<times> task list" where
  "send_then U cmd ok failed s =
     (let (r, s) = send_cmd U cmd s in (s, case r of Inr _ \<Rightarrow> ok | Inl _ \<Rightarrow> failed))"

primrec exec ::
    "uuid_crate \<Rightarrow> libm \<Rightarrow> ('u, 'z) url_crate_scheme \<Rightarrow> input \<Rightarrow> task \<Rightarrow> session \<Rightarrow>
     (session \<times> task list) option" where
  "exec U L C i (Dial sr retry) s =
     (let (g, s) = dial_begin s in Some (s, [DialNet g (cfg s) sr retry]))"
| "exec U L C i (DialNet g c sr retry) s =
     Some (s, case dial_network U C c (in_first i) of
         HelloFailed e \<Rightarrow> dial_failed retry
       | HelloRelocate rel \<Rightarrow> [RelocateSet rel sr retry]
       | HelloOk \<Rightarrow> [DialRegister g sr retry])"
| "exec U L C i (DialRegister g sr retry) s =
     (let (r, s) = dial_register g s in
      Some (s, case r of Inl e \<Rightarrow> dial_failed retry
                 | Inr _ \<Rightarrow> [Read g, if sr then ResumeTrack retry else Resubscribe]))"
| "exec U L C i (RelocateSet rel sr retry) s = Some (relocate_endpoint rel s, [RelocateCheck sr retry])"
| "exec U L C i (RelocateCheck sr retry) s =
     Some (s, case relocate_check sr s of Inl e \<Rightarrow> dial_failed retry | Inr sr \<Rightarrow> [Dial sr retry])"
| "exec U L C i RetryDial s = Some (s, [SocketClosed (dial_gen s)])"
| "exec U L C i (SocketClosed g) s =
     (let (r, s) = on_socket_closed_section g (in_rand i) s in
      Some (s, case r of None \<Rightarrow> [] | Some (sr, d) \<Rightarrow> [BackoffSleep sr]))"
| "exec U L C i (BackoffSleep sr) s = Some (s, if intentional s then [] else [Dial sr True])"
| "exec U L C i (ResumeTrack retry) s =
     (let (r, s) = resume_wait_begin s in
      Some (s, case r of None \<Rightarrow> [Resubscribe] | Some (cmd, t) \<Rightarrow> [ResumeSend cmd t retry]))"
| "exec U L C i (ResumeSend cmd t retry) s =
     Some (send_then U cmd [ResumeAwait t retry] (dial_failed retry) s)"
| "exec U L C i (ResumeAwait t retry) s =
     map_option (\<lambda>res. (s, resume_answer res [Resubscribe] [ResumeAgain retry] (dial_failed retry)))
       (map_of (woken s) t)"
| "exec U L C i (ResumeAgain retry) s =
     Some (s, if intentional s then dial_failed retry else [ResumeTrack retry])"
| "exec U L C i Resubscribe s = (let (ds, s) = resubscribe_section s in Some (s, [SendSubs ds]))"
| "exec U L C i (SendSubs ds) s = (case ds of
       [] \<Rightarrow> Some (s, []) | d # ds \<Rightarrow> Some (send_then U (subscribe_cmd d) [SendSubs ds] [SendSubs ds] s))"
| "exec U L C i (Read g) s = Some (read_section U g (in_read i) s)"
| "exec U L C i (FlushQueue g p) s =
     (let (frames, s) = flush_section s in
      Some (s, if frames = [] then [Finish g p] else [FlushSend frames g p]))"
| "exec U L C i (FlushSend frames g p) s = (case frames of
       [] \<Rightarrow> Some (s, [FlushQueue g p])
     | f # fs \<Rightarrow> (let (r, s) = send_bin f s in
         Some (s, case r of Inr _ \<Rightarrow> [FlushSend fs g p] | Inl _ \<Rightarrow> [Finish g p])))"
| "exec U L C i (Finish g p) s = Some (finish_section p s, [Read g])"
| "exec U L C i AuthError s = Some (s, if refresh_auth (cfg s) then [AuthRefresh] else [AuthGiveUp])"
| "exec U L C i AuthGiveUp s = Some (auth_no_refresh s, [])"
| "exec U L C i AuthRefresh s = Some (case in_refresh i of
       None \<Rightarrow> (auth_refresh_failed s, [])
     | Some (d, l) \<Rightarrow>
         (let (sr, closed, s) = auth_refreshed d l s in (s, if closed then [] else [Dial sr False])))"
| "exec U L C i (Publish p) s =
     (let (cmd, s) = publish_begin (in_wall i) (in_wall2 i) p s in
      Some (s, case cmd of None \<Rightarrow> [PublishRun p] | Some c \<Rightarrow> [PublishStart c]))"
| "exec U L C i (PublishStart cmd) s = Some (send_then U cmd [] [PublishStartFailed] s)"
| "exec U L C i PublishStartFailed s = Some (start_sent_failed s, [])"
| "exec U L C i (PublishRun p) s =
     (let (out, s) = publish_section L (in_now i) (in_wall i) (in_clock i) p s in
      Some (s, case out of Live seq p \<Rightarrow> [Send (live_cmd seq p)] | _ \<Rightarrow> []))"
| "exec U L C i (Send cmd) s = Some (send_then U cmd [] [] s)"
| "exec U L C i (StartTrack loc route metadata) s =
     (let (t, s) = start_track_begin (in_wall i) loc s in
      Some (s, [StartSend (start_track_cmd (in_wall2 i) loc route metadata)]))"
| "exec U L C i (StartSend cmd) s = Some (send_then U cmd [] [StartFailed] s)"
| "exec U L C i StartFailed s = Some (start_track_failed s, [])"
| "exec U L C i (ResumeCall uid seq) s =
     (let (t, s) = resume_begin uid seq s in Some (s, [ResumeCallSend uid seq t]))"
| "exec U L C i (ResumeCallSend uid seq t) s =
     Some (send_then U (Resume uid seq) [ResumeCallAwait uid seq t] [ResumeCallFailed] s)"
| "exec U L C i ResumeCallFailed s = Some (resume_failed s, [])"
| "exec U L C i (ResumeCallAwait uid seq t) s =
     map_option (\<lambda>res. (s, resume_answer res [] [ResumeCall uid seq] [])) (map_of (woken s) t)"
| "exec U L C i (StopTrack uid) s =
     Some (s, case stop_track_target uid s of None \<Rightarrow> [] | Some u \<Rightarrow> [StopBegin u])"
| "exec U L C i (StopBegin u) s = (let (t, s) = stop_track_begin s in Some (s, [StopSend u]))"
| "exec U L C i (StopSend u) s = Some (send_then U (TrackStop u) [] [StopFailed] s)"
| "exec U L C i StopFailed s = Some (stop_track_failed s, [])"
| "exec U L C i (SendEvent payload) s =
     (let (out, s) = send_event_section (in_now i) payload s in
      Some (s, if out = EventSend then [SendEventCmd payload] else []))"
| "exec U L C i (SendEventCmd payload) s = Some (send_then U (event_cmd (in_wall i) payload) [] [] s)"
| "exec U L C i (SubscribeCall uid) s = Some (subscribe_section uid s, [Send (subscribe_cmd uid)])"
| "exec U L C i (UnsubscribeCall uid) s =
     (let (sub, s) = unsubscribe_section uid s in
      Some (s, case sub of None \<Rightarrow> [] | Some h \<Rightarrow> [Send (Unsubscribe h)]))"
| "exec U L C i CloseCall s =
     Some (s, case close_cmd s of None \<Rightarrow> [CloseRun] | Some c \<Rightarrow> [CloseSend c])"
| "exec U L C i (CloseSend cmd) s = Some (send_then U cmd [CloseRun] [CloseRun] s)"
| "exec U L C i CloseRun s = (let (tx, s) = close_section s in Some (s, [CloseTx tx]))"
| "exec U L C i (CloseTx tx) s = Some (close_socket tx s, [])"
| "exec U L C i Recv s = (let (e, s) = recv_section s in Some (s, []))"
| "exec U L C i RecvCommand s = (let (c, s) = recv_command_section s in Some (s, []))"

section \<open>Runs\<close>

type_synonym client = "session \<times> task list"

text \<open>
  A guard on what the environment may do: \<open>started s\<close>, a TrackStarted event may arrive in
  \<open>s\<close>; \<open>resumed n s\<close>, the user may call \<^verbatim>\<open>resume\<close> with \<open>n\<close> in \<open>s\<close>; \<open>room s\<close>, any
  task may run in \<open>s\<close>. Without restriction all three are true.
\<close>

definition allowed ::
    "(session \<Rightarrow> bool) \<Rightarrow> (u64 \<Rightarrow> session \<Rightarrow> bool) \<Rightarrow> (session \<Rightarrow> bool) \<Rightarrow> uuid_crate \<Rightarrow> input \<Rightarrow> task \<Rightarrow>
     session \<Rightarrow> bool" where
  "allowed started resumed room U i t s \<longleftrightarrow> room s \<and> (case t of
       ResumeCall _ n \<Rightarrow> resumed n s
     | Read _ \<Rightarrow> (case in_read i of
           ReadBinary b \<Rightarrow> (case decode_server_evt U b of
               Inr (Some (TrackStarted _ _)) \<Rightarrow> started s | _ \<Rightarrow> True)
         | _ \<Rightarrow> True)
     | _ \<Rightarrow> True)"

inductive step ::
    "(input \<Rightarrow> task \<Rightarrow> session \<Rightarrow> bool) \<Rightarrow> uuid_crate \<Rightarrow> libm \<Rightarrow> ('u, 'z) url_crate_scheme \<Rightarrow>
     client \<Rightarrow> client \<Rightarrow> bool"
  for G U L C where
  run: "k < length ts \<Longrightarrow> G i (ts ! k) s \<Longrightarrow> exec U L C i (ts ! k) s = Some (s', new) \<Longrightarrow>
        step G U L C (s, ts) (s', remove_nth k ts @ new)"
| call: "is_call t \<Longrightarrow> step G U L C (s, ts) (s, ts @ [t])"
| writer_ends: "step G U L C (s, ts) (s\<lparr>dead := g # dead s\<rparr>, ts)"

abbreviation any_input :: "input \<Rightarrow> task \<Rightarrow> session \<Rightarrow> bool" where
  "any_input \<equiv> \<lambda>i t s. True"

definition client_init :: "session \<Rightarrow> client" where
  "client_init s = (s, [Dial False False])"

inductive reach ::
    "(input \<Rightarrow> task \<Rightarrow> session \<Rightarrow> bool) \<Rightarrow> uuid_crate \<Rightarrow> libm \<Rightarrow> ('u, 'z) url_crate_scheme \<Rightarrow>
     client \<Rightarrow> client \<Rightarrow> bool"
  for G U L C where
  start: "reach G U L C c c"
| more: "reach G U L C c c1 \<Longrightarrow> step G U L C c1 c2 \<Longrightarrow> reach G U L C c c2"

inductive_cases stepE: "step G U L C c c'"

end
