(* ===== verification/Session_Kept.thy ===== *)
theory Session_Kept
  imports Session_Steps
begin

text \<open>
  The locale \<open>kept\<close>: a property \<open>P\<close> of the session that every critical section keeps. Inside
  it, once and for all: \<open>P\<close> is kept by every task step, by every step of the client, and along
  every run. Each invariant of the client is an interpretation. The locale \<open>queue_kept\<close> is
  the contract for the properties that only speak of the queue and the last assigned number:
  it asks for the queue's operations alone, and gives a \<open>kept\<close>.
\<close>

locale kept =
  fixes P :: "session \<Rightarrow> bool"
    and started :: "session \<Rightarrow> bool" and resumed :: "u64 \<Rightarrow> session \<Rightarrow> bool" and room :: "session \<Rightarrow> bool"
  assumes sends: "P s \<Longrightarrow> send_bin b s = (r, s') \<Longrightarrow> P s'"
    and wakes: "P s \<Longrightarrow> P (wake w res s)"
    and notifies: "P s \<Longrightarrow> P (notify e s)"
    and deads: "P s \<Longrightarrow> P (s\<lparr>dead := g # dead s\<rparr>)"
    and dials: "P s \<Longrightarrow> dial_begin s = (g, s') \<Longrightarrow> P s'"
    and registers: "P s \<Longrightarrow> dial_register g s = (r1, s') \<Longrightarrow> P s'"
    and relocates: "P s \<Longrightarrow> P (relocate_endpoint rel s)"
    and resubscribes: "P s \<Longrightarrow> resubscribe_section s = (ds, s') \<Longrightarrow> P s'"
    and resume_waits: "P s \<Longrightarrow> resume_wait_begin s = (rw, s') \<Longrightarrow> P s'"
    and socket_closes: "P s \<Longrightarrow> on_socket_closed_section g x s = (rc, s') \<Longrightarrow> P s'"
    and gives_up: "P s \<Longrightarrow> P (auth_no_refresh s)"
    and refreshes: "P s \<Longrightarrow> auth_refreshed d l s = (sr, cl, s') \<Longrightarrow> P s'"
    and refresh_fails: "P s \<Longrightarrow> P (auth_refresh_failed s)"
    and resume_oks: "P s \<Longrightarrow> on_resume_ok uid a s = (w, s') \<Longrightarrow> P s'"
    and track_starts: "P s \<Longrightarrow> started s \<Longrightarrow> on_track_started uid s = (w, s') \<Longrightarrow> P s'"
    and track_stops: "P s \<Longrightarrow> on_track_stopped uid s = (w, s') \<Longrightarrow> P s'"
    and acks: "P s \<Longrightarrow> P (on_ack a s)"
    and errors: "P s \<Longrightarrow> P (on_error err s)"
    and subscribed: "P s \<Longrightarrow> P (on_subscribed sub uid s)"
    and commands: "P s \<Longrightarrow> P (on_command uid payload ts s)"
    and flushes: "P s \<Longrightarrow> room s \<Longrightarrow> flush_section s = (frames, s') \<Longrightarrow> P s'"
    and publish_begins: "P s \<Longrightarrow> publish_begin w1 w2 p s = (cmd, s') \<Longrightarrow> P s'"
    and publish_fails: "P s \<Longrightarrow> P (start_sent_failed s)"
    and publishes: "P s \<Longrightarrow> room s \<Longrightarrow> publish_section L now w1 w2 p s = (po, s') \<Longrightarrow> P s'"
    and start_begins: "P s \<Longrightarrow> start_track_begin w1 loc s = (t, s') \<Longrightarrow> P s'"
    and start_fails: "P s \<Longrightarrow> P (start_track_failed s)"
    and resumes: "P s \<Longrightarrow> resumed n s \<Longrightarrow> resume_begin uid n s = (t, s') \<Longrightarrow> P s'"
    and resume_fails: "P s \<Longrightarrow> P (resume_failed s)"
    and stop_begins: "P s \<Longrightarrow> stop_track_begin s = (t, s') \<Longrightarrow> P s'"
    and stop_fails: "P s \<Longrightarrow> P (stop_track_failed s)"
    and send_events: "P s \<Longrightarrow> send_event_section now payload s = (eo, s') \<Longrightarrow> P s'"
    and subscribes: "P s \<Longrightarrow> P (subscribe_section uid s)"
    and unsubscribes: "P s \<Longrightarrow> unsubscribe_section uid s = (h, s') \<Longrightarrow> P s'"
    and closes: "P s \<Longrightarrow> close_section s = (tx, s') \<Longrightarrow> P s'"
    and close_sockets: "P s \<Longrightarrow> P (close_socket tx s)"
    and recvs: "P s \<Longrightarrow> recv_section s = (ev, s') \<Longrightarrow> P s'"
    and recv_commands: "P s \<Longrightarrow> recv_command_section s = (c, s') \<Longrightarrow> P s'"
begin

lemma send_thens: "P s \<Longrightarrow> send_then U cmd ok failed s = (s', new) \<Longrightarrow> P s'"
  by (auto simp: send_then_def send_cmd_def Let_def split: prod.splits dest: sends)

lemma finishes: "P s \<Longrightarrow> P (finish_section p s)"
  by (cases p) (auto simp: finish_section_def Let_def split: option.splits intro: wakes notifies)

lemma fanouts: "P s \<Longrightarrow> P (on_fanout msg sub s)"
  by (simp add: on_fanout_def notifies)

lemma dispatches:
  assumes "P s" and "dispatch_section g msg s = (s', new)"
    and "(\<exists>uid m. msg = TrackStarted uid m) \<Longrightarrow> started s"
  shows "P s'"
  using assms
  by (cases msg)
    (auto simp: dispatch_section_def Let_def split: prod.splits
      dest: resume_oks track_starts track_stops intro: acks errors subscribed commands fanouts)

lemma reads:
  assumes "P s" and "read_section U g f s = (s', new)"
    and "\<And>b uid m. f = ReadBinary b \<Longrightarrow> decode_server_evt U b = Inr (Some (TrackStarted uid m)) \<Longrightarrow> started s"
  shows "P s'"
proof (cases f)
  case (ReadBinary b)
  show ?thesis
  proof (cases "\<exists>msg. decode_server_evt U b = Inr (Some msg)")
    case True
    then obtain msg where m: "decode_server_evt U b = Inr (Some msg)" by blast
    with assms(2) ReadBinary have "dispatch_section g msg s = (s', new)" by (simp add: read_section_def)
    with assms(1) show ?thesis by (rule dispatches) (use assms(3) ReadBinary m in auto)
  next
    case False
    with assms ReadBinary show ?thesis by (auto simp: read_section_def split: sum.splits option.splits)
  qed
qed (use assms in \<open>auto simp: read_section_def\<close>)

lemma allowed_started:
  "allowed started resumed room U i (Read g) s \<Longrightarrow> in_read i = ReadBinary b \<Longrightarrow>
   decode_server_evt U b = Inr (Some (TrackStarted uid m)) \<Longrightarrow> started s"
  by (simp add: allowed_def)

lemma exec_keeps:
  assumes "P s" and G: "allowed started resumed room U i t s" and e: "exec U L C i t s = Some (s', new)"
  shows "P s'"
proof (cases t)
  case (Read g)
  with e have "read_section U g (in_read i) s = (s', new)" by simp
  with \<open>P s\<close> show ?thesis by (rule reads) (use G Read allowed_started in blast)
next
  case (ResumeCall uid n)
  with G have "resumed n s" by (simp add: allowed_def)
  with \<open>P s\<close> e ResumeCall show ?thesis by (auto simp: Let_def split: prod.splits dest: resumes)
next
  case (FlushQueue g p)
  with G have "room s" by (simp add: allowed_def)
  with \<open>P s\<close> e FlushQueue show ?thesis by (auto simp: Let_def split: prod.splits dest: flushes)
next
  case (PublishRun p)
  with G have "room s" by (simp add: allowed_def)
  with \<open>P s\<close> e PublishRun show ?thesis by (auto simp: Let_def split: prod.splits dest: publishes)
next
  case (AuthRefresh)
  with \<open>P s\<close> e show ?thesis
    by (auto simp: Let_def split: prod.splits option.splits dest: refreshes intro: refresh_fails)
next
  case (FlushSend frames g p)
  with \<open>P s\<close> e show ?thesis by (auto simp: Let_def split: prod.splits list.splits dest: sends)
next
  case (SendSubs ds)
  with \<open>P s\<close> e show ?thesis by (auto split: list.splits dest: send_thens)
qed (use \<open>P s\<close> e in
    \<open>auto simp: Let_def split: prod.splits dest: send_thens dials registers resubscribes resume_waits
       socket_closes publish_begins start_begins stop_begins send_events unsubscribes closes recvs
       recv_commands intro: relocates gives_up publish_fails start_fails resume_fails stop_fails subscribes
       close_sockets finishes\<close>)

lemma step_keeps:
  "step (allowed started resumed room U) U L C c c' \<Longrightarrow> P (fst c) \<Longrightarrow> P (fst c')"
  by (induction rule: step.induct) (auto intro: exec_keeps deads)

theorem reach_keeps:
  "reach (allowed started resumed room U) U L C c c' \<Longrightarrow> P (fst c) \<Longrightarrow> P (fst c')"
  by (induction rule: reach.induct) (auto intro: step_keeps)

end

text \<open>The properties that no environment can break are kept along every run.\<close>

lemma allowed_any [simp]: "allowed (\<lambda>_. True) (\<lambda>_ _. True) (\<lambda>_. True) U = any_input"
  by (auto simp: allowed_def fun_eq_iff split: task.splits read_frame.splits sum.splits option.splits server_evt.splits)

section \<open>Properties of the queue\<close>

locale queue_kept =
  fixes Q :: "u64 \<Rightarrow> offline_queue \<Rightarrow> bool"
    and st :: "offline_queue \<Rightarrow> bool" and rs :: "u64 \<Rightarrow> u64 \<Rightarrow> offline_queue \<Rightarrow> bool" and rm :: "u64 \<Rightarrow> bool"
  assumes staged: "Q n q \<Longrightarrow> Q n (push_staging L p q)"
    and assigned: "Q n q \<Longrightarrow> rm n \<Longrightarrow> k \<le> 800 \<Longrightarrow> assign_from_staging k n q = (out, q') \<Longrightarrow>
       Q (if out = [] then n else q_seq (last out)) q'"
    and recorded: "Q n q \<Longrightarrow> \<not> window_full q \<Longrightarrow> Q n (record_frame f q)"
    and live_sent: "Q n q \<Longrightarrow> \<not> window_full q \<Longrightarrow> rm n \<Longrightarrow> enqueue L (n + 1) p q = (d, q') \<Longrightarrow>
       Q (n + 1) (record_frame (n + 1) q')"
    and acked: "Q n q \<Longrightarrow> Q n (ack_through a q)"
    and resynced: "Q n q \<Longrightarrow> n < a \<Longrightarrow> Q a (ack_through a q)"
    and unmarked: "Q n q \<Longrightarrow> Q n (mark_unsent q)"
    and cleared: "Q n q \<Longrightarrow> Q m (queue_clear q)"
    and started_over: "Q n q \<Longrightarrow> st q \<Longrightarrow> Q 0 q"
    and resumed_at: "Q n q \<Longrightarrow> rs m n q \<Longrightarrow> Q m q"
begin

definition holds :: "session \<Rightarrow> bool" where
  "holds s \<longleftrightarrow> Q (assigned_seq s) (queue s)"

lemma holds_same: "assigned_seq s' = assigned_seq s \<Longrightarrow> queue s' = queue s \<Longrightarrow> holds s \<Longrightarrow> holds s'"
  by (simp add: holds_def)

lemma take_frames_keeps: "take_frames k l fs q = (out, q') \<Longrightarrow> Q n q \<Longrightarrow> Q n q'"
proof (induction k l fs q arbitrary: out q' rule: take_frames.induct)
  case (2 k l f fs q)
  then show ?case by (auto simp: Let_def split: if_splits prod.splits intro: recorded)
qed simp

lemma flush_keeps:
  assumes "holds s" and "rm (assigned_seq s)" and "flush_section s = (frames, s')"
  shows "holds s'"
proof (cases "session_ready s \<and> conn s = Open \<and> out_tx s \<noteq> None \<and> window_remaining (queue s) \<noteq> 0")
  case False
  with assms show ?thesis by (auto simp: flush_section_def Let_def split: if_splits)
next
  case True
  obtain l ps s1 where b: "flush_batch (window_remaining (queue s)) s = (l, ps, s1)"
    by (metis prod.exhaust)
  have "holds s1"
  proof (cases "unsent_inflight (queue s) = []")
    case False
    with b assms(1) show ?thesis by (auto simp: flush_batch_def Let_def)
  next
    case none: True
    let ?k = "min (staging_len (queue s)) (100 * window_remaining (queue s))"
    obtain out q where a: "assign_from_staging ?k (assigned_seq s) (queue s) = (out, q)" by fastforce
    have "?k \<le> 800" by (simp add: window_remaining_def MAX_UNACKED_FRAMES_def)
    from assigned [OF assms(1) [unfolded holds_def] assms(2) this a] b none a
    show ?thesis by (auto simp: flush_batch_def Let_def holds_def split: if_splits)
  qed
  with b True assms(3) show ?thesis
    by (auto simp: flush_section_def Let_def holds_def split: if_splits prod.splits dest: take_frames_keeps)
qed

lemma publish_keeps:
  assumes "holds s" and "rm (assigned_seq s)" and "publish_section L now w1 w2 p s = (po, s')"
  shows "holds s'"
  using assms
  by (auto simp: publish_section_def Let_def holds_def can_send_live_def
      split: if_splits prod.splits option.splits intro: staged dest: live_sent)

end

text \<open>Waiting calls and the close message touch neither the queue nor the numbering.\<close>

lemma wake_queue [simp]: "queue (wake w r s) = queue s" "assigned_seq (wake w r s) = assigned_seq s"
  by (cases w; simp add: wake_def)+

lemma hang_up_queue [simp]: "queue (hang_up s) = queue s" "assigned_seq (hang_up s) = assigned_seq s"
  by (cases "out_tx s"; simp add: hang_up_def)+

lemmas wait_defs = take_start_wait_def take_stop_wait_def take_resume_wait_def drop_start_wait_def
  drop_stop_wait_def drop_resume_wait_def

lemma drop_queue [simp]:
  "queue (drop_start_wait s) = queue s" "assigned_seq (drop_start_wait s) = assigned_seq s"
  "queue (drop_stop_wait s) = queue s" "assigned_seq (drop_stop_wait s) = assigned_seq s"
  "queue (drop_resume_wait s) = queue s" "assigned_seq (drop_resume_wait s) = assigned_seq s"
  by (simp_all add: wait_defs)

lemma reject_queue [simp]:
  "queue (reject_pending_locked e s) = queue s"
  "assigned_seq (reject_pending_locked e s) = assigned_seq s"
  by (simp_all add: reject_pending_locked_def wait_defs Let_def)

lemma new_wait_queue:
  "new_start_wait s = (t, s') \<Longrightarrow> queue s' = queue s \<and> assigned_seq s' = assigned_seq s"
  "new_stop_wait s = (t, s') \<Longrightarrow> queue s' = queue s \<and> assigned_seq s' = assigned_seq s"
  "new_resume_wait s = (t, s') \<Longrightarrow> queue s' = queue s \<and> assigned_seq s' = assigned_seq s"
  by (auto simp: new_start_wait_def new_stop_wait_def new_resume_wait_def Let_def)

lemma clear_clear [simp]: "queue_clear (queue_clear q) = queue_clear q"
  by (simp add: queue_clear_def)

text \<open>An error event clears the queue or leaves it.\<close>

definition error_waits :: "error \<Rightarrow> session \<Rightarrow> session" where
  "error_waits e s =
     (let s = (case start_wait s of
                 None \<Rightarrow> s
               | Some t \<Rightarrow> wake (Some t) (Some (Inl e)) (s\<lparr>start_wait := None, starting := False\<rparr>))
      in case stop_wait s of
           None \<Rightarrow> s
         | Some t \<Rightarrow> wake (Some t) (Some (Inl e)) (s\<lparr>stop_wait := None\<rparr>))"

definition error_resume :: "error \<Rightarrow> session \<Rightarrow> session" where
  "error_resume e s = (case resume_wait s of
       None \<Rightarrow> s
     | Some t \<Rightarrow>
         let s = s\<lparr>resume_wait := None\<rparr>;
             s = (if is_fatal_resume_error (err_code e)
                  then s\<lparr>track_uid := [], queue := queue_clear (queue s), session_ready := False,
                         gps := filter_reset (gps s)\<rparr>
                  else s)
         in wake (Some t) (Some (Inl e)) s)"

lemma on_error_eq:
  "on_error e s =
     (let s = error_waits e (error_resume e s)
      in if err_code e = TrackNotFound \<and> resume_wait s = None
         then s\<lparr>track_uid := [], queue := queue_clear (queue s), session_ready := False, starting := False\<rparr>
         else s)"
  by (simp only: on_error_def error_waits_def error_resume_def Let_def)

lemma error_parts_queue:
  "queue (error_waits e s) = queue s" "assigned_seq (error_waits e s) = assigned_seq s"
  "queue (error_resume e s) = queue s \<or> queue (error_resume e s) = queue_clear (queue s)"
  "assigned_seq (error_resume e s) = assigned_seq s"
  by (auto simp: error_waits_def error_resume_def Let_def split: option.splits)

lemma on_error_queue:
  "queue (on_error e s) = queue s \<or> queue (on_error e s) = queue_clear (queue s)"
  "assigned_seq (on_error e s) = assigned_seq s"
  using error_parts_queue(3) [of e s] by (elim disjE; simp add: on_error_eq Let_def error_parts_queue)+

text \<open>The sections that leave the queue and the numbering alone.\<close>

lemma hold_sections:
  "send_bin b s = (r, s') \<Longrightarrow> queue s' = queue s \<and> assigned_seq s' = assigned_seq s"
  "dial_begin s = (g, s') \<Longrightarrow> queue s' = queue s \<and> assigned_seq s' = assigned_seq s"
  "dial_register g s = (r, s') \<Longrightarrow> queue s' = queue s \<and> assigned_seq s' = assigned_seq s"
  "resubscribe_section s = (ds, s') \<Longrightarrow> queue s' = queue s \<and> assigned_seq s' = assigned_seq s"
  "resume_wait_begin s = (rw, s') \<Longrightarrow> queue s' = queue s \<and> assigned_seq s' = assigned_seq s"
  "auth_refreshed d l s = (sr, cl, s') \<Longrightarrow> queue s' = queue s \<and> assigned_seq s' = assigned_seq s"
  "stop_track_begin s = (t, s') \<Longrightarrow> queue s' = queue s \<and> assigned_seq s' = assigned_seq s"
  "send_event_section now payload s = (eo, s') \<Longrightarrow> queue s' = queue s \<and> assigned_seq s' = assigned_seq s"
  "unsubscribe_section uid s = (h, s') \<Longrightarrow> queue s' = queue s \<and> assigned_seq s' = assigned_seq s"
  "close_section s = (tx, s') \<Longrightarrow> queue s' = queue s \<and> assigned_seq s' = assigned_seq s"
  "recv_section s = (ev, s') \<Longrightarrow> queue s' = queue s \<and> assigned_seq s' = assigned_seq s"
  "recv_command_section s = (c, s') \<Longrightarrow> queue s' = queue s \<and> assigned_seq s' = assigned_seq s"
  by (auto simp: send_bin_def dial_begin_def dial_register_def resubscribe_section_def
      resume_wait_begin_def auth_refreshed_def stop_track_begin_def send_event_section_def
      unsubscribe_section_def close_section_def recv_section_def recv_command_section_def Let_def
      dest: new_wait_queue split: if_splits option.splits list.splits prod.splits)

lemma hold_updates:
  "queue (notify e s) = queue s" "assigned_seq (notify e s) = assigned_seq s"
  "queue (relocate_endpoint rel s) = queue s" "assigned_seq (relocate_endpoint rel s) = assigned_seq s"
  "queue (auth_no_refresh s) = queue s" "assigned_seq (auth_no_refresh s) = assigned_seq s"
  "queue (auth_refresh_failed s) = queue s" "assigned_seq (auth_refresh_failed s) = assigned_seq s"
  "queue (on_subscribed sub uid s) = queue s" "assigned_seq (on_subscribed sub uid s) = assigned_seq s"
  "queue (on_command uid p ts s) = queue s" "assigned_seq (on_command uid p ts s) = assigned_seq s"
  "queue (start_sent_failed s) = queue s" "assigned_seq (start_sent_failed s) = assigned_seq s"
  "queue (start_track_failed s) = queue s" "assigned_seq (start_track_failed s) = assigned_seq s"
  "queue (resume_failed s) = queue s" "assigned_seq (resume_failed s) = assigned_seq s"
  "queue (stop_track_failed s) = queue s" "assigned_seq (stop_track_failed s) = assigned_seq s"
  "queue (subscribe_section uid s) = queue s" "assigned_seq (subscribe_section uid s) = assigned_seq s"
  "queue (close_socket tx s) = queue s" "assigned_seq (close_socket tx s) = assigned_seq s"
  by (auto simp: notify_def relocate_endpoint_def auth_no_refresh_def auth_refresh_failed_def
      on_subscribed_def on_command_def start_sent_failed_def start_track_failed_def resume_failed_def
      stop_track_failed_def subscribe_section_def close_socket_def split: option.splits)

text \<open>What the others do to them.\<close>

lemma track_sections:
  "on_track_started uid s = (w, s') \<Longrightarrow> queue s' = queue s \<and> assigned_seq s' = 0"
  "on_track_stopped uid s = (w, s') \<Longrightarrow>
     (queue s' = queue s \<or> queue s' = queue_clear (queue s)) \<and> assigned_seq s' = assigned_seq s"
  "publish_begin w1 w2 p s = (cmd, s') \<Longrightarrow>
     queue s' = queue s \<and> assigned_seq s' = assigned_seq s \<or> queue s' = queue_clear (queue s)"
  "start_track_begin w1 loc s = (t, s') \<Longrightarrow> queue s' = queue_clear (queue s)"
  "resume_begin uid n s = (t, s') \<Longrightarrow> queue s' = queue s \<and> assigned_seq s' = n"
  "on_socket_closed_section g x s = (rc, s') \<Longrightarrow>
     (queue s' = queue s \<or> queue s' = mark_unsent (queue s)) \<and> assigned_seq s' = assigned_seq s"
  "on_resume_ok uid a s = (w, s') \<Longrightarrow> queue s' = ack_through a (queue s) \<and>
     assigned_seq s' = (if assigned_seq s < a then a else assigned_seq s)"
  by (auto simp: on_track_started_def on_track_stopped_def publish_begin_def start_track_begin_def
      resume_begin_def on_socket_closed_section_def on_resume_ok_def take_start_wait_def take_stop_wait_def
      take_resume_wait_def Let_def
      dest: new_wait_queue split: if_splits option.splits prod.splits)

lemma on_ack_queue: "queue (on_ack a s) = ack_through a (queue s)" "assigned_seq (on_ack a s) = assigned_seq s"
  by (simp_all add: on_ack_def Let_def)

context queue_kept
begin

lemma error_keeps: "Q (assigned_seq s) (queue s) \<Longrightarrow> Q (assigned_seq (on_error e s)) (queue (on_error e s))"
  using on_error_queue [of e s] by (auto simp: cleared)

lemma section_keeps:
  "Q (assigned_seq s) (queue s) \<Longrightarrow> queue s' = queue s \<and> assigned_seq s' = assigned_seq s \<Longrightarrow>
   Q (assigned_seq s') (queue s')"
  by simp

end

sublocale queue_kept \<subseteq> kept holds "\<lambda>s. st (queue s)" "\<lambda>m s. rs m (assigned_seq s) (queue s)"
  "\<lambda>s. rm (assigned_seq s)"
  by (unfold_locales; unfold holds_def)
    (auto simp: hold_updates on_ack_queue acked resynced cleared unmarked started_over resumed_at
      split: if_splits dest!: hold_sections track_sections
      dest: flush_keeps [unfolded holds_def] publish_keeps [unfolded holds_def] intro: error_keeps)

end
