(* ===== verification/Session_Inv.thy ===== *)
theory Session_Inv
  imports Session_Kept
begin

text \<open>
  The invariants of the tracking client. Of the queue: the send window and the cap hold in
  every reachable state, a sample marked as sent is always covered by a frame that is still
  to be acknowledged, and, as long as the server starts tracks only when nothing is in flight
  and the user resumes consistently, in-flight numbers are consecutive, end at the last
  assigned one, and what is sent comes before what is not. Of the session: once closed by
  the user, no frame reaches any socket, whatever tasks are still running.
\<close>

section \<open>Window and cap\<close>

interpretation bounded: queue_kept
  "\<lambda>n q. max_size q = M \<and> length (sent_frame_seqs q) \<le> MAX_UNACKED_FRAMES \<and> queue_size q \<le> M"
  "\<lambda>_. True" "\<lambda>_ _ _. True" "\<lambda>_. True" for M
proof (unfold_locales, goal_cases)
  case (1 n q L p)
  then show ?case by (simp add: push.cap_add push.size_add) (simp add: push_staging_def)
next
  case (2 n q k out q')
  then show ?case by (auto simp: assign_from_staging_eq queue_size_def)
next
  case (3 n q f)
  then show ?case by (simp add: window_full_def)
next
  case (4 n q L p d q')
  then have q': "q' = snd (enqueue L (n + 1) p q)" by simp
  have "max_size q' = max_size q" "queue_size q' = min (Suc (queue_size q)) (max_size q)"
    using enq.cap_add [of L "(n + 1, p)" q] enq.size_add [of L "(n + 1, p)" q] q' by simp_all
  moreover have "sent_frame_seqs q' = sent_frame_seqs q" by (simp add: q' enqueue_def Let_def)
  ultimately show ?case using 4 by (simp add: window_full_def)
next
  case (5 n q a)
  then show ?case using ack_size [of a q] ack_window [of a q] by simp
next
  case (6 n q a)
  then show ?case using ack_size [of a q] ack_window [of a q] by simp
next
  case (8 n q m)
  then show ?case by (simp add: queue_clear_def queue_size_def)
qed simp_all

section \<open>Sent samples are covered\<close>

definition covered :: "offline_queue \<Rightarrow> bool" where
  "covered q \<longleftrightarrow> list_all (\<lambda>p. q_sent p \<longrightarrow> list_ex (\<lambda>f. q_seq p \<le> f) (sent_frame_seqs q)) (inflight q)"

lemma covered_iff: "covered q \<longleftrightarrow> (\<forall>p \<in> set (inflight q). q_sent p \<longrightarrow> (\<exists>f \<in> set (sent_frame_seqs q). q_seq p \<le> f))"
  by (simp add: covered_def list_all_iff list_ex_iff)

lemma covered_drop:
  "covered q \<Longrightarrow> inflight q' = drop k (inflight q) \<Longrightarrow> sent_frame_seqs q' = sent_frame_seqs q \<Longrightarrow> covered q'"
  by (auto simp: covered_iff dest: in_set_dropD)

lemma covered_record: "covered q \<Longrightarrow> covered (record_frame f q)"
  by (fastforce simp: covered_iff record_frame_def)

interpretation covered: queue_kept "\<lambda>n q. covered q" "\<lambda>_. True" "\<lambda>_ _ _. True" "\<lambda>_. True"
proof (unfold_locales, goal_cases)
  case (1 n q L p)
  obtain k where "inflight (push_staging L p q) = drop k (inflight q)"
    using enforce_cap_inflight [of L "q\<lparr>staging := staging q @ [p]\<rparr>"] by (auto simp: push_staging_def)
  with 1 show ?case by (rule covered_drop) (simp add: push_staging_def)
next
  case (2 n q k out q')
  then show ?case by (auto simp: assign_from_staging_eq covered_iff dest: number_points_unsent)
next
  case (3 n q f)
  then show ?case by (simp add: covered_record)
next
  case (4 n q L p d q')
  let ?x = "\<lparr>q_seq = n + 1, q_point = p, q_sent = True\<rparr>"
  obtain k where k: "inflight q' = drop k (inflight q @ [?x])" and f: "sent_frame_seqs q' = sent_frame_seqs q"
    using 4(4) enforce_cap_inflight [of L "q\<lparr>inflight := inflight q @ [?x]\<rparr>"]
    by (auto simp: enqueue_def Let_def)
  have "r \<in> set (inflight q') \<Longrightarrow> r \<in> set (inflight q) \<or> r = ?x" for r
    using k by (auto dest: in_set_dropD)
  with 4(1) f show ?case by (fastforce simp: covered_iff record_frame_def)
next
  case (5 n q a)
  then show ?case by (fastforce simp: covered_iff ack_through_def)
next
  case (6 n q a)
  then show ?case by (fastforce simp: covered_iff ack_through_def)
next
  case (7 n q)
  then show ?case by (auto simp: covered_iff mark_unsent_def)
next
  case (8 n q m)
  then show ?case by (simp add: covered_iff queue_clear_def)
qed simp_all

text \<open>With nothing outstanding, everything in flight is still to be sent.\<close>

lemma covered_empty_window: "covered q \<Longrightarrow> sent_frame_seqs q = [] \<Longrightarrow> unsent_inflight q = inflight q"
  by (auto simp: covered_iff unsent_inflight_def filter_id_conv)

section \<open>Numbering\<close>

fun sent_first :: "queued_point list \<Rightarrow> bool" where
  "sent_first [] = True"
| "sent_first (p # ps) = ((q_sent p \<or> list_all (\<lambda>r. \<not> q_sent r) ps) \<and> sent_first ps)"

lemma sent_first_drop: "sent_first ps \<Longrightarrow> sent_first (drop k ps)"
proof (induction k arbitrary: ps)
  case (Suc k)
  then show ?case by (cases ps) simp_all
qed simp

lemma sent_first_append: "sent_first ps \<Longrightarrow> list_all (\<lambda>r. \<not> q_sent r) rs \<Longrightarrow> sent_first (ps @ rs)"
proof (induction ps)
  case Nil
  then show ?case by (induction rs) simp_all
qed simp

lemma sent_first_unsent: "list_all (\<lambda>r. \<not> q_sent r) ps \<Longrightarrow> sent_first ps"
  by (induction ps) simp_all

lemma sent_first_record:
  "consecutive (map q_seq ps) \<Longrightarrow> sent_first ps \<Longrightarrow>
   sent_first (map (\<lambda>p. if q_seq p \<le> f then p\<lparr>q_sent := True\<rparr> else p) ps)"
proof (induction ps)
  case (Cons p ps)
  have c: "consecutive (map q_seq ps)" using Cons.prems(1) by (simp add: consecutive_Cons)
  show ?case
  proof (cases "q_seq p \<le> f \<or> q_sent p")
    case True
    with Cons c show ?thesis by auto
  next
    case False
    have "f < q_seq r" if "r \<in> set ps" for r
      using consecutive_less [of "q_seq p" "map q_seq ps" "q_seq r"] Cons.prems(1) that False by auto
    then have "map (\<lambda>p. if q_seq p \<le> f then p\<lparr>q_sent := True\<rparr> else p) ps = ps"
      by (intro map_idI) (simp add: linorder_not_le [symmetric])
    with False Cons.prems(2) show ?thesis by simp
  qed
qed simp

text \<open>The unsent samples are then the tail of what is in flight.\<close>

lemma sent_first_filter: "sent_first ps \<Longrightarrow> \<exists>k. filter (\<lambda>p. \<not> q_sent p) ps = drop k ps"
proof (induction ps)
  case (Cons p ps)
  show ?case
  proof (cases "q_sent p")
    case True
    with Cons obtain k where "filter (\<lambda>p. \<not> q_sent p) ps = drop k ps" by auto
    with True show ?thesis by (intro exI [of _ "Suc k"]) simp
  next
    case False
    with Cons.prems have "filter (\<lambda>p. \<not> q_sent p) (p # ps) = p # ps"
      by (intro filter_True) (auto simp: list_all_iff)
    then show ?thesis by (intro exI [of _ 0]) simp
  qed
qed simp

lemma sent_first_suffix_filter: "sent_first ps \<Longrightarrow> sent_first (filter P ps)"
  by (induction ps) (auto simp: list_all_iff)

definition in_order :: "u64 \<Rightarrow> offline_queue \<Rightarrow> bool" where
  "in_order n q \<longleftrightarrow> numbered n q \<and> sent_first (inflight q)"

lemma consecutive_le_last: "consecutive xs \<Longrightarrow> s \<in> set xs \<Longrightarrow> s \<le> last xs"
proof (induction xs)
  case (Cons x xs)
  show ?case
  proof (cases "xs = []")
    case False
    then have "last xs \<in> set xs" by simp
    with Cons False consecutive_less [of x xs "last xs"] show ?thesis
      by (auto simp: consecutive_Cons)
  qed (use Cons in simp)
qed simp

text \<open>A live sample: it gets the next number, and with it everything in flight counts as sent.\<close>

lemma live_numbered:
  assumes "in_order n q" and "unat n + 1000 < 2 ^ 64" and "enqueue L (n + 1) p q = (d, q')"
  shows "numbered (n + 1) q'"
proof -
  let ?x = "\<lparr>q_seq = n + 1, q_point = p, q_sent = True\<rparr>"
  let ?q = "q\<lparr>inflight := inflight q @ [?x]\<rparr>"
  obtain k where k: "inflight q' = drop k (inflight q @ [?x])"
    using assms(3) enforce_cap_inflight [of L ?q] by (auto simp: enqueue_def Let_def)
  have "seqs ?q = seqs q @ [n + 1]" by (simp add: seqs_def)
  then have "numbered (n + 1) ?q"
    using assms(1,2) unat_suc_u64 [of n] by (auto simp: in_order_def numbered_def intro!: consecutive_snoc)
  moreover have "seqs q' = drop k (seqs ?q)" by (simp add: seqs_def k flip: drop_map)
  ultimately show ?thesis by (rule numbered_drop)
qed

lemma live_all_sent:
  assumes "in_order n q" and "unat n + 1000 < 2 ^ 64" and "enqueue L (n + 1) p q = (d, q')"
  shows "list_all q_sent (inflight (record_frame (n + 1) q'))"
proof -
  have "q_seq r \<le> n + 1" if "r \<in> set (inflight q')" for r
    using live_numbered [OF assms] consecutive_le_last [of "seqs q'" "q_seq r"] that
    by (cases "seqs q' = []") (auto simp: numbered_def seqs_def)
  then show ?thesis by (auto simp: record_frame_def list_all_iff)
qed

interpretation in_order: queue_kept in_order
  "\<lambda>q. inflight q = []" "\<lambda>m n q. m = n \<or> inflight q = []" "\<lambda>n. unat n + 1000 < 2 ^ 64"
proof (unfold_locales, goal_cases)
  case (1 n q L p)
  obtain k where "inflight (push_staging L p q) = drop k (inflight q)"
    using enforce_cap_inflight [of L "q\<lparr>staging := staging q @ [p]\<rparr>"] by (auto simp: push_staging_def)
  with 1 show ?case by (simp add: in_order_def numbered_push_staging sent_first_drop)
next
  case (2 n q k out q')
  then have o: "out = number_points n (take k (staging q))"
    and i: "inflight q' = inflight q @ out" by (auto simp: assign_from_staging_eq)
  have num: "numbered (n + of_nat (length out)) q'"
    using 2 by (intro numbered_assign [of n q k]) (auto simp: in_order_def)
  then have "numbered (if out = [] then n else q_seq (last out)) q'"
    by (cases "out = []") (auto simp: numbered_def seqs_def i last_map)
  moreover have "sent_first (inflight q')"
    unfolding i using 2(1) o by (intro sent_first_append)
      (auto simp: in_order_def list_all_iff dest: number_points_unsent)
  ultimately show ?case by (simp add: in_order_def)
next
  case (3 n q f)
  then show ?case by (auto simp: in_order_def numbered_same [OF seqs_record_frame])
      (auto simp: record_frame_def numbered_def seqs_def intro: sent_first_record)
next
  case (4 n q L p d q')
  then have num: "numbered (n + 1) q'" and all: "list_all q_sent (inflight (record_frame (n + 1) q'))"
    using live_numbered live_all_sent by blast+
  have "sent_first ps" if "list_all q_sent ps" for ps using that by (induction ps) simp_all
  with all num show ?case by (auto simp: in_order_def numbered_same [OF seqs_record_frame])
next
  case (5 n q a)
  then show ?case by (simp add: in_order_def numbered_ack) (simp add: ack_through_def sent_first_suffix_filter)
next
  case (6 n q a)
  then have "seqs (ack_through a q) = []"
    using consecutive_le_last [of "seqs q"] by (fastforce simp: in_order_def numbered_def seqs_ack filter_empty_conv)
  then show ?case by (simp add: in_order_def numbered_def) (simp add: seqs_def)
next
  case (7 n q)
  then have "sent_first (inflight (mark_unsent q))"
    by (intro sent_first_unsent) (simp add: mark_unsent_def list_all_iff)
  with 7 show ?case by (simp add: in_order_def numbered_same [OF seqs_mark_unsent])
next
  case (8 n q m)
  then show ?case by (simp add: in_order_def numbered_clear) (simp add: queue_clear_def)
next
  case (9 n q)
  then show ?case by (simp add: in_order_def numbered_def seqs_def)
next
  case (10 n q m)
  then show ?case by (auto simp: in_order_def numbered_def seqs_def)
qed

section \<open>Silence after close\<close>

text \<open>The frames handed to any socket so far.\<close>

definition frames_sent :: "session \<Rightarrow> (u64 \<times> outbound) list" where
  "frames_sent s = filter (\<lambda>(g, out). out \<noteq> CloseSocket) (out_log s)"

definition silent :: "(u64 \<times> outbound) list \<Rightarrow> session \<Rightarrow> bool" where
  "silent sent s \<longleftrightarrow> intentional s \<and> out_tx s = None \<and> frames_sent s = sent"

lemma silent_same:
  "intentional s' = intentional s \<Longrightarrow> out_tx s' = out_tx s \<Longrightarrow> out_log s' = out_log s \<Longrightarrow>
   silent sent s \<Longrightarrow> silent sent s'"
  by (simp add: silent_def frames_sent_def)

text \<open>Sections that touch neither the sockets nor the user's intention.\<close>

definition same_sockets :: "session \<Rightarrow> session \<Rightarrow> bool" where
  "same_sockets s s' \<longleftrightarrow> intentional s' = intentional s \<and> out_tx s' = out_tx s \<and> out_log s' = out_log s"

lemma wake_sockets [simp]:
  "intentional (wake w r s) = intentional s" "out_tx (wake w r s) = out_tx s"
  "out_log (wake w r s) = out_log s"
  by (cases w; simp add: wake_def)+

lemmas new_wait_defs = new_start_wait_def new_stop_wait_def new_resume_wait_def wait_defs

lemma flush_sockets: "flush_section s = (frames, s') \<Longrightarrow> same_sockets s s'"
  by (auto simp: flush_section_def flush_batch_def same_sockets_def Let_def split: if_splits prod.splits)

lemma publish_sockets: "publish_section L now w1 w2 p s = (po, s') \<Longrightarrow> same_sockets s s'"
  by (auto simp: publish_section_def same_sockets_def Let_def split: if_splits prod.splits option.splits)

lemma error_sockets: "same_sockets s (on_error e s)"
  by (auto simp: on_error_eq error_waits_def error_resume_def same_sockets_def Let_def split: option.splits)

lemma track_sockets:
  "on_resume_ok uid a s = (w, s') \<Longrightarrow> same_sockets s s'"
  "on_track_started uid s = (w, s') \<Longrightarrow> same_sockets s s'"
  "on_track_stopped uid s = (w, s') \<Longrightarrow> same_sockets s s'"
  "publish_begin w1 w2 p s = (cmd, s') \<Longrightarrow> same_sockets s s'"
  "start_track_begin w1 loc s = (t, s') \<Longrightarrow> same_sockets s s'"
  "resume_begin uid n s = (t, s') \<Longrightarrow> same_sockets s s'"
  "resume_wait_begin s = (rw, s') \<Longrightarrow> same_sockets s s'"
  "stop_track_begin s = (t, s') \<Longrightarrow> same_sockets s s'"
  by (auto simp: on_resume_ok_def on_track_started_def on_track_stopped_def publish_begin_def
      start_track_begin_def resume_begin_def resume_wait_begin_def stop_track_begin_def new_wait_defs
      same_sockets_def Let_def split: if_splits option.splits prod.splits)

lemma other_sockets:
  "dial_begin s = (g, s') \<Longrightarrow> same_sockets s s'"
  "resubscribe_section s = (ds, s') \<Longrightarrow> same_sockets s s'"
  "send_event_section now payload s = (eo, s') \<Longrightarrow> same_sockets s s'"
  "unsubscribe_section uid s = (h, s') \<Longrightarrow> same_sockets s s'"
  "recv_section s = (ev, s') \<Longrightarrow> same_sockets s s'"
  "recv_command_section s = (c, s') \<Longrightarrow> same_sockets s s'"
  by (auto simp: dial_begin_def resubscribe_section_def send_event_section_def unsubscribe_section_def
      recv_section_def recv_command_section_def same_sockets_def Let_def split: if_splits list.splits)

lemma update_sockets:
  "same_sockets s (wake w res s)" "same_sockets s (notify e s)" "same_sockets s (s\<lparr>dead := ds\<rparr>)"
  "same_sockets s (relocate_endpoint rel s)" "same_sockets s (on_ack a s)"
  "same_sockets s (on_subscribed sub uid s)" "same_sockets s (on_command uid payload ts s)"
  "same_sockets s (start_sent_failed s)" "same_sockets s (start_track_failed s)"
  "same_sockets s (resume_failed s)" "same_sockets s (stop_track_failed s)"
  "same_sockets s (subscribe_section uid s)"
  by (auto simp: notify_def relocate_endpoint_def on_ack_def on_subscribed_def on_command_def
      start_sent_failed_def start_track_failed_def resume_failed_def stop_track_failed_def
      subscribe_section_def wait_defs same_sockets_def Let_def)

lemma silent_sockets: "silent sent s \<Longrightarrow> same_sockets s s' \<Longrightarrow> silent sent s'"
  by (simp add: same_sockets_def silent_def frames_sent_def)

lemma reject_sockets: "same_sockets s (reject_pending_locked e s)"
  by (simp add: reject_pending_locked_def wait_defs same_sockets_def Let_def)

text \<open>The sections that do, under silence.\<close>

lemma silent_sections:
  "silent sent s \<Longrightarrow> send_bin b s = (r, s') \<Longrightarrow> silent sent s'"
  "silent sent s \<Longrightarrow> dial_register g s = (r1, s') \<Longrightarrow> silent sent s'"
  "silent sent s \<Longrightarrow> on_socket_closed_section g x s = (rc, s') \<Longrightarrow> silent sent s'"
  "silent sent s \<Longrightarrow> auth_refreshed d l s = (sr, cl, s') \<Longrightarrow> silent sent s'"
  "silent sent s \<Longrightarrow> close_section s = (tx, s') \<Longrightarrow> silent sent s'"
  using reject_sockets
  by (auto simp: silent_def frames_sent_def send_bin_def dial_register_def on_socket_closed_section_def
      auth_refreshed_def hang_up_def close_section_def same_sockets_def Let_def split: if_splits option.splits)

lemma silent_updates:
  "silent sent s \<Longrightarrow> silent sent (auth_no_refresh s)"
  "silent sent s \<Longrightarrow> silent sent (auth_refresh_failed s)"
  "silent sent s \<Longrightarrow> silent sent (close_socket tx s)"
  by (auto simp: silent_def frames_sent_def auth_no_refresh_def hang_up_def auth_refresh_failed_def
      close_socket_def split: option.splits)

lemmas sockets_kept = flush_sockets publish_sockets track_sockets other_sockets

interpretation silent: kept "silent sent" "\<lambda>_. True" "\<lambda>_ _. True" "\<lambda>_. True" for sent
  by unfold_locales
    (blast intro: silent_sections silent_updates silent_sockets sockets_kept update_sockets error_sockets)+

lemma close_silent: "close_section s = (tx, s') \<Longrightarrow> silent (frames_sent s) s'"
  using reject_sockets [of "s\<lparr>intentional := True, conn := Closed, session_ready := False\<rparr>"
      "new_error Invalid ''client closed''"]
  by (auto simp: close_section_def silent_def frames_sent_def same_sockets_def Let_def)

end
