(* ===== verification/Session_Flush.thy ===== *)
theory Session_Flush
  imports Session_Inv
begin

text \<open>
  \<^verbatim>\<open>flush_queue\<close> (\<^verbatim>\<open>src/tracking/client.rs\<close>) as a function. The whole call
  run alone terminates: every turn that sends takes room from the window. What it sends: a
  prefix of the Loc frames of the batch, as many as the window has room for; and the number
  in each frame is, for every sample of the frame, the number the queue gave to that sample.
\<close>

section \<open>The frames of one turn\<close>

lemma take_frames_eq:
  "take_frames r l fs q = (out, q') \<Longrightarrow> r = window_remaining q \<Longrightarrow> 0 < r \<Longrightarrow>
   out = take r fs \<and> q' = fold record_frame (map (frame_seq l) out) q"
proof (induction r l fs q arbitrary: out q' rule: take_frames.induct)
  case (2 r l f fs q)
  let ?q = "record_frame (frame_seq l f) q"
  have nf: "\<not> window_full q" using "2.prems" by (simp add: window_full_def window_remaining_def)
  have rem: "window_remaining ?q = r - 1"
    using "2.prems"(2) by (simp add: window_remaining_def record_frame_def)
  show ?case
  proof (cases "r \<le> 1")
    case True
    with "2.prems" nf have o: "out = [f]" "q' = ?q" by (auto simp: Let_def)
    from True "2.prems"(3) have "r = Suc 0" by simp
    then have "take r (f # fs) = [f]" by (simp only: take_Suc_Cons take_0)
    with o show ?thesis by simp
  next
    case False
    then obtain o1 q1 where t: "take_frames (r - 1) l fs ?q = (o1, q1)" by fastforce
    have "o1 = take (r - 1) fs \<and> q1 = fold record_frame (map (frame_seq l) o1) ?q"
      using "2.IH" [OF nf refl False t] rem False by simp
    moreover have "out = f # o1" "q' = q1" using "2.prems"(1) nf False t by (auto simp: Let_def)
    ultimately show ?thesis using False by (cases r) auto
  qed
qed simp

lemma fold_record_frames: "sent_frame_seqs (fold record_frame fs q) = sent_frame_seqs q @ fs"
  by (induction fs arbitrary: q) simp_all

lemma loc_frames_eq:
  "loc_frames l ps = map (\<lambda>(seq, c). frame_bytes seq c) (number_chunks (l + 1 - of_nat (length ps)) (chunks ps))"
  by (simp add: loc_frames_def encode_loc_frames_eq)

lemma loc_frames_Nil_iff: "loc_frames l ps = [] \<longleftrightarrow> ps = []"
proof -
  have "number_chunks f cs = [] \<longleftrightarrow> cs = []" for f cs by (cases cs) simp_all
  moreover have "chunks ps = [] \<longleftrightarrow> ps = []" by (cases ps) simp_all
  ultimately show ?thesis by (simp add: loc_frames_eq)
qed

text \<open>What a turn may send from: the unsent samples, or newly numbered ones.\<close>

lemma flush_batch_cases:
  assumes "flush_batch r s = (l, ps, s1)"
  shows "(unsent_inflight (queue s) \<noteq> [] \<and> s1 = s \<and> ps = map q_point (unsent_inflight (queue s)) \<and>
            l = q_seq (last (unsent_inflight (queue s)))) \<or>
    (unsent_inflight (queue s) = [] \<and> ps = take (100 * r) (staging (queue s)) \<and>
      queue s1 = (queue s)\<lparr>staging := drop (100 * r) (staging (queue s)),
        inflight := inflight (queue s) @ number_points (assigned_seq s) ps\<rparr> \<and>
      (ps \<noteq> [] \<longrightarrow> l = q_seq (last (number_points (assigned_seq s) ps))))"
proof (cases "unsent_inflight (queue s) = []")
  case True
  have t: "take (min (staging_len (queue s)) (100 * r)) (staging (queue s)) = take (100 * r) (staging (queue s))"
    "drop (min (staging_len (queue s)) (100 * r)) (staging (queue s)) = drop (100 * r) (staging (queue s))"
    by (simp_all add: staging_len_def min_def)
  have a: "assign_from_staging (min (staging_len (queue s)) (100 * r)) n (queue s) =
      (number_points n (take (100 * r) (staging (queue s))),
       (queue s)\<lparr>staging := drop (100 * r) (staging (queue s)),
         inflight := inflight (queue s) @ number_points n (take (100 * r) (staging (queue s)))\<rparr>)" for n
    by (simp only: assign_from_staging_eq t)
  have ne: "number_points a qs = [] \<longleftrightarrow> qs = []" for a qs by (cases qs) simp_all
  from assms True show ?thesis
    by (auto simp: flush_batch_def Let_def a ne split: if_splits)
qed (use assms in \<open>auto simp: flush_batch_def Let_def\<close>)

lemma flush_batch_window: "flush_batch r s = (l, ps, s1) \<Longrightarrow> sent_frame_seqs (queue s1) = sent_frame_seqs (queue s)"
  by (drule flush_batch_cases) auto

definition can_flush :: "session \<Rightarrow> bool" where
  "can_flush s \<longleftrightarrow> session_ready s \<and> conn s = Open \<and> out_tx s \<noteq> None"

lemma flush_section_cases:
  assumes "flush_section s = (frames, s')"
  obtains (blocked) "\<not> can_flush s \<or> window_remaining (queue s) = 0" "frames = []" "s' = s"
  | (idle) l s1 where "can_flush s" "0 < window_remaining (queue s)"
      "flush_batch (window_remaining (queue s)) s = (l, [], s1)" "frames = []" "s' = s1"
  | (sends) l ps s1 where "can_flush s" "0 < window_remaining (queue s)"
      "flush_batch (window_remaining (queue s)) s = (l, ps, s1)" "ps \<noteq> []"
      "frames = take (window_remaining (queue s)) (loc_frames l ps)" "frames \<noteq> []"
      "s' = s1\<lparr>queue := fold record_frame (map (frame_seq l) frames) (queue s1)\<rparr>"
proof (cases "can_flush s \<and> window_remaining (queue s) \<noteq> 0")
  case False
  with assms blocked show ?thesis by (auto simp: flush_section_def can_flush_def Let_def split: if_splits)
next
  case True
  obtain l ps s1 where b: "flush_batch (window_remaining (queue s)) s = (l, ps, s1)" by (metis prod.exhaust)
  show ?thesis
  proof (cases "ps = []")
    case True
    with assms b \<open>can_flush s \<and> _\<close> have "frames = []" "s' = s1"
      by (auto simp: flush_section_def can_flush_def Let_def)
    show ?thesis
      by (rule idle [of l s1])
        (use \<open>frames = []\<close> \<open>s' = s1\<close> b True \<open>can_flush s \<and> _\<close> in auto)
  next
    case False
    obtain out q where t: "take_frames (window_remaining (queue s)) l (loc_frames l ps) (queue s1) = (out, q)"
      by fastforce
    have r: "window_remaining (queue s1) = window_remaining (queue s)"
      using flush_batch_window [OF b] by (simp add: window_remaining_def)
    from take_frames_eq [OF t] r True have
      o: "out = take (window_remaining (queue s)) (loc_frames l ps)"
      "q = fold record_frame (map (frame_seq l) out) (queue s1)" by simp_all
    moreover have "out \<noteq> []" using o(1) True False by (simp add: loc_frames_Nil_iff)
    moreover have "frames = out" "s' = s1\<lparr>queue := q\<rparr>"
      using assms b t True False by (auto simp: flush_section_def can_flush_def Let_def)
    ultimately show ?thesis using True b False sends by auto
  qed
qed

text \<open>A turn that sends takes room from the window; a turn that does not has a reason.\<close>

lemma flush_takes_window:
  assumes "flush_section s = (frames, s')" and "frames \<noteq> []"
  shows "window_remaining (queue s') < window_remaining (queue s)"
  using assms(1)
proof (cases rule: flush_section_cases)
  case (sends l ps s1)
  then have "length (sent_frame_seqs (queue s')) = length (sent_frame_seqs (queue s)) + length frames"
    by (simp add: fold_record_frames flush_batch_window)
  with sends(2,6) show ?thesis by (cases frames) (simp_all add: window_remaining_def)
qed (use assms(2) in simp_all)

lemma flush_stops:
  assumes "flush_section s = ([], s')"
  shows "\<not> can_flush s \<or> window_full (queue s) \<or> (unsent_inflight (queue s) = [] \<and> staging (queue s) = [])"
  using assms
proof (cases rule: flush_section_cases)
  case blocked
  then show ?thesis by (auto simp: window_full_def window_remaining_def)
next
  case (idle l s1)
  with flush_batch_cases [OF idle(3)] show ?thesis by auto
qed simp

section \<open>The whole call\<close>

fun send_all :: "u8 list list \<Rightarrow> session \<Rightarrow> bool \<times> session" where
  "send_all [] s = (True, s)"
| "send_all (f # fs) s =
     (let (r, s) = send_bin f s in case r of Inl _ \<Rightarrow> (False, s) | Inr _ \<Rightarrow> send_all fs s)"

lemma send_bin_queue: "send_bin b s = (r, s') \<Longrightarrow> queue s' = queue s"
  by (drule hold_sections(1)) simp

lemma send_all_queue: "send_all fs s = (ok, s') \<Longrightarrow> queue s' = queue s"
proof (induction fs arbitrary: s)
  case (Cons f fs)
  then show ?case by (auto simp: Let_def split: prod.splits sum.splits dest: send_bin_queue)
qed simp

text \<open>\<^verbatim>\<open>flush_queue\<close> without interruption.\<close>

function flush_queue :: "session \<Rightarrow> session" where
  "flush_queue s =
     (let (frames, s1) = flush_section s in
      if frames = [] then s1
      else let (ok, s2) = send_all frames s1 in if ok then flush_queue s2 else s2)"
  by pat_completeness auto
termination
proof (relation "measure (\<lambda>s. window_remaining (queue s))")
  fix s x frames s1 y ok s2
  assume "x = flush_section s" and "(frames, s1) = x" and "frames \<noteq> []"
    and "y = send_all frames s1" and "(ok, s2) = y"
  then show "(s2, s) \<in> measure (\<lambda>s. window_remaining (queue s))"
    using flush_takes_window [of s frames s1] send_all_queue [of frames s1 ok s2] by simp
qed simp

declare flush_queue.simps [simp del]

section \<open>The numbers in the frames\<close>

definition pairs :: "queued_point list \<Rightarrow> (u64 \<times> lat_lng) list" where
  "pairs ps = map (\<lambda>p. (q_seq p, q_point p)) ps"

lemma number_points_append:
  "number_points s (xs @ ys) = number_points s xs @ number_points (s + of_nat (length xs)) ys"
  by (induction xs arbitrary: s) (simp_all add: algebra_simps)

text \<open>A frame with number \<open>seq\<close> carries its samples with the numbers that end at \<open>seq\<close>.\<close>

definition frame_content :: "u64 \<times> lat_lng list \<Rightarrow> (u64 \<times> lat_lng) list" where
  "frame_content f = pairs (number_points (fst f - of_nat (length (snd f))) (snd f))"

lemma frame_contents:
  "concat (map frame_content (number_chunks first cs)) = pairs (number_points (first - 1) (concat cs))"
proof (induction cs arbitrary: first)
  case (Cons c cs)
  have "first + of_nat (length c) - 1 - of_nat (length c) = first - 1" by simp
  moreover have e: "first - 1 + of_nat (length c) = first + of_nat (length c) - 1" by simp
  ultimately show ?case using Cons [of "first + of_nat (length c)"]
    by (simp add: frame_content_def pairs_def number_points_append e)
qed (simp add: pairs_def)

lemma consecutive_pairs:
  "consecutive (map q_seq ps) \<Longrightarrow> ps \<noteq> [] \<Longrightarrow>
   pairs ps = pairs (number_points (q_seq (last ps) - of_nat (length ps)) (map q_point ps)) \<and>
   q_seq (hd ps) = q_seq (last ps) - of_nat (length ps) + 1"
proof (induction ps)
  case (Cons p ps)
  show ?case
  proof (cases "ps = []")
    case False
    with Cons have IH: "pairs ps = pairs (number_points (q_seq (last ps) - of_nat (length ps)) (map q_point ps))"
      "q_seq (hd ps) = q_seq (last ps) - of_nat (length ps) + 1" by (auto simp: consecutive_Cons)
    have "unat (q_seq (hd ps)) = Suc (unat (q_seq p))"
      using Cons.prems(1) False by (auto simp: consecutive_Cons hd_map)
    then have "of_nat (unat (q_seq (hd ps))) = (of_nat (Suc (unat (q_seq p))) :: u64)" by (simp only:)
    then have "q_seq (hd ps) = q_seq p + 1" by (simp add: add.commute)
    with IH(2) have "q_seq p = q_seq (last ps) - of_nat (length ps)" by simp
    with IH(1) False show ?thesis by (simp add: pairs_def algebra_simps)
  qed (simp add: pairs_def)
qed simp

lemma number_points_pairs:
  "ps \<noteq> [] \<Longrightarrow> q_seq (last (number_points n ps)) - of_nat (length ps) = n"
proof (induction ps arbitrary: n)
  case (Cons p ps)
  have ne: "number_points a qs = [] \<longleftrightarrow> qs = []" for a qs by (cases qs) simp_all
  show ?case using Cons.IH [of "n + 1"] by (cases "ps = []") (simp_all add: ne algebra_simps)
qed simp

lemma unsent_consecutive:
  assumes "in_order n q"
  shows "consecutive (map q_seq (unsent_inflight q))"
proof -
  obtain k where "unsent_inflight q = drop k (inflight q)"
    using assms sent_first_filter by (auto simp: in_order_def unsent_inflight_def)
  with assms show ?thesis
    by (simp add: in_order_def numbered_def seqs_def consecutive_drop flip: drop_map)
qed

lemma flush_batch_numbers:
  assumes b: "flush_batch r s = (l, ps, s1)" and ps: "ps \<noteq> []"
    and inv: "in_order (assigned_seq s) (queue s)"
  shows "pairs (number_points (l - of_nat (length ps)) ps) =
    (if unsent_inflight (queue s) \<noteq> [] then pairs (unsent_inflight (queue s))
     else pairs (number_points (assigned_seq s) ps))"
  using flush_batch_cases [OF b]
proof
  assume "unsent_inflight (queue s) \<noteq> [] \<and> s1 = s \<and> ps = map q_point (unsent_inflight (queue s)) \<and>
    l = q_seq (last (unsent_inflight (queue s)))"
  with consecutive_pairs [OF unsent_consecutive [OF inv]] show ?thesis by simp
next
  assume h: "unsent_inflight (queue s) = [] \<and> ps = take (100 * r) (staging (queue s)) \<and>
      queue s1 = (queue s)\<lparr>staging := drop (100 * r) (staging (queue s)),
        inflight := inflight (queue s) @ number_points (assigned_seq s) ps\<rparr> \<and>
      (ps \<noteq> [] \<longrightarrow> l = q_seq (last (number_points (assigned_seq s) ps)))"
  then have "l - of_nat (length ps) = assigned_seq s" using ps number_points_pairs [OF ps] by blast
  moreover have "unsent_inflight (queue s) = []" using h by blast
  ultimately show ?thesis by simp
qed

text \<open>What a turn may send, with the numbers the queue gives it.\<close>

definition batch :: "session \<Rightarrow> queued_point list" where
  "batch s =
     (if unsent_inflight (queue s) \<noteq> [] then unsent_inflight (queue s)
      else number_points (assigned_seq s) (take (100 * window_remaining (queue s)) (staging (queue s))))"

lemma chunk_numbers:
  "(seq, c) \<in> set (number_chunks first cs) \<Longrightarrow> c \<in> set cs"
  by (induction cs arbitrary: first) auto

lemma number_chunks_take: "take k (number_chunks f cs) @ drop k (number_chunks f cs) = number_chunks f cs"
  by simp

lemma flush_frames:
  assumes f: "flush_section s = (frames, s')" and ne: "frames \<noteq> []"
    and inv: "in_order (assigned_seq s) (queue s)"
  shows "\<exists>fs rest. frames = map (\<lambda>(seq, c). frame_bytes seq c) fs \<and>
    concat (map frame_content (fs @ rest)) = pairs (batch s) \<and>
    (\<forall>(seq, c) \<in> set fs. c \<noteq> [] \<and> length c \<le> 100 \<and> deltas_fit None c) \<and>
    length fs \<le> window_remaining (queue s) \<and>
    (\<exists>l s1. flush_batch (window_remaining (queue s)) s = (l, concat (map snd (fs @ rest)), s1) \<and>
      s' = s1\<lparr>queue := fold record_frame (map (frame_seq l) frames) (queue s1)\<rparr>)"
  using f
proof (cases rule: flush_section_cases)
  case (sends l ps s1)
  let ?all = "number_chunks (l + 1 - of_nat (length ps)) (chunks ps)"
  let ?k = "window_remaining (queue s)"
  have ps: "ps = map q_point (batch s)"
    using flush_batch_cases [OF sends(3)] by (auto simp: batch_def)
  have "concat (map frame_content ?all) = pairs (number_points (l - of_nat (length ps)) ps)"
    by (simp add: frame_contents concat_chunks)
  also have "\<dots> = pairs (batch s)"
    using flush_batch_numbers [OF sends(3,4) inv] ps by (auto simp: batch_def)
  finally have all: "concat (map frame_content (take ?k ?all @ drop ?k ?all)) = pairs (batch s)" by simp
  have "(seq, c) \<in> set (take ?k ?all) \<Longrightarrow> c \<noteq> [] \<and> length c \<le> 100 \<and> deltas_fit None c" for seq c
    using chunks_ok chunk_numbers by (metis in_set_takeD)
  moreover have "frames = map (\<lambda>(seq, c). frame_bytes seq c) (take ?k ?all)"
    using sends(5) by (simp add: loc_frames_eq take_map)
  moreover have "concat (map snd (take ?k ?all @ drop ?k ?all)) = ps"
    by (simp add: concat_chunks)
  ultimately show ?thesis
    using all sends(3,7)
    by (intro exI [of _ "take ?k ?all"] exI [of _ "drop ?k ?all"]) auto
qed (use ne in simp_all)

section \<open>What a turn marks as sent\<close>

lemma unsent_record_one:
  "filter (\<lambda>p. \<not> q_sent p) (map (\<lambda>p. if q_seq p \<le> f then p\<lparr>q_sent := True\<rparr> else p) ps) =
   filter (\<lambda>p. f < q_seq p) (filter (\<lambda>p. \<not> q_sent p) ps)"
  by (induction ps) auto

lemma unsent_record:
  "unsent_inflight (fold record_frame fs q) = filter (\<lambda>p. \<forall>f \<in> set fs. f < q_seq p) (unsent_inflight q)"
proof (induction fs arbitrary: q)
  case (Cons f fs)
  have "unsent_inflight (record_frame f q) = filter (\<lambda>p. f < q_seq p) (unsent_inflight q)"
    by (simp add: unsent_inflight_def record_frame_def unsent_record_one)
  with Cons show ?case by (simp add: conj_commute)
qed simp

text \<open>A cut of consecutive numbers at the last number of a frame.\<close>

lemma filter_above:
  fixes F :: "u64 set" and k :: "'a \<Rightarrow> u64"
  assumes "consecutive (map k (xs @ ys))" and "F \<subseteq> k ` set xs" and "xs \<noteq> []" and "k (last xs) \<in> F"
  shows "filter (\<lambda>x. \<forall>f \<in> F. f < k x) (xs @ ys) = ys"
proof -
  have "sorted_wrt (<) (map k xs @ map k ys)"
    using consecutive_sorted [OF assms(1)] by simp
  then have sorted: "sorted_wrt (<) (map k xs)" "x \<in> set xs \<Longrightarrow> y \<in> set ys \<Longrightarrow> k x < k y" for x y
    by (auto simp: sorted_wrt_append)
  have "k x \<le> k (last xs)" if "x \<in> set xs" for x
    using sorted(1) that assms(3) by (induction xs) (auto simp: less_imp_le)
  then have "filter (\<lambda>x. \<forall>f \<in> F. f < k x) xs = []"
    using assms(4) by (auto simp: filter_empty_conv linorder_not_less [symmetric])
  moreover have "filter (\<lambda>x. \<forall>f \<in> F. f < k x) ys = ys"
    using assms(2) sorted(2) by (intro filter_True) blast
  ultimately show ?thesis by simp
qed

lemma frame_seq_bytes:
  assumes "deltas_fit None c" and "unat seq < 2 ^ 32"
  shows "frame_seq l (frame_bytes seq c) = seq"
proof -
  obtain body where "write_points None c = Some body" using assms(1) write_points_Some_iff by blast
  then have fb: "frame_bytes seq c = put_u8 C_LOC @ put_u32 (ucast seq) @ put_u8 (of_nat (length c)) @ body"
    by (simp add: frame_bytes_def encode_loc_frame_def)
  have "unat (ucast seq :: u32) = unat seq"
    using assms(2) by (simp add: unsigned_ucast_eq unsigned_take_bit_eq take_bit_nat_eq_self)
  moreover have "unat seq mod 4294967296 = unat seq" using assms(2) by simp
  ultimately show ?thesis
    by (simp add: frame_seq_def fb put_u8_def put_u32_def of_le_bytes_le_bytes take_append drop_append)
qed

text \<open>The number of a frame is the number of its last sample.\<close>

lemma frame_content_last:
  "c \<noteq> [] \<Longrightarrow> frame_content (seq, c) \<noteq> [] \<and> fst (last (frame_content (seq, c))) = seq"
proof -
  assume c: "c \<noteq> []"
  have ne: "number_points a qs = [] \<longleftrightarrow> qs = []" for a qs by (cases qs) simp_all
  have "q_seq (last (number_points n c)) = n + of_nat (length c)" for n
    using number_points_pairs [OF c, of n] by (simp add: algebra_simps)
  then show ?thesis using c by (simp add: frame_content_def pairs_def last_map ne)
qed

lemma contents_last:
  "fs \<noteq> [] \<Longrightarrow> (\<forall>(seq, c) \<in> set fs. c \<noteq> []) \<Longrightarrow>
   map fst fs \<noteq> [] \<and> set (map fst fs) \<subseteq> set (map fst (concat (map frame_content fs))) \<and>
   last (map fst (concat (map frame_content fs))) \<in> set (map fst fs)"
proof (induction fs)
  case (Cons f fs)
  obtain seq c where f: "f = (seq, c)" by (cases f)
  have one: "frame_content f \<noteq> []" "fst (last (frame_content f)) = seq"
    using Cons.prems(2) frame_content_last [of c seq] by (auto simp: f)
  then have "seq \<in> set (map fst (frame_content f))" by (metis last_in_set last_map list.map_disc_iff)
  show ?case
  proof (cases "fs = []")
    case True
    with one \<open>seq \<in> _\<close> show ?thesis by (auto simp: f last_map)
  next
    case False
    with Cons have "set (map fst fs) \<subseteq> set (map fst (concat (map frame_content fs)))"
      "last (map fst (concat (map frame_content fs))) \<in> set (map fst fs)" by auto
    moreover have "frame_content (hd fs) \<noteq> []"
      using False Cons.prems(2) frame_content_last by (cases fs) auto
    then have "concat (map frame_content fs) \<noteq> []" using False by (cases fs) auto
    ultimately show ?thesis using \<open>seq \<in> _\<close> by (auto simp: f last_append)
  qed
qed simp

lemma batch_in_queue:
  assumes b: "flush_batch (window_remaining (queue s)) s = (l, ps, s1)"
  shows "unsent_inflight (queue s1) = batch s"
proof -
  have "filter (\<lambda>p. \<not> q_sent p) (number_points n qs) = number_points n qs" for n qs
    by (intro filter_True ballI) (rule number_points_unsent)
  then show ?thesis
    using flush_batch_cases [OF b] by (auto simp: batch_def unsent_inflight_def)
qed

lemma batch_consecutive:
  assumes inv: "in_order (assigned_seq s) (queue s)" and room: "unat (assigned_seq s) + 1000 < 2 ^ 64"
  shows "consecutive (map q_seq (batch s))"
proof (cases "unsent_inflight (queue s) = []")
  case True
  let ?ps = "take (100 * window_remaining (queue s)) (staging (queue s))"
  have "length ?ps \<le> 800" by (simp add: window_remaining_def MAX_UNACKED_FRAMES_def)
  then have "unat (assigned_seq s) + length ?ps < 2 ^ 64" using room by linarith
  from number_points_consecutive [OF this] True show ?thesis by (simp add: batch_def)
qed (use unsent_consecutive [OF inv] in \<open>simp add: batch_def\<close>)

text \<open>After a turn exactly the samples that were not in its frames are still unsent.\<close>

lemma flush_leaves:
  assumes f: "flush_section s = (frames, s')" and ne: "frames \<noteq> []"
    and inv: "in_order (assigned_seq s) (queue s)"
    and room: "\<forall>p \<in> set (batch s). unat (q_seq p) < 2 ^ 32" "unat (assigned_seq s) + 1000 < 2 ^ 64"
  shows "\<exists>fs. frames = map (\<lambda>(seq, c). frame_bytes seq c) fs \<and>
    pairs (batch s) = concat (map frame_content fs) @ pairs (unsent_inflight (queue s'))"
proof -
  obtain fs rest l s1 where frames: "frames = map (\<lambda>(seq, c). frame_bytes seq c) fs"
    and cont: "concat (map frame_content (fs @ rest)) = pairs (batch s)"
    and ok: "\<forall>(seq, c) \<in> set fs. c \<noteq> [] \<and> length c \<le> 100 \<and> deltas_fit None c"
    and b: "flush_batch (window_remaining (queue s)) s = (l, concat (map snd (fs @ rest)), s1)"
    and s': "s' = s1\<lparr>queue := fold record_frame (map (frame_seq l) frames) (queue s1)\<rparr>"
    using flush_frames [OF f ne inv] by blast
  let ?xs = "concat (map frame_content fs)" and ?ys = "concat (map frame_content rest)"
  have fs: "fs \<noteq> []" using ne frames by simp
  have ne': "\<forall>(seq, c) \<in> set fs. c \<noteq> []" using ok by auto
  have last: "set (map fst fs) \<subseteq> set (map fst ?xs)" "last (map fst ?xs) \<in> set (map fst fs)"
    using contents_last [OF fs] ne' by blast+
  have bs: "pairs (batch s) = ?xs @ ?ys" using cont by simp
  have small: "unat (fst x) < 2 ^ 32" if "x \<in> set ?xs" for x
  proof -
    have "x \<in> set (pairs (batch s))" unfolding bs using that by (simp only: set_append UnI1)
    then obtain p where "p \<in> set (batch s)" "fst x = q_seq p" by (auto simp: pairs_def)
    then show ?thesis using room(1) by simp
  qed
  have seq: "frame_seq l (frame_bytes n c) = n" if m: "(n, c) \<in> set fs" for n c
  proof (rule frame_seq_bytes)
    show "deltas_fit None c" using ok m by blast
    have "n \<in> set (map fst fs)" using m by force
    then have "n \<in> set (map fst ?xs)" using last(1) by blast
    then obtain x where "x \<in> set ?xs" "n = fst x" unfolding set_map by blast
    then show "unat n < 2 ^ 32" using small by blast
  qed
  have seqs: "map (frame_seq l) frames = map fst fs"
    unfolding frames map_map by (intro map_cong refl) (use seq in auto)
  have "pairs (unsent_inflight (queue s')) =
      filter (\<lambda>x. \<forall>f \<in> set (map fst fs). f < fst x) (pairs (batch s))"
    by (simp add: s' seqs unsent_record batch_in_queue [OF b] pairs_def filter_map o_def)
  also have "\<dots> = ?ys"
  proof -
    have "frame_content (hd fs) \<noteq> []" using fs ne' frame_content_last by (cases fs) auto
    then have "?xs \<noteq> []" using fs by (cases fs) auto
    moreover have "consecutive (map fst (?xs @ ?ys))"
      using batch_consecutive [OF inv room(2)] by (simp add: pairs_def o_def flip: bs del: map_append)
    ultimately show ?thesis unfolding bs using last by (intro filter_above) (auto simp: last_map)
  qed
  finally show ?thesis using frames bs by auto
qed

section \<open>Where the call ends\<close>

lemma flush_none_same: "flush_section s = ([], s') \<Longrightarrow> s' = s"
proof (erule flush_section_cases)
  fix l s1
  assume r: "0 < window_remaining (queue s)"
    and b: "flush_batch (window_remaining (queue s)) s = (l, [], s1)" and "s' = s1"
  let ?u = "unsent_inflight (queue s)" and ?r = "window_remaining (queue s)"
  have "?u = [] \<and> take (100 * ?r) (staging (queue s)) = []"
    using flush_batch_cases [OF b] by auto
  with r have e: "?u = []" "staging (queue s) = []" by auto
  have "(queue s)\<lparr>staging := [], inflight := inflight (queue s)\<rparr> = queue s"
    using e(2) by (cases "queue s") simp
  then have "s1 = s\<lparr>queue := queue s\<rparr>"
    using b e by (auto simp: flush_batch_def Let_def assign_from_staging_eq)
  then show "s' = s" using \<open>s' = s1\<close> by simp
qed simp_all

lemma send_all_fails:
  "send_all fs s = (False, s') \<Longrightarrow> can_flush s \<Longrightarrow> \<exists>g. out_tx s' = Some g \<and> g \<in> set (dead s')"
proof (induction fs arbitrary: s)
  case (Cons f fs)
  obtain r s1 where b: "send_bin f s = (r, s1)" by fastforce
  then have "can_flush s1" using Cons.prems(2) by (auto simp: send_bin_def can_flush_def split: if_splits option.splits)
  with b Cons show ?case by (auto simp: send_bin_def can_flush_def split: if_splits option.splits)
qed simp

lemma flush_section_can: "flush_section s = (frames, s') \<Longrightarrow> can_flush s' = can_flush s"
  by (auto simp: flush_section_def flush_batch_def can_flush_def Let_def split: if_splits prod.splits)

lemma send_all_can: "send_all fs s = (ok, s') \<Longrightarrow> can_flush s' = can_flush s"
proof (induction fs arbitrary: s)
  case (Cons f fs)
  obtain r s1 where b: "send_bin f s = (r, s1)" by fastforce
  then have "can_flush s1 = can_flush s"
    by (auto simp: send_bin_def can_flush_def split: if_splits option.splits)
  with b Cons show ?case by (auto split: sum.splits)
qed simp

lemma flush_queue_done:
  "can_flush s \<Longrightarrow>
   window_full (queue (flush_queue s)) \<or>
   (unsent_inflight (queue (flush_queue s)) = [] \<and> staging (queue (flush_queue s)) = []) \<or>
   (\<exists>g. out_tx (flush_queue s) = Some g \<and> g \<in> set (dead (flush_queue s)))"
proof (induction s rule: flush_queue.induct)
  case (1 s)
  obtain frames s1 where f: "flush_section s = (frames, s1)" by fastforce
  show ?case
  proof (cases "frames = []")
    case True
    with f have "flush_queue s = s" using flush_none_same [of s s1] by (subst flush_queue.simps) simp
    with flush_stops [of s s1] f True 1(2) show ?thesis by auto
  next
    case False
    obtain ok s2 where sa: "send_all frames s1 = (ok, s2)" by fastforce
    have can: "can_flush s1" "can_flush s2" using f sa 1(2) flush_section_can send_all_can by auto
    show ?thesis
    proof (cases ok)
      case True
      then have "flush_queue s = flush_queue s2"
        using f False sa by (subst flush_queue.simps) simp
      with 1(1) [OF f [symmetric] refl False sa [symmetric] refl True can(2)] show ?thesis by simp
    next
      case no: False
      then have "flush_queue s = s2" using f False sa by (subst flush_queue.simps) simp
      with send_all_fails [of frames s1 s2] sa no can show ?thesis by simp
    qed
  qed
qed

section \<open>Nothing is lost or reordered\<close>

lemma points_fold_record [simp]: "points_of (fold record_frame fs q) = points_of q"
  by (induction fs arbitrary: q) simp_all

lemma flush_keeps_points: "flush_section s = (frames, s') \<Longrightarrow> points_of (queue s') = points_of (queue s)"
proof (erule flush_section_cases)
  fix l ps s1
  assume b: "flush_batch (window_remaining (queue s)) s = (l, ps, s1)"
    and s': "s' = s1\<lparr>queue := fold record_frame (map (frame_seq l) frames) (queue s1)\<rparr>"
  have "points_of (queue s1) = points_of (queue s)"
    using flush_batch_cases [OF b] by (auto simp: points_of_def)
  with s' show "points_of (queue s') = points_of (queue s)" by simp
next
  fix l s1
  assume "flush_batch (window_remaining (queue s)) s = (l, [], s1)" and "s' = s1"
  from flush_batch_cases [OF this(1)] this(2) show "points_of (queue s') = points_of (queue s)"
    by (auto simp: points_of_def)
qed simp

lemma flush_queue_points: "points_of (queue (flush_queue s)) = points_of (queue s)"
proof (induction s rule: flush_queue.induct)
  case (1 s)
  obtain frames s1 where f: "flush_section s = (frames, s1)" by fastforce
  obtain ok s2 where sa: "send_all frames s1 = (ok, s2)" by fastforce
  from flush_keeps_points [OF f] send_all_queue [OF sa] 1 f sa show ?case
    by (subst flush_queue.simps) auto
qed

end
