(* ===== verification/Session_Sched.thy ===== *)
theory Session_Sched
  imports Session_Flush
begin

text \<open>
  An executable scheduler for the client of \<^verbatim>\<open>src/tracking/client.rs\<close>: a schedule
  says which task runs with which input, which public call is made, and which writer ends.
  \<open>drive\<close> follows it; every state it reaches is reachable by the step relation. The concrete
  session used by the examples and witnesses is built with it: a device that connects, starts
  a track by its first \<^verbatim>\<open>publish\<close> and sends live samples.
\<close>

datatype sched = RunTask nat input | MakeCall task | EndWriter u64

fun drive ::
    "(input \<Rightarrow> task \<Rightarrow> session \<Rightarrow> bool) \<Rightarrow> uuid_crate \<Rightarrow> libm \<Rightarrow> ('u, 'z) url_crate_scheme \<Rightarrow> sched list \<Rightarrow>
     client \<Rightarrow> client" where
  "drive G U L C [] c = c"
| "drive G U L C (RunTask k i # rest) c =
     (let (s, ts) = c in
      if k < length ts \<and> G i (ts ! k) s
      then (case exec U L C i (ts ! k) s of
              None \<Rightarrow> drive G U L C rest (s, ts)
            | Some (s', new) \<Rightarrow> drive G U L C rest (s', remove_nth k ts @ new))
      else drive G U L C rest (s, ts))"
| "drive G U L C (MakeCall t # rest) c =
     (let (s, ts) = c in
      if is_call t then drive G U L C rest (s, ts @ [t]) else drive G U L C rest (s, ts))"
| "drive G U L C (EndWriter g # rest) c =
     (let (s, ts) = c in drive G U L C rest (s\<lparr>dead := g # dead s\<rparr>, ts))"

lemma reach_step_first: "step G U L C c c1 \<Longrightarrow> reach G U L C c1 c2 \<Longrightarrow> reach G U L C c c2"
  by (rotate_tac, induction rule: reach.induct) (auto intro: reach.intros)

lemma reach_trans: "reach G U L C a b \<Longrightarrow> reach G U L C b c \<Longrightarrow> reach G U L C a c"
  by (rotate_tac, induction rule: reach.induct) (auto intro: reach.intros)

lemma drive_reach: "reach G U L C c (drive G U L C sc c)"
proof (induction G U L C sc c rule: drive.induct)
  case (1 G U L C c)
  show ?case by (simp add: reach.start)
next
  case (2 G U L C k i rest c)
  obtain s ts where c: "c = (s, ts)" by (cases c)
  show ?case
  proof (cases "k < length ts \<and> G i (ts ! k) s \<and> exec U L C i (ts ! k) s \<noteq> None")
    case True
    then obtain s' new where e: "exec U L C i (ts ! k) s = Some (s', new)" by auto
    have "step G U L C (s, ts) (s', remove_nth k ts @ new)"
      using True e by (intro step.run [of k ts G i]) auto
    with True e c 2 show ?thesis by (auto intro: reach_step_first)
  next
    case False
    with c 2 show ?thesis by (auto split: option.splits)
  qed
next
  case (3 G U L C t rest c)
  obtain s ts where c: "c = (s, ts)" by (cases c)
  have "is_call t \<Longrightarrow> step G U L C (s, ts) (s, ts @ [t])" by (rule step.call)
  with 3 c show ?case by (auto intro: reach_step_first)
next
  case (4 G U L C g rest c)
  obtain s ts where c: "c = (s, ts)" by (cases c)
  have "step G U L C (s, ts) (s\<lparr>dead := g # dead s\<rparr>, ts)" by (rule step.writer_ends)
  with 4 c show ?case by (auto intro: reach_step_first)
qed

section \<open>A concrete session\<close>

definition demo_cfg :: config where
  "demo_cfg = config_default\<lparr>endpoint := ''wss://host'',
     device := Some \<lparr>client_id = ''id'', client_secret = ''secret''\<rparr>\<rparr>"

definition demo_start :: session where
  "demo_start = (case connect_init 0 0 demo_cfg of Inr s \<Rightarrow> s | Inl e \<Rightarrow> undefined)"

definition quiet :: input where
  "quiet = \<lparr>in_first = FirstBinary [0x80, 2, 0, 0, 0, 0, 0, 0, 0, 0, 0, 0, 0, 0, 0, 0, 0, 0, 0, 0],
     in_read = ReadOther, in_now = 0, in_wall = 0, in_wall2 = 0, in_clock = 0,
     in_rand = f64_of_int 0, in_refresh = None\<rparr>"

definition got :: "u8 list \<Rightarrow> input" where
  "got b = quiet\<lparr>in_read := ReadBinary b\<rparr>"

definition at_time :: "nat \<Rightarrow> input" where
  "at_time ms = quiet\<lparr>in_now := ms * 1000000, in_wall := of_nat ms, in_wall2 := of_nat ms\<rparr>"

definition north :: "int \<Rightarrow> lat_lng" where
  "north deg = lat_lng_new (f64_of_int deg) (f64_of_int 37)"

text \<open>Dial, register, resubscribe: the reader is task 0.\<close>

definition demo_open :: "sched list" where
  "demo_open = [RunTask 0 quiet, RunTask 0 quiet, RunTask 0 quiet, RunTask 1 quiet, RunTask 1 quiet]"

text \<open>TrackStarted with a UUID and no metadata, then the flush and the answer.\<close>

definition demo_started :: "sched list" where
  "demo_started =
     [RunTask 0 (got (0x83 # replicate 16 7 @ [0, 0])), RunTask 0 quiet, RunTask 0 quiet]"

text \<open>One call of publish, run to its end.\<close>

definition demo_publish :: "nat \<Rightarrow> int \<Rightarrow> sched list" where
  "demo_publish ms deg = [MakeCall (Publish (north deg)), RunTask 1 (at_time ms), RunTask 1 (at_time ms), RunTask 1 quiet]"

definition demo_run :: "(input \<Rightarrow> task \<Rightarrow> session \<Rightarrow> bool) \<Rightarrow> sched list \<Rightarrow> client" where
  "demo_run G sc = drive G raw_uuid plain_libm plain_url sc (client_init demo_start)"

lemma demo_run_reach: "reach G raw_uuid plain_libm plain_url (client_init demo_start) (demo_run G sc)"
  unfolding demo_run_def by (rule drive_reach)

lemma demo_start_init: "connect_init 0 0 demo_cfg = Inr demo_start"
  by (simp add: demo_start_def connect_init_def demo_cfg_def config_default_def from_millis_def Let_def)

definition demo_live :: "sched list" where
  "demo_live = demo_open @ demo_publish 0 55 @ demo_started @ demo_publish 2000 56 @ demo_publish 4000 57"

end
