(* ===== verification/Session_Correct.thy ===== *)
theory Session_Correct
  imports Session_Sched
begin

text \<open>
  What the invariants and the flush lemmas say of the running client of
  \<^verbatim>\<open>src/tracking/client.rs\<close>, as properties over every interleaving of its tasks.
\<close>

section \<open>Concrete runs\<close>


text \<open>A session with one sample numbered and not yet sent, ready to send.\<close>

definition demo_backlog :: session where
  "demo_backlog = demo_start\<lparr>session_ready := True, conn := Open, out_tx := Some 1, dial_gen := 1,
     track_uid := ''t'', assigned_seq := 1,
     queue := (queue demo_start)\<lparr>inflight := [\<lparr>q_seq = 1, q_point = north 55, q_sent = False\<rparr>]\<rparr>\<rparr>"




section \<open>Every interleaving\<close>

lemma connect_init_fields:
  "connect_init now now2 c = Inr s \<Longrightarrow> queue s = queue_new (max_queue_size c) \<and> assigned_seq s = 0"
  by (auto simp: connect_init_def Let_def split: if_splits)

lemma queue_new_size: "queue_size (queue_new n) = 0"
  by (simp add: queue_new_def queue_size_def)

lemma bounded_init:
  "connect_init now now2 c = Inr s \<Longrightarrow>
   bounded.holds (if max_queue_size c = 0 then DEFAULT_MAX_QUEUE else max_queue_size c) s"
  unfolding bounded.holds_def
  by (drule connect_init_fields) (simp add: queue_new_size, simp add: queue_new_def)

lemma covered_init: "connect_init now now2 c = Inr s \<Longrightarrow> covered.holds s"
  unfolding covered.holds_def
  by (drule connect_init_fields) (simp add: queue_new_def covered_iff)


text \<open>C1: However the client's tasks interleave and whatever the network and the user do, at most
  eight frames are unacknowledged and the queue holds at most the configured number of samples.\<close>

theorem client_window_and_cap:
  assumes "connect_init now now2 c = Inr s0"
    and "reach any_input U L C (client_init s0) (s, ts)"
  shows "length (sent_frame_seqs (queue s)) \<le> MAX_UNACKED_FRAMES \<and>
    queue_size (queue s) \<le> (if max_queue_size c = 0 then DEFAULT_MAX_QUEUE else max_queue_size c)"
  using bounded.reach_keeps [of U L C "client_init s0" "(s, ts)"] assms(2) bounded_init [OF assms(1)]
  by (simp add: client_init_def bounded.holds_def)

theorem client_window_and_cap_witness:
  "length (sent_frame_seqs (queue (fst (demo_run any_input demo_open)))) \<le> MAX_UNACKED_FRAMES"
  using client_window_and_cap [OF demo_start_init, of raw_uuid plain_libm plain_url
      "fst (demo_run any_input demo_open)" "snd (demo_run any_input demo_open)"] demo_run_reach [of any_input demo_open]
  by simp

text \<open>C2: In every reachable state a sample marked as sent is covered by a frame that still awaits its
  Ack; so with no frame outstanding every in-flight sample is still going to be sent.\<close>

theorem client_sent_covered:
  assumes "connect_init now now2 c = Inr s0"
    and "reach any_input U L C (client_init s0) (s, ts)"
  shows "covered (queue s) \<and>
    (sent_frame_seqs (queue s) = [] \<longrightarrow> unsent_inflight (queue s) = inflight (queue s))"
proof -
  have "covered (queue s)"
    using covered.reach_keeps [of U L C "client_init s0" "(s, ts)"] assms(2) covered_init [OF assms(1)]
    by (simp add: client_init_def covered.holds_def)
  then show ?thesis using covered_empty_window by blast
qed

theorem client_sent_covered_witness: "covered (queue (fst (demo_run any_input demo_live)))"
  using client_sent_covered [OF demo_start_init, of raw_uuid plain_libm plain_url
      "fst (demo_run any_input demo_live)" "snd (demo_run any_input demo_live)"] demo_run_reach [of any_input demo_live]
  by simp



text \<open>C9: After the user's \<^verbatim>\<open>close\<close> no frame is handed to any socket any more, whatever
  tasks are still running and whatever arrives.\<close>

theorem closed_client_is_silent:
  assumes "close_section s0 = (tx, s1)"
    and "reach any_input U L C (s1, ts1) (s, ts)"
  shows "frames_sent s = frames_sent s0"
  using silent.reach_keeps [of U L C "(s1, ts1)" "(s, ts)" "frames_sent s0"] assms(2) close_silent [OF assms(1)]
  by (simp add: silent_def)

theorem closed_client_is_silent_witness:
  "frames_sent (fst (drive any_input raw_uuid plain_libm plain_url
       [RunTask 0 quiet, RunTask 0 quiet, MakeCall (Publish (north 55)), RunTask 0 quiet, RunTask 0 quiet]
       (snd (close_section demo_backlog), [FlushQueue 1 (None, Inr StoppedOk, None)]))) =
   frames_sent demo_backlog"
proof -
  let ?c = "(snd (close_section demo_backlog), [FlushQueue 1 (None, Inr StoppedOk, None)])"
  let ?sc = "[RunTask 0 quiet, RunTask 0 quiet, MakeCall (Publish (north 55)), RunTask 0 quiet, RunTask 0 quiet]"
  have "reach any_input raw_uuid plain_libm plain_url ?c
      (fst (drive any_input raw_uuid plain_libm plain_url ?sc ?c),
       snd (drive any_input raw_uuid plain_libm plain_url ?sc ?c))"
    using drive_reach [of any_input raw_uuid plain_libm plain_url ?c ?sc] by (simp only: prod.collapse)
  then show ?thesis by (rule closed_client_is_silent [OF prod.collapse [symmetric]])
qed

section \<open>flush\_queue\<close>

text \<open>C10: A turn of \<^verbatim>\<open>flush_queue\<close> that sends puts its samples into Loc frames, in
  order, each frame carrying the number the queue gave to its last sample; exactly the samples
  in those frames become sent, the rest of the batch stays unsent.\<close>

theorem flush_sends_what_it_marks:
  assumes "flush_section s = (frames, s')" and "frames \<noteq> []"
    and "in_order (assigned_seq s) (queue s)"
    and "\<forall>p \<in> set (batch s). unat (q_seq p) < 2 ^ 32" and "unat (assigned_seq s) + 1000 < 2 ^ 64"
  shows "\<exists>fs. frames = map (\<lambda>(seq, c). frame_bytes seq c) fs \<and>
    pairs (batch s) = concat (map frame_content fs) @ pairs (unsent_inflight (queue s'))"
  using assms by (rule flush_leaves)

lemma demo_flush:
  "fst (flush_section demo_backlog) \<noteq> [] \<and> map q_seq (batch demo_backlog) = [1] \<and>
   consecutive (seqs (queue demo_backlog)) \<and> seqs (queue demo_backlog) = [1] \<and>
   assigned_seq demo_backlog = 1 \<and> sent_first (inflight (queue demo_backlog))"
  by code_simp

theorem flush_sends_what_it_marks_witness:
  "\<exists>fs. fst (flush_section demo_backlog) = map (\<lambda>(seq, c). frame_bytes seq c) fs \<and>
    pairs (batch demo_backlog) =
      concat (map frame_content fs) @ pairs (unsent_inflight (queue (snd (flush_section demo_backlog))))"
proof (rule flush_sends_what_it_marks [OF prod.collapse [symmetric]])
  show "fst (flush_section demo_backlog) \<noteq> []" using demo_flush by blast
  show "in_order (assigned_seq demo_backlog) (queue demo_backlog)"
    using demo_flush by (simp add: in_order_def numbered_def)
  have "set (map q_seq (batch demo_backlog)) = {1}" using demo_flush by simp
  then have "q_seq p = 1" if "p \<in> set (batch demo_backlog)" for p using that by fastforce
  then show "\<forall>p \<in> set (batch demo_backlog). unat (q_seq p) < 2 ^ 32" by simp
  show "unat (assigned_seq demo_backlog) + 1000 < 2 ^ 64" using demo_flush by simp
qed

text \<open>C11: \<^verbatim>\<open>flush_queue\<close> run alone always returns, and it stops only when the window is
  full, when nothing is left to send, or when the socket's writer has ended.\<close>

theorem flush_queue_drains:
  assumes "session_ready s" and "conn s = Open" and "out_tx s = Some g"
  shows "let s' = flush_queue s in
    window_full (queue s') \<or> (unsent_inflight (queue s') = [] \<and> staging (queue s') = []) \<or>
    (\<exists>g. out_tx s' = Some g \<and> g \<in> set (dead s'))"
  unfolding Let_def by (rule flush_queue_done) (simp add: can_flush_def assms)

theorem flush_queue_drains_witness:
  "let s' = flush_queue demo_backlog in
    window_full (queue s') \<or> (unsent_inflight (queue s') = [] \<and> staging (queue s') = []) \<or>
    (\<exists>g. out_tx s' = Some g \<and> g \<in> set (dead s'))"
  by (rule flush_queue_drains [of _ 1]) (simp_all add: demo_backlog_def)

text \<open>C12: \<^verbatim>\<open>flush_queue\<close> neither drops, duplicates nor reorders a sample: the in-flight
  samples followed by the staged ones are the same before and after.\<close>

theorem flush_queue_conserves: "points_of (queue (flush_queue s)) = points_of (queue s)"
  by (rule flush_queue_points)

end
