(* ===== verification/Session_Loss.thy ===== *)
theory Session_Loss
  imports Session_Correct
begin

text \<open>
  Behaviours of \<^verbatim>\<open>src/tracking/client.rs\<close> that lose or repeat samples, each as a
  theorem with a concrete instance: a live sample published before the backlog is flushed, a
  second TrackStarted; and, beside them, what a lost socket and \<^verbatim>\<open>close\<close> do.
\<close>

section \<open>Losses and repetitions\<close>

lemma publish_live_queue:
  assumes "publish_section L now w1 w2 p s = (Live n p', s')"
  shows "\<exists>p0. n = assigned_seq s + 1 \<and> p' = strip_live_time p0 \<and>
    queue s' = record_frame (assigned_seq s + 1) (snd (enqueue L (assigned_seq s + 1) p0 (queue s)))"
  using assms
  by (fastforce simp: publish_section_def Let_def split: if_splits prod.splits option.splits)

text \<open>C25: A live sample published while numbered samples are still waiting to be sent (between the
  section that makes the session ready and the flush) marks every one of them as sent, although
  only the new sample goes out: no later flush will send them on this socket.\<close>

theorem live_sample_marks_backlog_sent:
  assumes "publish_section L now w1 w2 p s = (Live n p', s')"
    and "in_order (assigned_seq s) (queue s)" and "unat (assigned_seq s) + 1000 < 2 ^ 64"
  shows "unsent_inflight (queue s') = []"
proof -
  obtain p0 where q: "queue s' = record_frame (assigned_seq s + 1) (snd (enqueue L (assigned_seq s + 1) p0 (queue s)))"
    using publish_live_queue [OF assms(1)] by blast
  have "list_all q_sent (inflight (queue s'))"
    unfolding q by (rule live_all_sent [OF assms(2,3) prod.collapse [symmetric]])
  then show ?thesis by (simp add: unsent_inflight_def list_all_iff filter_empty_conv)
qed

lemma demo_publish_live:
  "fst (publish_section plain_libm 0 0 0 (north 56) demo_backlog) = Live 2 (north 56) \<and>
   length (unsent_inflight (queue demo_backlog)) = 1"
  by code_simp

theorem live_sample_marks_backlog_sent_witness:
  "unsent_inflight (queue demo_backlog) \<noteq> [] \<and>
   unsent_inflight (queue (snd (publish_section plain_libm 0 0 0 (north 56) demo_backlog))) = []"
proof
  show "unsent_inflight (queue demo_backlog) \<noteq> []" using demo_publish_live by auto
  have "publish_section plain_libm 0 0 0 (north 56) demo_backlog =
      (Live 2 (north 56), snd (publish_section plain_libm 0 0 0 (north 56) demo_backlog))"
    using demo_publish_live by (simp add: prod_eq_iff)
  moreover have "in_order (assigned_seq demo_backlog) (queue demo_backlog)"
    using demo_flush by (simp add: in_order_def numbered_def)
  moreover have "unat (assigned_seq demo_backlog) + 1000 < 2 ^ 64" using demo_flush by simp
  ultimately show "unsent_inflight (queue (snd (publish_section plain_libm 0 0 0 (north 56) demo_backlog))) = []"
    by (rule live_sample_marks_backlog_sent)
qed

lemma reject_keeps [simp]:
  "session_ready (reject_pending_locked e s) = session_ready s" "out_tx (reject_pending_locked e s) = out_tx s"
  by (simp_all add: reject_pending_locked_def take_start_wait_def take_stop_wait_def take_resume_wait_def
      wake_def Let_def split: option.split)

text \<open>C17: When the current socket is lost, everything unacknowledged becomes unsent and
  the window empties: the next resumed session repeats it.\<close>

theorem lost_socket_resends_all:
  assumes "on_socket_closed_section (dial_gen s) x s = (r, s')"
  shows "unsent_inflight (queue s') = inflight (queue s') \<and> sent_frame_seqs (queue s') = [] \<and>
    points_of (queue s') = points_of (queue s) \<and> session_ready s' = False \<and> out_tx s' = None"
proof -
  have "queue s' = mark_unsent (queue s) \<and> session_ready s' = False \<and> out_tx s' = None"
    using assms by (auto simp: on_socket_closed_section_def Let_def split: if_splits option.splits prod.splits)
  then show ?thesis
    by (simp add: mark_unsent_def unsent_inflight_def points_of_def filter_map o_def)
qed

theorem lost_socket_resends_all_witness:
  "unsent_inflight (queue (snd (on_socket_closed_section (dial_gen demo_backlog) (f64_of_int 0) demo_backlog))) \<noteq> []"
proof -
  let ?s' = "snd (on_socket_closed_section (dial_gen demo_backlog) (f64_of_int 0) demo_backlog)"
  have "unsent_inflight (queue ?s') = inflight (queue ?s') \<and> points_of (queue ?s') = points_of (queue demo_backlog)"
    using lost_socket_resends_all [OF prod.collapse [symmetric], of demo_backlog "f64_of_int 0"] by blast
  moreover have "staging (queue ?s') = [] \<and> points_of (queue demo_backlog) \<noteq> []" by code_simp
  ultimately show ?thesis by (auto simp: points_of_def)
qed

text \<open>The numbering after a second TrackStarted: a live sample is the first again.\<close>

lemma started_over:
  assumes "on_track_started uid s = (w, s1)"
  shows "assigned_seq s1 = 0" "queue s1 = queue s" "session_ready s1"
  using assms by (auto simp: on_track_started_def take_start_wait_def)

text \<open>C29: A TrackStarted that arrives while the sample numbered 1 is in flight, as the second one does when a
  track is started explicitly while an automatic start is still unanswered, sets the numbering back
  to zero and keeps the queue: the next live sample is given the number 1 again, and the two samples
  with that number are in flight together.\<close>

theorem second_start_repeats_number:
  assumes "1 \<in> set (seqs (queue s))" and "queue_size (queue s) < max_size (queue s)"
    and "on_track_started uid s = (w, s1)" and "publish_section L now w1 w2 p s1 = (Live n p', s2)"
  shows "n = 1 \<and> seqs (queue s2) = seqs (queue s) @ [1] \<and> \<not> distinct (seqs (queue s2))"
proof -
  note s1 = started_over [OF assms(3)]
  obtain p0 where n: "n = assigned_seq s1 + 1"
    and q: "queue s2 = record_frame (assigned_seq s1 + 1) (snd (enqueue L (assigned_seq s1 + 1) p0 (queue s1)))"
    using publish_live_queue [OF assms(4)] by blast
  have "seqs (snd (enqueue L (assigned_seq s1 + 1) p0 (queue s1))) = seqs (queue s1) @ [assigned_seq s1 + 1]"
    using assms(2) s1(2) by (simp add: enqueue_def seqs_def enforce_cap_id queue_size_snoc Let_def)
  then have "seqs (queue s2) = seqs (queue s) @ [1]"
    unfolding q by (simp add: s1)
  with assms(1) n show ?thesis by (simp add: s1)
qed

text \<open>Publish starts a track, the user starts one too, the first start is answered and a sample goes out.\<close>

definition demo_two_starts :: client where
  "demo_two_starts = demo_run any_input (demo_open @ demo_publish 0 55 @
     [MakeCall (StartTrack None [] []), RunTask 1 quiet, RunTask 1 quiet] @ demo_started @ demo_publish 2000 56)"

text \<open>The frames sent, by their first byte: two starts and a live sample; the numbers in flight; and what
  the next publish does after the second answer.\<close>

lemma demo_two_starts_state:
  "(case demo_two_starts of (s, ts) \<Rightarrow>
      (map (\<lambda>(g, m). case m of Bin b \<Rightarrow> hd b | CloseSocket \<Rightarrow> 0) (out_log s), seqs (queue s),
       queue_size (queue s) < max_size (queue s),
       fst (publish_section plain_libm 4000000000 4000 4000 (north 57) (snd (on_track_started ''t'' s))))) =
   ([2, 2, 4], [1], True, Live 1 (north 57))"
  by code_simp

lemma second_start_repeats_number_witness:
  "\<exists>s ts. reach any_input raw_uuid plain_libm plain_url (client_init demo_start) (s, ts) \<and> seqs (queue s) = [1] \<and>
     seqs (queue (snd (publish_section plain_libm 4000000000 4000 4000 (north 57) (snd (on_track_started ''t'' s))))) = [1, 1]"
proof -
  obtain s ts where c: "demo_two_starts = (s, ts)" by fastforce
  let ?s1 = "snd (on_track_started ''t'' s)"
  let ?s2 = "snd (publish_section plain_libm 4000000000 4000 4000 (north 57) ?s1)"
  have st: "seqs (queue s) = [1]" "queue_size (queue s) < max_size (queue s)"
    and live: "fst (publish_section plain_libm 4000000000 4000 4000 (north 57) ?s1) = Live 1 (north 57)"
    using demo_two_starts_state unfolding c prod.case prod.inject by simp_all
  have "publish_section plain_libm 4000000000 4000 4000 (north 57) ?s1 = (Live 1 (north 57), ?s2)"
    using live by (simp add: prod_eq_iff)
  from second_start_repeats_number [OF _ st(2) prod.collapse [symmetric] this] st(1)
  have "seqs (queue ?s2) = [1, 1]" by simp
  moreover have "reach any_input raw_uuid plain_libm plain_url (client_init demo_start) (s, ts)"
    using demo_run_reach [of any_input] c unfolding demo_two_starts_def by metis
  ultimately show ?thesis using st(1) by blast
qed

text \<open>\<^verbatim>\<open>close\<close> answers every waiting call with the error of a closed client, empties the
  three slots and gives up the socket; no answer is given to any other call.\<close>

lemma close_answers_waits:
  "let (tx, s') = close_section s in
   start_wait s' = None \<and> stop_wait s' = None \<and> resume_wait s' = None \<and> out_tx s' = None \<and> tx = out_tx s \<and>
   woken s' = woken s @ map (\<lambda>t. (t, Some (Inl (new_error Invalid ''client closed''))))
     (List.map_filter id [start_wait s, stop_wait s, resume_wait s])"
  by (auto simp: close_section_def reject_pending_locked_def take_start_wait_def take_stop_wait_def
      take_resume_wait_def wake_def Let_def map_filter_def split: option.splits)

end
