(* ===== verification/Session_Conserve.thy ===== *)
theory Session_Conserve
  imports Session_Sched "HOL-Library.Sublist"
begin

text \<open>
  Where samples can leave the client of \<^verbatim>\<open>src/tracking/client.rs\<close>: \<open>releases\<close> names the
  steps, and every other step of every task keeps all samples in their order, whatever happens
  to the sockets.
\<close>

section \<open>Steps that release samples\<close>

text \<open>
  The server acknowledges (\<^verbatim>\<open>Ack\<close>, \<^verbatim>\<open>ResumeOk\<close>), the track has ended or is gone, a
  new track is started, or the queue is full.
\<close>

fun ends_samples :: "server_evt \<Rightarrow> bool" where
  "ends_samples (Ack _) = True"
| "ends_samples (ResumeOk _ _) = True"
| "ends_samples (TrackStopped _) = True"
| "ends_samples (Error code _ _ _) = (code = TrackNotFound \<or> is_fatal_resume_error code)"
| "ends_samples _ = False"

definition releases :: "uuid_crate \<Rightarrow> input \<Rightarrow> task \<Rightarrow> session \<Rightarrow> bool" where
  "releases U i t s = (case t of
       Read _ \<Rightarrow> (case in_read i of
           ReadBinary b \<Rightarrow> (case decode_server_evt U b of Inr (Some msg) \<Rightarrow> ends_samples msg | _ \<Rightarrow> False)
         | _ \<Rightarrow> False)
     | Publish _ \<Rightarrow> track_uid s = [] \<and> \<not> starting s
     | StartTrack _ _ _ \<Rightarrow> True
     | PublishRun _ \<Rightarrow> max_size (queue s) \<le> queue_size (queue s)
     | _ \<Rightarrow> False)"

section \<open>The other steps\<close>

definition keeps :: "session \<Rightarrow> session \<Rightarrow> bool" where
  "keeps s s' \<longleftrightarrow> subseq (points_of (queue s)) (points_of (queue s'))"

lemma keeps_refl [simp]: "keeps s s"
  by (simp add: keeps_def)

lemma keeps_trans: "keeps a b \<Longrightarrow> keeps b c \<Longrightarrow> keeps a c"
  unfolding keeps_def by (rule subseq_order.order_trans)

lemma keeps_queue: "queue s' = queue s \<Longrightarrow> keeps s s'"
  by (simp add: keeps_def)

lemma keeps_points: "points_of (queue s') = points_of (queue s) \<Longrightarrow> keeps s s'"
  by (simp add: keeps_def)

lemma points_unsent: "points_of (mark_unsent q) = points_of q"
  by (simp add: points_of_def mark_unsent_def o_def)

lemma push_points:
  "queue_size q < max_size q \<Longrightarrow> points_of (push_staging L p q) = points_of q @ [p]"
  by (simp add: push_staging_def enforce_cap_id queue_size_snoc points_of_def)

lemma live_points:
  "enqueue L n p q = (d, q') \<Longrightarrow> queue_size q < max_size q \<Longrightarrow>
   points_of q' = map q_point (inflight q) @ p # staging q"
  by (auto simp: enqueue_def Let_def enforce_cap_id queue_size_snoc points_of_def)

lemma live_subseq: "subseq (points_of q) (map q_point (inflight q) @ p # staging q)"
  unfolding points_of_def by (intro list_emb_append_mono) auto

lemma publish_conserves:
  assumes "queue_size (queue s) < max_size (queue s)" and "publish_section L now wall clock p s = (out, s')"
  shows "keeps s s'"
  using assms
  by (auto simp: publish_section_def Let_def keeps_def push_points live_points live_subseq
      split: if_splits option.splits prod.splits)

lemma send_then_queue: "send_then U cmd ok failed s = (s', new) \<Longrightarrow> queue s' = queue s"
  by (auto simp: send_then_def send_cmd_def Let_def split: prod.splits dest: hold_sections)

lemma finish_queue: "queue (finish_section p s) = queue s"
  by (cases p) (auto simp: finish_section_def Let_def hold_updates split: option.splits)

lemma error_conserves:
  "err_code e \<noteq> TrackNotFound \<Longrightarrow> \<not> is_fatal_resume_error (err_code e) \<Longrightarrow> queue (on_error e s) = queue s"
  by (auto simp: on_error_eq Let_def error_parts_queue error_resume_def split: option.splits)

lemma dispatch_conserves:
  assumes "dispatch_section g msg s = (s', new)" and "\<not> ends_samples msg"
  shows "queue s' = queue s"
  using assms
  by (cases msg)
    (auto simp: dispatch_section_def Let_def error_from_evt_def on_fanout_def hold_updates
      split: prod.splits dest: track_sections intro!: error_conserves)

lemma exec_conserves:
  assumes e: "exec U L C i t s = Some (s', new)" and "\<not> releases U i t s"
  shows "keeps s s'"
proof (cases t)
  case (Read g)
  with assms show ?thesis
    by (auto simp: releases_def read_section_def intro!: keeps_queue
        split: read_frame.splits sum.splits option.splits dest: dispatch_conserves)
next
  case (FlushQueue g p)
  with e show ?thesis by (auto simp: Let_def split: prod.splits dest: flush_keeps_points intro: keeps_points)
next
  case (PublishRun p)
  with assms show ?thesis by (auto simp: releases_def Let_def not_le split: prod.splits dest: publish_conserves)
next
  case (SocketClosed g)
  with e show ?thesis
    by (auto simp: Let_def points_unsent split: prod.splits dest!: track_sections(6) intro: keeps_points keeps_queue)
next
  case (Publish p)
  with assms show ?thesis
    by (auto simp: releases_def publish_begin_def Let_def split: prod.splits if_splits)
next
  case (StartTrack loc route metadata)
  with assms show ?thesis by (simp add: releases_def)
next
  case (ResumeCall uid n)
  with e show ?thesis by (auto simp: Let_def split: prod.splits dest: track_sections(5) intro: keeps_queue)
next
  case AuthRefresh
  with e show ?thesis
    by (auto simp: Let_def hold_updates split: prod.splits option.splits dest!: hold_sections intro: keeps_queue)
next
  case (FlushSend frames g p)
  with e show ?thesis
    by (auto simp: Let_def split: prod.splits list.splits dest!: hold_sections intro: keeps_queue)
next
  case (SendSubs ds)
  with e show ?thesis by (auto split: list.splits dest!: send_then_queue intro: keeps_queue)
qed (use e in
    \<open>auto simp: Let_def hold_updates finish_queue split: prod.splits dest!: send_then_queue hold_sections
       intro: keeps_queue\<close>)

lemma step_conserves:
  "step (\<lambda>i t s. \<not> releases U i t s) U L C c c' \<Longrightarrow> keeps (fst c) (fst c')"
  by (induction rule: step.induct) (auto intro: exec_conserves keeps_queue)

lemma reach_conserves:
  "reach (\<lambda>i t s. \<not> releases U i t s) U L C c c' \<Longrightarrow> keeps (fst c) (fst c')"
  by (induction rule: reach.induct) (auto intro: step_conserves keeps_trans)

section \<open>Runs\<close>

text \<open>C4: Only five things take a sample out of the client: an acknowledgement by the server, the end or
  the loss of the track, the start of a new one, and a full queue. Along every run without these, in
  every interleaving, with any number of lost sockets, relocations, new credentials, flushes and
  calls, all samples stay, in their order.\<close>

theorem client_keeps_samples:
  assumes "reach (\<lambda>i t s. \<not> releases U i t s) U L C (s, ts) (s', ts')"
  shows "subseq (points_of (queue s)) (points_of (queue s'))"
  using reach_conserves [OF assms] by (simp add: keeps_def)

text \<open>A live sample is sent, the server names another node, and the client dials there.\<close>

definition demo_sample :: "sched list" where
  "demo_sample = demo_open @ demo_publish 0 55 @ demo_started @ demo_publish 2000 56"

definition demo_moved :: "sched list" where
  "demo_moved = RunTask 0 (got [0x81, 0, 0, 0, 0, 7, 0, 119, 115, 115, 58, 47, 47, 98]) #
     RunTask 0 quiet # replicate 4 (RunTask 1 quiet)"

definition before_and_after :: "offline_queue \<times> offline_queue \<times> u64" where
  "before_and_after = (case demo_run any_input demo_sample of (s, ts) \<Rightarrow>
     (case drive (\<lambda>i t s. \<not> releases raw_uuid i t s) raw_uuid plain_libm plain_url demo_moved (s, ts) of (s', ts') \<Rightarrow>
        (queue s, queue s', dial_gen s' - dial_gen s)))"

lemma demo_moved_counts: "(case before_and_after of (a, b, n) \<Rightarrow> (length (points_of a), n)) = (1, 1)"
  by code_simp

lemma client_keeps_samples_witness:
  "case before_and_after of (a, b, n) \<Rightarrow> subseq (points_of a) (points_of b) \<and> points_of a \<noteq> [] \<and> n = 1"
proof -
  let ?c = "demo_run any_input demo_sample"
  obtain s ts where c: "?c = (s, ts)" by fastforce
  let ?G = "\<lambda>i t s. \<not> releases raw_uuid i t s"
  obtain s' ts' where d: "drive ?G raw_uuid plain_libm plain_url demo_moved (s, ts) = (s', ts')" by fastforce
  have "reach ?G raw_uuid plain_libm plain_url (s, ts) (s', ts')"
    using drive_reach [of ?G raw_uuid plain_libm plain_url "(s, ts)" demo_moved] by (simp only: d)
  then have "subseq (points_of (queue s)) (points_of (queue s'))" by (rule client_keeps_samples)
  then show ?thesis
    using demo_moved_counts by (auto simp: before_and_after_def c d)
qed

end
