(* ===== verification/Session_Blocked.thy ===== *)
theory Session_Blocked
  imports Session_Correct Session_Conserve
begin

text \<open>
  Two standstills of the client of \<^verbatim>\<open>src/tracking/client.rs\<close>, over whole runs: a send
  window that stays full across re-dials, and a failed automatic start that blocks every later
  one. Each theorem names the steps that end the standstill, and holds for all runs without them.
\<close>

section \<open>A window that stays full\<close>

text \<open>
  The steps that can open a full window: an acknowledgement of one of its frames, the loss of
  the current socket, the end or the loss of the track, the start of a new one.
\<close>

definition acks_window :: "u64 \<Rightarrow> session \<Rightarrow> bool" where
  "acks_window a s \<longleftrightarrow> \<not> list_all (\<lambda>f. a < f) (sent_frame_seqs (queue s))"

fun frees_window :: "server_evt \<Rightarrow> session \<Rightarrow> bool" where
  "frees_window (Ack a) s = acks_window a s"
| "frees_window (ResumeOk uid a) s = acks_window a s"
| "frees_window (TrackStopped uid) s = (track_uid s = uid)"
| "frees_window (Error code _ _ _) s = (code = TrackNotFound \<or> is_fatal_resume_error code)"
| "frees_window _ s = False"

definition opens_window :: "uuid_crate \<Rightarrow> input \<Rightarrow> task \<Rightarrow> session \<Rightarrow> bool" where
  "opens_window U i t s = (case t of
       Read _ \<Rightarrow> (case in_read i of
           ReadBinary b \<Rightarrow> (case decode_server_evt U b of Inr (Some msg) \<Rightarrow> frees_window msg s | _ \<Rightarrow> False)
         | _ \<Rightarrow> False)
     | SocketClosed g \<Rightarrow> g = dial_gen s
     | Publish _ \<Rightarrow> track_uid s = [] \<and> \<not> starting s
     | StartTrack _ _ _ \<Rightarrow> True
     | _ \<Rightarrow> False)"

definition same_window :: "session \<Rightarrow> session \<Rightarrow> bool" where
  "same_window s s' \<longleftrightarrow> sent_frame_seqs (queue s') = sent_frame_seqs (queue s)"

lemma same_window_queue: "queue s' = queue s \<Longrightarrow> same_window s s'"
  by (simp add: same_window_def)

lemma full_flush: "window_full (queue s) \<Longrightarrow> flush_section s = ([], s)"
  by (simp add: flush_section_def Let_def window_full_def window_remaining_def)

lemma full_not_live: "window_full (queue s) \<Longrightarrow> fst (publish_section L now w1 w2 p s) \<noteq> Live n q"
  by (simp add: publish_section_def can_send_live_def Let_def split: prod.split option.split)

lemma full_publish:
  "window_full (queue s) \<Longrightarrow> publish_section L now w1 w2 p s = (po, s') \<Longrightarrow> same_window s s'"
  by (auto simp: publish_section_def can_send_live_def same_window_def push_staging_def Let_def
      split: if_splits prod.splits option.splits)

lemma unacked_window: "\<not> acks_window a s \<Longrightarrow> sent_frame_seqs (ack_through a (queue s)) = sent_frame_seqs (queue s)"
  by (simp add: acks_window_def ack_through_def list_all_iff)

lemma window_dispatch:
  assumes d: "dispatch_section g msg s = (s', new)" and keep: "\<not> frees_window msg s"
  shows "same_window s s'"
proof (cases msg)
  case (Ack a)
  with d keep show ?thesis
    by (auto simp: dispatch_section_def same_window_def on_ack_queue unacked_window)
next
  case (ResumeOk uid a)
  with d keep show ?thesis
    by (auto simp: dispatch_section_def same_window_def unacked_window split: prod.splits dest: track_sections)
next
  case (TrackStopped uid)
  with d keep show ?thesis
    by (auto simp: dispatch_section_def same_window_def on_track_stopped_def take_stop_wait_def Let_def)
next
  case (Error code message uid retry)
  with keep have "\<not> ends_samples msg" by simp
  with d show ?thesis by (intro same_window_queue) (rule dispatch_conserves)
qed (use d in \<open>auto intro!: same_window_queue dispatch_conserves [OF d]\<close>)

lemma window_exec:
  assumes e: "exec U L C i t s = Some (s', new)" and closed: "\<not> opens_window U i t s" and full: "window_full (queue s)"
  shows "same_window s s'"
proof (cases t)
  case (Read g)
  with e closed show ?thesis
    by (auto simp: opens_window_def read_section_def intro: same_window_queue
        split: read_frame.splits sum.splits option.splits dest: window_dispatch)
next
  case (FlushQueue g p)
  with e full show ?thesis by (auto simp: full_flush same_window_def)
next
  case (PublishRun p)
  with e full show ?thesis by (auto simp: Let_def split: prod.splits dest: full_publish)
next
  case (SocketClosed g)
  with e closed show ?thesis
    by (auto simp: opens_window_def on_socket_closed_section_def same_window_def)
next
  case (Publish p)
  with e closed show ?thesis
    by (auto simp: opens_window_def publish_begin_def same_window_def Let_def split: prod.splits if_splits)
next
  case (StartTrack loc route metadata)
  with closed show ?thesis by (simp add: opens_window_def)
next
  case (ResumeCall uid n)
  with e show ?thesis by (auto simp: Let_def split: prod.splits dest: track_sections(5) intro: same_window_queue)
next
  case AuthRefresh
  with e show ?thesis
    by (auto simp: Let_def hold_updates split: prod.splits option.splits dest!: hold_sections intro: same_window_queue)
next
  case (FlushSend frames g p)
  with e show ?thesis
    by (auto simp: Let_def split: prod.splits list.splits dest!: hold_sections intro: same_window_queue)
next
  case (SendSubs ds)
  with e show ?thesis by (auto split: list.splits dest!: send_then_queue intro: same_window_queue)
qed (use e in
    \<open>auto simp: Let_def hold_updates finish_queue split: prod.splits dest!: send_then_queue hold_sections
       intro: same_window_queue\<close>)

lemma window_reach:
  "reach (\<lambda>i t s. \<not> opens_window U i t s) U L C c c' \<Longrightarrow> window_full (queue (fst c)) \<Longrightarrow> same_window (fst c) (fst c')"
proof (induction rule: reach.induct)
  case (more c c1 c2)
  then have same: "same_window (fst c) (fst c1)" by blast
  with more.prems have full: "window_full (queue (fst c1))" by (simp add: same_window_def window_full_def)
  from more.hyps(2) have "same_window (fst c1) (fst c2)"
  proof (cases rule: step.cases)
    case (run k ts i s s' new)
    with full show ?thesis by (auto intro: window_exec)
  qed (simp_all add: same_window_def)
  with same show ?case by (simp add: same_window_def)
qed (simp add: same_window_def)

text \<open>C27: A relocation or new credentials re-dial without marking the old socket's frames as unsent. When
  they fill the window, it stays full on the new socket, through any number of re-dials, resumes,
  calls and events: nothing is flushed and no sample goes out live, until the server acknowledges
  one of those frames, the current socket is lost, the track ends or is lost, or a new one is
  started.\<close>

theorem redial_keeps_window_full:
  assumes "window_full (queue s)"
    and "reach (\<lambda>i t s. \<not> opens_window U i t s) U L C (s, ts) (s', ts')"
  shows "sent_frame_seqs (queue s') = sent_frame_seqs (queue s) \<and> flush_section s' = ([], s') \<and>
    (\<forall>n q. fst (publish_section L now w1 w2 p s') \<noteq> Live n q)"
proof -
  have same: "sent_frame_seqs (queue s') = sent_frame_seqs (queue s)"
    using window_reach [OF assms(2)] assms(1) by (simp add: same_window_def)
  then have "window_full (queue s')" using assms(1) by (simp add: window_full_def)
  with same show ?thesis by (simp add: full_flush full_not_live)
qed

text \<open>Eight frames are out on socket 1; a relocation leads to socket 2, and the track is resumed there.\<close>

definition demo_full :: session where
  "demo_full = demo_backlog\<lparr>queue := (queue demo_backlog)\<lparr>sent_frame_seqs := [1, 2, 3, 4, 5, 6, 7, 8]\<rparr>\<rparr>"

definition demo_relocated :: "sched list" where
  "demo_relocated =
     [RunTask 0 (got [0x81, 0, 0, 0, 0, 7, 0, 119, 115, 115, 58, 47, 47, 98]), RunTask 0 quiet, RunTask 1 quiet,
      RunTask 1 quiet, RunTask 1 quiet, RunTask 1 quiet, RunTask 2 quiet, RunTask 2 quiet,
      RunTask 1 (got (0x82 # replicate 16 7 @ [0, 0, 0, 0]))]"

definition demo_resumed :: client where
  "demo_resumed = drive (\<lambda>i t s. \<not> opens_window raw_uuid i t s) raw_uuid plain_libm plain_url demo_relocated
     (demo_full, [Read 1])"

lemma demo_resumed_state:
  "(case demo_resumed of (s, ts) \<Rightarrow> (session_ready s, conn s, out_tx s, inflight (queue s) \<noteq> [])) = (True, Open, Some 2, True)"
  by code_simp

lemma demo_full_window: "window_full (queue demo_full)"
  by code_simp

lemma redial_keeps_window_full_witness:
  "case demo_resumed of (s, ts) \<Rightarrow> session_ready s \<and> conn s = Open \<and> out_tx s = Some 2 \<and> inflight (queue s) \<noteq> [] \<and>
     sent_frame_seqs (queue s) = sent_frame_seqs (queue demo_full) \<and> flush_section s = ([], s)"
proof -
  obtain s ts where c: "demo_resumed = (s, ts)" by fastforce
  have "reach (\<lambda>i t s. \<not> opens_window raw_uuid i t s) raw_uuid plain_libm plain_url (demo_full, [Read 1]) (s, ts)"
    using drive_reach [of "\<lambda>i t s. \<not> opens_window raw_uuid i t s" raw_uuid plain_libm plain_url "(demo_full, [Read 1])" demo_relocated]
    by (simp only: demo_resumed_def [symmetric] c)
  from redial_keeps_window_full [OF demo_full_window this] demo_resumed_state show ?thesis
    by (auto simp: c)
qed

section \<open>A start that nothing ends\<close>

text \<open>
  The automatic start is under way, no call waits for it, and no track has come of it. The steps
  that end this: an answer that starts or resumes a track or denies one, a start or a resume that
  the user calls for, and a start whose frame could not be sent.
\<close>

definition start_pending :: "session \<Rightarrow> bool" where
  "start_pending s \<longleftrightarrow> starting s \<and> start_wait s = None \<and> track_uid s = [] \<and> \<not> session_ready s"

fun settles_start :: "server_evt \<Rightarrow> bool" where
  "settles_start (TrackStarted _ _) = True"
| "settles_start (ResumeOk _ _) = True"
| "settles_start (Error code _ _ _) = (code = TrackNotFound)"
| "settles_start _ = False"

definition ends_start :: "uuid_crate \<Rightarrow> input \<Rightarrow> task \<Rightarrow> session \<Rightarrow> bool" where
  "ends_start U i t s = (case t of
       Read _ \<Rightarrow> (case in_read i of
           ReadBinary b \<Rightarrow> (case decode_server_evt U b of Inr (Some msg) \<Rightarrow> settles_start msg | _ \<Rightarrow> False)
         | _ \<Rightarrow> False)
     | PublishStartFailed \<Rightarrow> True
     | StartTrack _ _ _ \<Rightarrow> True
     | StartFailed \<Rightarrow> True
     | ResumeCall _ _ \<Rightarrow> True
     | _ \<Rightarrow> False)"

lemma pending_waits [simp]:
  "start_pending (wake w r s) = start_pending s" "start_pending (drop_stop_wait s) = start_pending s"
  "start_pending (drop_resume_wait s) = start_pending s" "start_pending (hang_up s) = start_pending s"
  by (simp_all add: start_pending_def wake_def wait_defs hang_up_def split: option.split)

lemma pending_reject: "start_pending s \<Longrightarrow> start_pending (reject_pending_locked e s)"
  by (simp add: start_pending_def reject_pending_locked_def wait_defs wake_def Let_def split: option.split)

lemma pending_error:
  assumes "start_pending s" and "err_code e \<noteq> TrackNotFound"
  shows "start_pending (on_error e s)"
proof -
  have "start_pending (error_resume e s)"
    using assms(1) by (auto simp: error_resume_def start_pending_def wake_def Let_def split: option.split)
  then have "start_pending (error_waits e (error_resume e s))"
    by (auto simp: error_waits_def start_pending_def wake_def Let_def split: option.splits)
  with assms(2) show ?thesis by (simp add: on_error_eq Let_def)
qed

lemma pending_sections:
  "start_pending s \<Longrightarrow> send_bin b s = (r, s') \<Longrightarrow> start_pending s'"
  "start_pending s \<Longrightarrow> dial_begin s = (g, s') \<Longrightarrow> start_pending s'"
  "start_pending s \<Longrightarrow> dial_register g s = (r1, s') \<Longrightarrow> start_pending s'"
  "start_pending s \<Longrightarrow> resubscribe_section s = (ds, s') \<Longrightarrow> start_pending s'"
  "start_pending s \<Longrightarrow> resume_wait_begin s = (rw, s') \<Longrightarrow> start_pending s'"
  "start_pending s \<Longrightarrow> auth_refreshed d l s = (sr, cl, s') \<Longrightarrow> start_pending s'"
  "start_pending s \<Longrightarrow> stop_track_begin s = (t, s') \<Longrightarrow> start_pending s'"
  "start_pending s \<Longrightarrow> send_event_section now payload s = (eo, s') \<Longrightarrow> start_pending s'"
  "start_pending s \<Longrightarrow> unsubscribe_section uid s = (h, s') \<Longrightarrow> start_pending s'"
  "start_pending s \<Longrightarrow> recv_section s = (ev, s') \<Longrightarrow> start_pending s'"
  "start_pending s \<Longrightarrow> recv_command_section s = (c, s') \<Longrightarrow> start_pending s'"
  by (auto simp: send_bin_def dial_begin_def dial_register_def resubscribe_section_def resume_wait_begin_def
      auth_refreshed_def stop_track_begin_def new_stop_wait_def wait_defs wake_def hang_up_def send_event_section_def unsubscribe_section_def
      recv_section_def recv_command_section_def start_pending_def Let_def
      split: if_splits option.splits list.splits)

lemma pending_close: "start_pending s \<Longrightarrow> close_section s = (tx, s') \<Longrightarrow> start_pending s'"
  using pending_reject [of "s\<lparr>intentional := True, conn := Closed, session_ready := False\<rparr>"]
  by (auto simp: close_section_def start_pending_def Let_def)

lemma pending_socket_closed:
  assumes "start_pending s" and "on_socket_closed_section g x s = (rc, s')"
  shows "start_pending s'"
proof -
  have upd: "start_pending t \<Longrightarrow> start_pending (t\<lparr>conn := c\<rparr>)" "start_pending t \<Longrightarrow> start_pending (t\<lparr>backoff := b\<rparr>)"
    "start_pending t \<Longrightarrow> start_pending (t\<lparr>out_tx := None, session_ready := False, queue := q,
       sub_by_device := Map.empty, device_by_sub := Map.empty\<rparr>)" for t c b q
    by (simp_all add: start_pending_def)
  show ?thesis
    using assms unfolding on_socket_closed_section_def Let_def
    by (auto intro!: pending_reject upd split: if_splits option.splits prod.splits)
qed

lemma pending_publish:
  assumes "start_pending s"
  shows "publish_begin w1 w2 p s = (None, s)"
    and "fst (publish_section L now w1 w2 p s) \<noteq> Live n q"
    and "publish_section L now w1 w2 p s = (po, s') \<Longrightarrow> start_pending s'"
  using assms
  by (auto simp: publish_begin_def publish_section_def can_send_live_def start_pending_def Let_def
      split: if_splits prod.splits option.splits)

lemma pending_flush: "start_pending s \<Longrightarrow> flush_section s = ([], s)"
  by (simp add: flush_section_def start_pending_def)

lemma pending_updates:
  "start_pending s \<Longrightarrow> start_pending (notify e s)"
  "start_pending s \<Longrightarrow> start_pending (relocate_endpoint rel s)"
  "start_pending s \<Longrightarrow> start_pending (auth_no_refresh s)"
  "start_pending s \<Longrightarrow> start_pending (auth_refresh_failed s)"
  "start_pending s \<Longrightarrow> start_pending (on_ack a s)"
  "start_pending s \<Longrightarrow> start_pending (on_subscribed sub uid s)"
  "start_pending s \<Longrightarrow> start_pending (on_command uid payload ts s)"
  "start_pending s \<Longrightarrow> start_pending (on_fanout msg sub s)"
  "start_pending s \<Longrightarrow> start_pending (resume_failed s)"
  "start_pending s \<Longrightarrow> start_pending (stop_track_failed s)"
  "start_pending s \<Longrightarrow> start_pending (subscribe_section uid s)"
  "start_pending s \<Longrightarrow> start_pending (close_socket tx s)"
  by (simp_all add: notify_def relocate_endpoint_def auth_no_refresh_def auth_refresh_failed_def on_ack_def
      on_subscribed_def on_command_def on_fanout_def resume_failed_def stop_track_failed_def subscribe_section_def
      close_socket_def hang_up_def start_pending_def wait_defs wake_def Let_def split: option.split)

lemma pending_stopped: "start_pending s \<Longrightarrow> on_track_stopped uid s = (w, s') \<Longrightarrow> start_pending s'"
  by (auto simp: on_track_stopped_def take_stop_wait_def start_pending_def Let_def split: if_splits)

lemma pending_finish: "start_pending s \<Longrightarrow> start_pending (finish_section p s)"
  by (cases p) (auto simp: finish_section_def Let_def pending_updates split: option.splits)

lemma pending_send_then: "start_pending s \<Longrightarrow> send_then U cmd ok failed s = (s', new) \<Longrightarrow> start_pending s'"
  by (auto simp: send_then_def send_cmd_def Let_def split: prod.splits dest: pending_sections)

lemma pending_dispatch:
  assumes d: "dispatch_section g msg s = (s', new)" and "\<not> settles_start msg" and "start_pending s"
  shows "start_pending s'"
  using assms
  by (cases msg)
    (auto simp: dispatch_section_def Let_def error_from_evt_def pending_updates split: prod.splits
      dest: pending_stopped intro!: pending_error)

lemma pending_exec:
  assumes e: "exec U L C i t s = Some (s', new)" and go: "\<not> ends_start U i t s" and p: "start_pending s"
  shows "start_pending s'"
proof (cases t)
  case (Read g)
  with assms show ?thesis
    by (auto simp: ends_start_def read_section_def split: read_frame.splits sum.splits option.splits
        dest: pending_dispatch)
next
  case (FlushQueue g q)
  with e p show ?thesis by (auto simp: pending_flush)
next
  case (PublishRun pt)
  with e p show ?thesis by (auto simp: Let_def split: prod.splits dest: pending_publish(3))
next
  case (SocketClosed g)
  with e p show ?thesis by (auto simp: Let_def split: prod.splits dest: pending_socket_closed)
next
  case (Publish pt)
  with e p show ?thesis by (auto simp: pending_publish(1))
next
  case AuthRefresh
  with e p show ?thesis
    by (auto simp: Let_def pending_updates split: prod.splits option.splits dest: pending_sections)
next
  case (FlushSend frames g q)
  with e p show ?thesis
    by (auto simp: Let_def split: prod.splits list.splits dest: pending_sections)
next
  case (SendSubs ds)
  with e p show ?thesis by (auto split: list.splits dest: pending_send_then)
qed (use e go p in
    \<open>auto simp: ends_start_def Let_def pending_updates pending_finish split: prod.splits
       dest: pending_send_then pending_sections pending_close\<close>)

lemma pending_reach:
  "reach (\<lambda>i t s. \<not> ends_start U i t s) U L C c c' \<Longrightarrow> start_pending (fst c) \<Longrightarrow> start_pending (fst c')"
proof (induction rule: reach.induct)
  case (more c c1 c2)
  then have p: "start_pending (fst c1)" by blast
  from more.hyps(2) show ?case
  proof (cases rule: step.cases)
    case (run k ts i s s' new)
    with p show ?thesis by (auto intro: pending_exec)
  qed (use p in \<open>simp_all add: start_pending_def\<close>)
qed

text \<open>C28: When the server answers an automatic TrackStart with an error other than TrackNotFound, or the
  socket drops before TrackStarted, the client goes on believing that a start is under way. In
  every run from there, however often the user publishes, no track is started, nothing is flushed
  and no sample goes out live, until the user starts or resumes a track, a late answer of the
  server starts, resumes or denies one, or a start frame sent before fails.\<close>

theorem failed_auto_start_blocks:
  assumes "starting s" and "start_wait s = None" and "track_uid s = []" and "\<not> session_ready s"
    and "s1 = on_error e s \<and> err_code e \<noteq> TrackNotFound \<or> s1 = snd (on_socket_closed_section g x s)"
    and "reach (\<lambda>i t s. \<not> ends_start U i t s) U L C (s1, ts) (s', ts')"
  shows "publish_begin w1 w2 p s' = (None, s') \<and> flush_section s' = ([], s') \<and>
    (\<forall>n q. fst (publish_section L now wall clock p s') \<noteq> Live n q)"
proof -
  have "start_pending s" using assms(1-4) by (simp add: start_pending_def)
  then have "start_pending s1"
    using assms(5) pending_error pending_socket_closed [OF _ prod.collapse [symmetric]] by blast
  then have "start_pending s'" using pending_reach [OF assms(6)] by simp
  then show ?thesis by (simp add: pending_publish pending_flush)
qed

text \<open>The first sample starts a track; the server is busy; two more samples follow.\<close>

definition demo_starting :: client where
  "demo_starting = demo_run any_input (demo_open @ demo_publish 0 55)"

definition demo_later :: "sched list" where
  "demo_later = demo_publish 2000 55 @ [MakeCall (Publish (north 55)), RunTask 1 (at_time 4000)]"

lemma demo_starting_state:
  "(case demo_starting of (s, ts) \<Rightarrow> (starting s, start_wait s, track_uid s, session_ready s)) = (True, None, [], False)"
  by code_simp

lemma failed_auto_start_blocks_witness:
  "case demo_starting of (s, ts) \<Rightarrow>
     (case drive (\<lambda>i t s. \<not> ends_start raw_uuid i t s) raw_uuid plain_libm plain_url demo_later
         (on_error (new_error TryAgain ''busy'') s, ts) of (s', ts') \<Rightarrow>
       publish_begin 0 0 (north 55) s' = (None, s') \<and> flush_section s' = ([], s'))"
proof -
  let ?G = "\<lambda>i t s. \<not> ends_start raw_uuid i t s"
  obtain s ts where c: "demo_starting = (s, ts)" by fastforce
  have "(starting s, start_wait s, track_uid s, session_ready s) = (True, None, [], False)"
    using demo_starting_state unfolding c prod.case .
  then have st: "starting s" "start_wait s = None" "track_uid s = []" "\<not> session_ready s" by simp_all
  let ?s1 = "on_error (new_error TryAgain ''busy'') s"
  have s1: "?s1 = on_error (new_error TryAgain ''busy'') s \<and> err_code (new_error TryAgain ''busy'') \<noteq> TrackNotFound \<or>
      ?s1 = snd (on_socket_closed_section 0 (f64_of_int 0) s)" by (simp add: new_error_def)
  obtain s' ts' where d: "drive ?G raw_uuid plain_libm plain_url demo_later (?s1, ts) = (s', ts')" by fastforce
  have "reach ?G raw_uuid plain_libm plain_url (?s1, ts) (s', ts')"
    using drive_reach [of ?G raw_uuid plain_libm plain_url "(?s1, ts)" demo_later] by (simp only: d)
  from failed_auto_start_blocks [OF st s1 this] show ?thesis by (simp add: c d)
qed

end
