(* ===== verification/Session_Stranded.thy ===== *)
theory Session_Stranded
  imports Session_Sched
begin

text \<open>
  Clients that nothing connects again (\<^verbatim>\<open>src/tracking/client.rs\<close>). The dial after
  new credentials is made for nobody: its error is dropped, and since \<^verbatim>\<open>dial_gen\<close> has
  moved on, the reader of the old socket does nothing either. \<open>idle_task\<close> are the tasks that
  may be left then: the calls, the reader of an old socket and what follows what it reads.
\<close>

fun idle_task :: "u64 \<Rightarrow> task \<Rightarrow> bool" where
  "idle_task g (SocketClosed h) = (h \<noteq> g)"
| "idle_task g (Read h) = (h \<noteq> g)"
| "idle_task g (FlushQueue h p) = (h \<noteq> g)"
| "idle_task g (FlushSend frames h p) = (h \<noteq> g)"
| "idle_task g (Finish h p) = (h \<noteq> g)"
| "idle_task g (CloseTx tx) = (tx = None)"
| "idle_task g (ResumeTrack retry) = (\<not> retry)"
| "idle_task g (ResumeSend cmd t retry) = (\<not> retry)"
| "idle_task g (ResumeAwait t retry) = (\<not> retry)"
| "idle_task g (ResumeAgain retry) = (\<not> retry)"
| "idle_task g (Dial sr retry) = False"
| "idle_task g (DialNet h c sr retry) = False"
| "idle_task g (DialRegister h sr retry) = False"
| "idle_task g (RelocateSet rel sr retry) = False"
| "idle_task g (RelocateCheck sr retry) = False"
| "idle_task g RetryDial = False"
| "idle_task g (BackoffSleep sr) = False"
| "idle_task g AuthError = False"
| "idle_task g AuthGiveUp = False"
| "idle_task g AuthRefresh = False"
| "idle_task g _ = True"

text \<open>
  What an old socket may still deliver: anything but a relocation or another refusal of the
  credentials, which make the client dial once more.
\<close>

fun calls_away :: "server_evt \<Rightarrow> bool" where
  "calls_away (Relocate _ _) = True"
| "calls_away (Error code _ _ _) = is_auth_error code"
| "calls_away _ = False"

definition no_rescue :: "uuid_crate \<Rightarrow> input \<Rightarrow> task \<Rightarrow> session \<Rightarrow> bool" where
  "no_rescue U i t s \<longleftrightarrow> (case t of
       Read _ \<Rightarrow> (case in_read i of
           ReadBinary b \<Rightarrow> (case decode_server_evt U b of Inr (Some msg) \<Rightarrow> \<not> calls_away msg | _ \<Rightarrow> True)
         | _ \<Rightarrow> True)
     | _ \<Rightarrow> True)"

text \<open>No socket, and only tasks that are idle for the current dial and for another one.\<close>

definition stranded :: "u64 \<Rightarrow> client \<Rightarrow> bool" where
  "stranded g c \<longleftrightarrow> (case c of (s, ts) \<Rightarrow>
     out_tx s = None \<and> list_all (idle_task (dial_gen s)) ts \<and> list_all (idle_task g) ts)"

text \<open>Without a socket, and what a step may change: the state goes to \<open>Closed\<close> or stays.\<close>

definition still_off :: "session \<Rightarrow> session \<Rightarrow> bool" where
  "still_off s s' \<longleftrightarrow> out_tx s' = None \<and> dial_gen s' = dial_gen s \<and> out_log s' = out_log s \<and>
     (conn s' = conn s \<or> conn s' = Closed)"

lemma still_off_refl: "out_tx s = None \<Longrightarrow> still_off s s"
  by (simp add: still_off_def)

lemma still_off_trans: "still_off a b \<Longrightarrow> still_off b c \<Longrightarrow> still_off a c"
  by (auto simp: still_off_def)

lemma no_socket_send: "out_tx s = None \<Longrightarrow> send_bin b s = (r, s') \<Longrightarrow> s' = s \<and> isl r"
  by (auto simp: send_bin_def split: if_splits)

lemma no_socket_send_then:
  "out_tx s = None \<Longrightarrow> send_then U cmd ok failed s = (s', new) \<Longrightarrow> s' = s \<and> new = failed"
  by (auto simp: send_then_def send_cmd_def Let_def split: prod.splits sum.splits dest: no_socket_send)

lemma wake_off [simp]:
  "out_tx (wake w r s) = out_tx s" "dial_gen (wake w r s) = dial_gen s" "out_log (wake w r s) = out_log s"
  "conn (wake w r s) = conn s"
  by (simp_all add: wake_def split: option.split)

lemma drop_off [simp]:
  "out_tx (drop_start_wait s) = out_tx s" "dial_gen (drop_start_wait s) = dial_gen s"
  "out_log (drop_start_wait s) = out_log s" "conn (drop_start_wait s) = conn s"
  "out_tx (drop_stop_wait s) = out_tx s" "dial_gen (drop_stop_wait s) = dial_gen s"
  "out_log (drop_stop_wait s) = out_log s" "conn (drop_stop_wait s) = conn s"
  "out_tx (drop_resume_wait s) = out_tx s" "dial_gen (drop_resume_wait s) = dial_gen s"
  "out_log (drop_resume_wait s) = out_log s" "conn (drop_resume_wait s) = conn s"
  by (simp_all add: wait_defs)

lemma reject_off [simp]:
  "out_tx (reject_pending_locked e s) = out_tx s" "dial_gen (reject_pending_locked e s) = dial_gen s"
  "out_log (reject_pending_locked e s) = out_log s" "conn (reject_pending_locked e s) = conn s"
  by (simp_all add: reject_pending_locked_def wait_defs Let_def)

lemma new_wait_off:
  "out_tx s = None \<Longrightarrow> new_start_wait s = (t, s') \<Longrightarrow> still_off s s'"
  "out_tx s = None \<Longrightarrow> new_stop_wait s = (t, s') \<Longrightarrow> still_off s s'"
  "out_tx s = None \<Longrightarrow> new_resume_wait s = (t, s') \<Longrightarrow> still_off s s'"
  by (auto simp: still_off_def new_start_wait_def new_stop_wait_def new_resume_wait_def Let_def)

lemma off_calls:
  "out_tx s = None \<Longrightarrow> publish_begin w1 w2 p s = (cmd, s') \<Longrightarrow> still_off s s'"
  "out_tx s = None \<Longrightarrow> send_event_section now payload s = (eo, s') \<Longrightarrow> still_off s s'"
  "out_tx s = None \<Longrightarrow> unsubscribe_section uid s = (h, s') \<Longrightarrow> still_off s s'"
  "out_tx s = None \<Longrightarrow> recv_section s = (ev, s') \<Longrightarrow> still_off s s'"
  "out_tx s = None \<Longrightarrow> recv_command_section s = (c, s') \<Longrightarrow> still_off s s'"
  by (auto simp: still_off_def publish_begin_def send_event_section_def unsubscribe_section_def recv_section_def
      recv_command_section_def Let_def split: if_splits list.splits)

lemma off_start: "out_tx s = None \<Longrightarrow> start_track_begin w loc s = (t, s') \<Longrightarrow> still_off s s'"
  by (auto simp: still_off_def start_track_begin_def new_start_wait_def Let_def split: option.splits)

lemma off_resume: "out_tx s = None \<Longrightarrow> resume_begin uid n s = (t, s') \<Longrightarrow> still_off s s'"
  by (auto simp: still_off_def resume_begin_def new_resume_wait_def Let_def)

lemma off_close: "out_tx s = None \<Longrightarrow> close_section s = (tx, s') \<Longrightarrow> still_off s s' \<and> tx = None"
  by (auto simp: still_off_def close_section_def Let_def)

lemma off_updates:
  "out_tx s = None \<Longrightarrow> still_off s (start_sent_failed s)"
  "out_tx s = None \<Longrightarrow> still_off s (start_track_failed s)"
  "out_tx s = None \<Longrightarrow> still_off s (resume_failed s)"
  "out_tx s = None \<Longrightarrow> still_off s (stop_track_failed s)"
  "out_tx s = None \<Longrightarrow> still_off s (subscribe_section uid s)"
  "out_tx s = None \<Longrightarrow> still_off s (close_socket None s)"
  by (simp_all add: still_off_def start_sent_failed_def start_track_failed_def resume_failed_def stop_track_failed_def
      subscribe_section_def close_socket_def)

lemma off_publish:
  "out_tx s = None \<Longrightarrow> publish_section L now w1 w2 p s = (po, s') \<Longrightarrow>
   still_off s s' \<and> list_all (idle_task g) (case po of Live seq p \<Rightarrow> [Send (live_cmd seq p)] | _ \<Rightarrow> [])"
  by (auto simp: still_off_def publish_section_def can_send_live_def Let_def split: if_splits prod.splits option.splits)

lemma off_flush: "out_tx s = None \<Longrightarrow> flush_section s = (frames, s') \<Longrightarrow> frames = [] \<and> s' = s"
  by (auto simp: flush_section_def split: if_splits)

lemma off_notify: "out_tx s = None \<Longrightarrow> still_off s (notify e s)"
  by (simp add: still_off_def notify_def)

lemma off_finish: "out_tx s = None \<Longrightarrow> still_off s (finish_section p s)"
  by (cases p) (simp add: still_off_def finish_section_def notify_def Let_def split: option.split)

lemma off_track_events:
  "out_tx s = None \<Longrightarrow> on_resume_ok uid a s = (w, s') \<Longrightarrow> still_off s s'"
  "out_tx s = None \<Longrightarrow> on_track_started uid s = (w, s') \<Longrightarrow> still_off s s'"
  "out_tx s = None \<Longrightarrow> on_track_stopped uid s = (w, s') \<Longrightarrow> still_off s s'"
  by (auto simp: still_off_def on_resume_ok_def on_track_started_def on_track_stopped_def take_start_wait_def
      take_stop_wait_def take_resume_wait_def Let_def)

lemma off_events:
  "out_tx s = None \<Longrightarrow> still_off s (on_ack a s)"
  "out_tx s = None \<Longrightarrow> still_off s (on_error err s)"
  "out_tx s = None \<Longrightarrow> still_off s (on_subscribed sub uid s)"
  "out_tx s = None \<Longrightarrow> still_off s (on_command uid payload ts s)"
  "out_tx s = None \<Longrightarrow> still_off s (on_fanout msg sub s)"
  by (simp_all add: still_off_def on_ack_def on_error_def on_subscribed_def on_command_def on_fanout_def notify_def
      Let_def split: option.split)

lemma off_resumes:
  "out_tx s = None \<Longrightarrow> resubscribe_section s = (ds, s') \<Longrightarrow> still_off s s'"
  "out_tx s = None \<Longrightarrow> resume_wait_begin s = (rw, s') \<Longrightarrow> still_off s s'"
  by (auto simp: still_off_def resubscribe_section_def resume_wait_begin_def new_resume_wait_def Let_def
      split: if_splits)

lemma off_dispatch:
  assumes "dispatch_section h msg s = (s', new)" and "\<not> calls_away msg" and off: "out_tx s = None"
  shows "still_off s s' \<and> (\<forall>g. h \<noteq> g \<longrightarrow> list_all (idle_task g) new)"
  using assms
  by (cases msg)
    (auto simp: dispatch_section_def Let_def still_off_refl off_events split: prod.splits
      dest: off_track_events [OF off])

lemma off_read:
  assumes "read_section U h f s = (s', new)" and off: "out_tx s = None"
    and "\<And>b msg. f = ReadBinary b \<Longrightarrow> decode_server_evt U b = Inr (Some msg) \<Longrightarrow> \<not> calls_away msg"
  shows "still_off s s' \<and> (\<forall>g. h \<noteq> g \<longrightarrow> list_all (idle_task g) new)"
  using assms
  by (auto simp: read_section_def still_off_refl split: read_frame.splits sum.splits option.splits dest: off_dispatch)

lemma idle_exec:
  assumes e: "exec U L C i t s = Some (s', new)" and now: "idle_task (dial_gen s) t" and off: "out_tx s = None"
    and guard: "no_rescue U i t s"
  shows "still_off s s' \<and> (\<forall>g. idle_task g t \<longrightarrow> list_all (idle_task g) new)"
proof (cases t)
  case (Read h)
  with e have "read_section U h (in_read i) s = (s', new)" by simp
  then have "still_off s s' \<and> (\<forall>g. h \<noteq> g \<longrightarrow> list_all (idle_task g) new)"
    by (rule off_read [OF _ off]) (use guard Read in \<open>simp add: no_rescue_def\<close>)
  with Read show ?thesis by simp
next
  case (FlushQueue h p)
  with e off show ?thesis by (auto simp: Let_def still_off_refl split: prod.splits dest!: off_flush [OF off])
next
  case (FlushSend frames h p)
  with e off show ?thesis
    by (auto simp: Let_def still_off_refl split: list.splits prod.splits sum.splits dest!: no_socket_send [OF off])
next
  case (Finish h p)
  with e off show ?thesis by (auto simp: off_finish)
next
  case (SendSubs ds)
  with e off show ?thesis by (auto simp: still_off_refl split: list.splits dest!: no_socket_send_then [OF off])
next
  case (ResumeTrack retry)
  with e off now show ?thesis by (auto simp: Let_def split: prod.splits option.splits dest: off_resumes)
next
  case (ResumeAwait w retry)
  have "list_all (idle_task g) (resume_answer res [Resubscribe] [ResumeAgain False] [])" for res g
    by (simp add: resume_answer_def split: option.split sum.split)
  with e off now ResumeAwait show ?thesis by (auto simp: still_off_refl dial_failed_def)
next
  case (PublishRun p)
  with e off show ?thesis by (auto simp: Let_def split: prod.splits dest: off_publish)
next
  case (ResumeCallAwait uid n w)
  have "list_all (idle_task g) (resume_answer res [] [ResumeCall uid n] [])" for res g
    by (simp add: resume_answer_def split: option.split sum.split)
  with e off ResumeCallAwait show ?thesis by (auto simp: still_off_refl)
next
  case (SocketClosed h)
  with assms show ?thesis
    by (auto simp: on_socket_closed_section_def Let_def still_off_refl split: if_splits)
next
  case (CloseTx tx)
  with assms show ?thesis by (auto simp: off_updates)
qed (use e now off in \<open>auto simp: Let_def still_off_refl off_updates [OF off] stop_track_begin_def dial_failed_def
    split: prod.splits option.splits dest!: no_socket_send_then [OF off]
    dest: off_calls [OF off] off_start [OF off] off_resume [OF off] off_close [OF off] new_wait_off [OF off]
      off_resumes [OF off]\<close>)

lemma idle_call: "is_call t \<Longrightarrow> idle_task g t"
  by (cases t) auto

lemma list_all_remove_nth: "list_all P ts \<Longrightarrow> list_all P (remove_nth k ts)"
  by (auto simp: remove_nth_def list_all_iff dest: in_set_takeD in_set_dropD)

lemma stranded_step:
  "step (no_rescue U) U L C c c' \<Longrightarrow> stranded g c \<Longrightarrow> stranded g c' \<and> still_off (fst c) (fst c')"
proof (induction rule: step.induct)
  case (run k ts i s s' new)
  then have "idle_task (dial_gen s) (ts ! k)" "idle_task g (ts ! k)" "out_tx s = None"
    by (auto simp: stranded_def list_all_length)
  with idle_exec [OF run(3) this(1,3) run(2)] run show ?case
    by (auto simp: stranded_def still_off_def list_all_remove_nth)
qed (auto simp: stranded_def still_off_def idle_call)

lemma stranded_reach:
  "reach (no_rescue U) U L C c c' \<Longrightarrow> stranded g c \<Longrightarrow> stranded g c' \<and> still_off (fst c) (fst c')"
proof (induction rule: reach.induct)
  case (start c)
  then show ?case by (cases c) (auto simp: stranded_def still_off_def)
next
  case (more c c1 c2)
  then show ?case using stranded_step by (blast intro: still_off_trans)
qed

section \<open>A dial whose error nobody sees\<close>

lemma refreshed_state:
  "auth_refreshed d l s = (sr, cl, s') \<Longrightarrow>
   cl = intentional s \<and> out_tx s' = None \<and> dial_gen s' = dial_gen s + 1 \<and> conn s' = conn s \<and> intentional s' = intentional s"
  by (auto simp: auth_refreshed_def hang_up_def Let_def split: option.splits)

lemma refreshed_off:
  assumes "exec U L C i AuthRefresh s = Some (s1, [t])"
  shows "\<exists>sr. t = Dial sr False \<and> out_tx s1 = None \<and> dial_gen s1 = dial_gen s + 1"
  using assms by (auto split: option.splits prod.splits if_splits dest!: refreshed_state)

lemma dial_off:
  assumes "exec U L C i (Dial sr retry) s = Some (s1, [t])"
  shows "t = DialNet (dial_gen s1) (cfg s) sr retry \<and> dial_gen s1 = dial_gen s + 1 \<and> out_tx s1 = out_tx s \<and>
    out_log s1 = out_log s \<and> conn s1 \<noteq> Open"
  using assms by (auto simp: dial_begin_def Let_def split: if_splits)

text \<open>C26: When the dial that follows new credentials fails, the client is lost for good, although it is not
  closed: nothing dials again, whatever is called and whatever happens, so it never has a socket
  again and nothing is ever sent. Between the three steps, and afterwards, any calls, the reader of
  the old socket and what follows what it reads may run, as long as that socket brings no
  relocation and no further refusal of credentials.\<close>

theorem failed_redial_strands_client:
  assumes refresh: "exec U L C i1 AuthRefresh s = Some (s1, [t1])"
    and others: "list_all (\<lambda>t. idle_task (dial_gen s + 1) t \<and> idle_task (dial_gen s + 2) t) ts"
    and run1: "reach (no_rescue U) U L C (s1, ts) (s2, ts2)"
    and dial: "exec U L C i2 t1 s2 = Some (s3, [t3])"
    and run2: "reach (no_rescue U) U L C (s3, ts2) (s4, ts4)"
    and fails: "dial_network U C (cfg s2) (in_first i3) = HelloFailed e"
    and network: "exec U L C i3 t3 s4 = Some (s5, new)"
    and run3: "reach (no_rescue U) U L C (s5, ts4 @ new) (s', ts')"
  shows "out_tx s' = None \<and> conn s' \<noteq> Open \<and> out_log s' = out_log s1 \<and> dial_gen s' = dial_gen s + 2"
proof -
  obtain sr where t1: "t1 = Dial sr False" and s1: "out_tx s1 = None" "dial_gen s1 = dial_gen s + 1"
    using refreshed_off [OF refresh] by blast
  have "stranded (dial_gen s + 2) (s1, ts)" using s1 others by (auto simp: stranded_def list_all_iff)
  from stranded_reach [OF run1 this] have s2: "stranded (dial_gen s + 2) (s2, ts2)" "still_off s1 s2" by simp_all
  have gen2: "dial_gen s2 = dial_gen s + 1" using s1 s2(2) by (simp add: still_off_def)
  have t3: "t3 = DialNet (dial_gen s3) (cfg s2) sr False"
    and s3: "dial_gen s3 = dial_gen s + 2" "out_tx s3 = None" "out_log s3 = out_log s1" "conn s3 \<noteq> Open"
    using dial_off [OF dial [unfolded t1]] s2 gen2 by (auto simp: still_off_def)
  have "stranded (dial_gen s + 2) (s3, ts2)" using s2(1) s3 by (simp add: stranded_def)
  from stranded_reach [OF run2 this] have s4: "stranded (dial_gen s + 2) (s4, ts4)" "still_off s3 s4" by simp_all
  have "s5 = s4 \<and> new = []" using network t3 fails by (simp add: dial_failed_def)
  with s4(1) have "stranded (dial_gen s + 2) (s5, ts4 @ new)" by simp
  from stranded_reach [OF run3 this] have "still_off s5 s'" by simp
  with s3 s4(2) \<open>s5 = s4 \<and> new = []\<close> show ?thesis by (auto simp: still_off_def)
qed

text \<open>The server refuses the credentials; the callback gives new ones; the network is down.\<close>

definition demo_refresh_start :: session where
  "demo_refresh_start = demo_start\<lparr>cfg := demo_cfg\<lparr>refresh_auth := True\<rparr>\<rparr>"

definition demo_refused :: "sched list" where
  "demo_refused = demo_open @
     [RunTask 0 (got ([0x88, 1, 0, 0, 0, 0] @ replicate 16 0 @ [0, 0])), RunTask 0 quiet, RunTask 0 quiet]"

definition new_secret :: input where
  "new_secret = quiet\<lparr>in_refresh := Some (Some \<lparr>client_id = ''id'', client_secret = ''new''\<rparr>, None)\<rparr>"

definition net_down :: input where
  "net_down = quiet\<lparr>in_first := DialFailed ''down''\<rparr>"

definition demo_asking :: client where
  "demo_asking = drive any_input raw_uuid plain_libm plain_url demo_refused (client_init demo_refresh_start)"

lemma demo_asking_state:
  "(case demo_asking of (s, ts) \<Rightarrow> (intentional s, dial_gen s, conn s, ts)) = (False, 1, Open, [AuthRefresh, Read 1])"
  by code_simp

lemma down_fails: "\<exists>e. dial_network U C c (in_first net_down) = HelloFailed e"
  by (simp add: dial_network_def net_down_def quiet_def split: sum.split)

lemma failed_redial_strands_client_witness:
  "\<exists>s s5. demo_asking = (s, [AuthRefresh, Read 1]) \<and> conn s = Open \<and>
     drive any_input raw_uuid plain_libm plain_url [RunTask 0 new_secret, RunTask 1 quiet, RunTask 1 net_down]
       (s, [AuthRefresh, Read 1]) = (s5, [Read 1]) \<and>
     conn s5 = Reconnecting \<and> \<not> intentional s5 \<and>
     (\<forall>s' ts'. reach (no_rescue raw_uuid) raw_uuid plain_libm plain_url (s5, [Read 1]) (s', ts') \<longrightarrow>
        out_tx s' = None \<and> conn s' \<noteq> Open)"
proof -
  let ?U = raw_uuid and ?L = plain_libm and ?C = plain_url
  obtain s ts where a: "demo_asking = (s, ts)" by fastforce
  have "(intentional s, dial_gen s, conn s, ts) = (False, 1, Open, [AuthRefresh, Read 1])"
    using demo_asking_state unfolding a prod.case .
  with a have c: "demo_asking = (s, [AuthRefresh, Read 1])" and st: "\<not> intentional s" "dial_gen s = 1" "conn s = Open"
    by simp_all
  obtain sr cl s1 where r: "auth_refreshed (Some \<lparr>client_id = ''id'', client_secret = ''new''\<rparr>) None s = (sr, cl, s1)"
    by (metis prod_cases3)
  let ?t1 = "Dial sr False"
  have s1: "conn s1 = Open" "\<not> intentional s1" "\<not> cl" using refreshed_state [OF r] st by simp_all
  with r have refresh: "exec ?U ?L ?C new_secret AuthRefresh s = Some (s1, [?t1])"
    by (simp add: new_secret_def)
  let ?s3 = "snd (dial_begin s1)"
  have dial: "exec ?U ?L ?C quiet ?t1 s1 = Some (?s3, [DialNet (dial_gen s1 + 1) (cfg s1) sr False])"
    by (simp add: dial_begin_def Let_def)
  obtain e where down: "dial_network ?U ?C (cfg s1) (in_first net_down) = HelloFailed e" using down_fails by blast
  have net: "exec ?U ?L ?C net_down (DialNet (dial_gen s1 + 1) (cfg s1) sr False) ?s3 = Some (?s3, [])"
    using down by (simp add: dial_failed_def)
  have "out_tx s' = None \<and> conn s' \<noteq> Open"
    if run: "reach (no_rescue ?U) ?U ?L ?C (?s3, [Read 1]) (s', ts')" for s' ts'
    using failed_redial_strands_client [OF refresh _ reach.start dial reach.start down net, of "[Read 1]" s' ts'] run st
    by simp
  moreover have "drive any_input ?U ?L ?C [RunTask 0 new_secret, RunTask 1 quiet, RunTask 1 net_down]
      (s, [AuthRefresh, Read 1]) = (?s3, [Read 1])"
    using refresh dial net by (simp add: remove_nth_def del: exec.simps)
  moreover have "conn ?s3 = Reconnecting" "\<not> intentional ?s3" using s1 by (simp_all add: dial_begin_def Let_def)
  ultimately show ?thesis using c st by blast
qed

end
