(* ===== verification/Session_Rate.thy ===== *)
theory Session_Rate
  imports Session_Sched
begin

text \<open>
  The publish gate (\<^verbatim>\<open>src/tracking/rate.rs\<close>) as the client runs it: along every
  schedule of tasks, calls and network events, the instants at which calls of
  \<^verbatim>\<open>publish\<close> pass it. Only \<open>publish_section\<close> moves the gate, and only forwards, so
  \<open>t \<le> next_publish_at s\<close> is kept by every step.
\<close>

section \<open>The gate moves forwards\<close>

lemma gate_waits [simp]:
  "next_publish_at (wake w r s) = next_publish_at s"
  "next_publish_at (drop_start_wait s) = next_publish_at s"
  "next_publish_at (drop_stop_wait s) = next_publish_at s"
  "next_publish_at (drop_resume_wait s) = next_publish_at s"
  "next_publish_at (reject_pending_locked e s) = next_publish_at s"
  "next_publish_at (hang_up s) = next_publish_at s"
  by (simp_all add: wake_def wait_defs reject_pending_locked_def hang_up_def Let_def split: option.split)

lemma gate_sections:
  "send_bin b s = (r, s') \<Longrightarrow> next_publish_at s' = next_publish_at s"
  "dial_begin s = (g, s') \<Longrightarrow> next_publish_at s' = next_publish_at s"
  "dial_register g s = (r1, s') \<Longrightarrow> next_publish_at s' = next_publish_at s"
  "resubscribe_section s = (ds, s') \<Longrightarrow> next_publish_at s' = next_publish_at s"
  "resume_wait_begin s = (rw, s') \<Longrightarrow> next_publish_at s' = next_publish_at s"
  "on_socket_closed_section g x s = (rc, s') \<Longrightarrow> next_publish_at s' = next_publish_at s"
  "auth_refreshed d l s = (sr, cl, s') \<Longrightarrow> next_publish_at s' = next_publish_at s"
  "on_resume_ok uid a s = (w, s') \<Longrightarrow> next_publish_at s' = next_publish_at s"
  "on_track_started uid s = (w, s') \<Longrightarrow> next_publish_at s' = next_publish_at s"
  "on_track_stopped uid s = (w, s') \<Longrightarrow> next_publish_at s' = next_publish_at s"
  by (auto simp: send_bin_def dial_begin_def dial_register_def resubscribe_section_def resume_wait_begin_def
      new_resume_wait_def on_socket_closed_section_def auth_refreshed_def on_resume_ok_def on_track_started_def
      on_track_stopped_def take_start_wait_def take_stop_wait_def take_resume_wait_def Let_def
      split: if_splits option.splits prod.splits)

lemma gate_flush: "flush_section s = (frames, s') \<Longrightarrow> next_publish_at s' = next_publish_at s"
  by (auto simp: flush_section_def flush_batch_def Let_def split: if_splits prod.splits)

lemma gate_calls:
  "publish_begin w1 w2 p s = (cmd, s') \<Longrightarrow> next_publish_at s' = next_publish_at s"
  "start_track_begin w1 loc s = (t, s') \<Longrightarrow> next_publish_at s' = next_publish_at s"
  "resume_begin uid n s = (t, s') \<Longrightarrow> next_publish_at s' = next_publish_at s"
  "stop_track_begin s = (t, s') \<Longrightarrow> next_publish_at s' = next_publish_at s"
  "send_event_section now payload s = (eo, s') \<Longrightarrow> next_publish_at s' = next_publish_at s"
  "unsubscribe_section uid s = (h, s') \<Longrightarrow> next_publish_at s' = next_publish_at s"
  "close_section s = (tx, s') \<Longrightarrow> next_publish_at s' = next_publish_at s"
  "recv_section s = (ev, s') \<Longrightarrow> next_publish_at s' = next_publish_at s"
  "recv_command_section s = (c, s') \<Longrightarrow> next_publish_at s' = next_publish_at s"
  by (auto simp: publish_begin_def start_track_begin_def new_start_wait_def resume_begin_def new_resume_wait_def
      stop_track_begin_def new_stop_wait_def send_event_section_def unsubscribe_section_def close_section_def
      recv_section_def recv_command_section_def Let_def split: if_splits option.splits list.splits)

lemma gate_updates:
  "next_publish_at (notify e s) = next_publish_at s"
  "next_publish_at (relocate_endpoint rel s) = next_publish_at s"
  "next_publish_at (auth_no_refresh s) = next_publish_at s"
  "next_publish_at (auth_refresh_failed s) = next_publish_at s"
  "next_publish_at (on_ack a s) = next_publish_at s"
  "next_publish_at (on_error err s) = next_publish_at s"
  "next_publish_at (on_subscribed sub uid s) = next_publish_at s"
  "next_publish_at (on_command uid payload ts s) = next_publish_at s"
  "next_publish_at (start_sent_failed s) = next_publish_at s"
  "next_publish_at (start_track_failed s) = next_publish_at s"
  "next_publish_at (resume_failed s) = next_publish_at s"
  "next_publish_at (stop_track_failed s) = next_publish_at s"
  "next_publish_at (subscribe_section uid s) = next_publish_at s"
  "next_publish_at (close_socket tx s) = next_publish_at s"
  by (simp_all add: notify_def relocate_endpoint_def auth_no_refresh_def auth_refresh_failed_def on_ack_def
      on_error_def on_subscribed_def on_command_def start_sent_failed_def start_track_failed_def resume_failed_def
      stop_track_failed_def subscribe_section_def close_socket_def Let_def split: option.split)

text \<open>What \<^verbatim>\<open>publish\<close> does to it: a call that passes the gate closes it for one interval.\<close>

definition passes :: "publish_out \<Rightarrow> bool" where
  "passes out \<longleftrightarrow> (case out of RateLimited _ \<Rightarrow> False | _ \<Rightarrow> True)"

lemma gate_publish:
  assumes "publish_section L now w1 w2 p s = (po, s')"
  shows "if passes po then next_publish_at s \<le> now \<and> next_publish_at s' = now + MIN_PUBLISH_INTERVAL
    else s' = s"
  using assms
  by (auto simp: publish_section_def passes_def can_accept_publish_def next_publish_allowed_at_def Let_def
      split: if_splits prod.splits option.splits)

interpretation gate: kept "\<lambda>s. t \<le> next_publish_at s" "\<lambda>_. True" "\<lambda>_ _. True" "\<lambda>_. True" for t
proof (unfold_locales, goal_cases)
  case (24 s L now w1 w2 p po s')
  with gate_publish [OF 24(3)] show ?case by (auto split: if_splits)
qed (simp_all add: gate_updates gate_sections gate_flush gate_calls)

section \<open>Calls that pass the gate\<close>

fun passes_gate :: "libm \<Rightarrow> input \<Rightarrow> task \<Rightarrow> session \<Rightarrow> bool" where
  "passes_gate L i (PublishRun p) s = passes (fst (publish_section L (in_now i) (in_wall i) (in_clock i) p s))"
| "passes_gate L i _ s = False"

text \<open>The instants at which samples pass, along a schedule.\<close>

fun gate_times :: "uuid_crate \<Rightarrow> libm \<Rightarrow> ('u, 'z) url_crate_scheme \<Rightarrow> sched list \<Rightarrow> client \<Rightarrow> instant list" where
  "gate_times U L C [] c = []"
| "gate_times U L C (e # rest) c =
     (case e of
        RunTask k i \<Rightarrow> if k < length (snd c) \<and> passes_gate L i (snd c ! k) (fst c) then [in_now i] else []
      | _ \<Rightarrow> []) @ gate_times U L C rest (drive any_input U L C [e] c)"

lemma drive_gate: "next_publish_at (fst c) \<le> next_publish_at (fst (drive any_input U L C sc c))"
  using gate.reach_keeps [of U L C c "drive any_input U L C sc c" "next_publish_at (fst c)"]
    drive_reach [of any_input U L C c sc] by simp

lemma gate_times_ge: "t \<in> set (gate_times U L C sc c) \<Longrightarrow> next_publish_at (fst c) \<le> t"
proof (induction U L C sc c rule: gate_times.induct)
  case (2 U L C e rest c)
  show ?case
  proof (cases "t \<in> set (gate_times U L C rest (drive any_input U L C [e] c))")
    case True
    with 2 drive_gate [of c U L C "[e]"] show ?thesis by (meson order.trans)
  next
    case False
    with "2.prems" obtain k i where now: "t = in_now i" and pass: "passes_gate L i (snd c ! k) (fst c)"
      by (auto split: sched.splits if_splits)
    then obtain p where "snd c ! k = PublishRun p" by (cases "snd c ! k") auto
    with pass now show ?thesis
      using gate_publish [OF prod.collapse [symmetric], of L "in_now i" "in_wall i" "in_clock i" p "fst c"] by simp
  qed
qed simp

lemma after_passing:
  assumes k: "k < length (snd c)" and pass: "passes_gate L i (snd c ! k) (fst c)"
  shows "next_publish_at (fst (drive any_input U L C [RunTask k i] c)) = in_now i + MIN_PUBLISH_INTERVAL"
proof -
  obtain s ts where c: "c = (s, ts)" by (cases c)
  obtain p where p: "ts ! k = PublishRun p" using pass c by (cases "ts ! k") auto
  obtain out s' where out: "publish_section L (in_now i) (in_wall i) (in_clock i) p s = (out, s')" by fastforce
  have "passes out" using pass c p out by simp
  with gate_publish [OF out] have "next_publish_at s' = in_now i + MIN_PUBLISH_INTERVAL" by simp
  with k c p out show ?thesis by (simp add: Let_def)
qed

lemma gate_times_spaced: "spaced MIN_PUBLISH_INTERVAL (gate_times U L C sc c)"
proof (induction U L C sc c rule: gate_times.induct)
  case (2 U L C e rest c)
  have "in_now i + MIN_PUBLISH_INTERVAL \<le> t"
    if "e = RunTask k i" "k < length (snd c)" "passes_gate L i (snd c ! k) (fst c)"
      "t \<in> set (gate_times U L C rest (drive any_input U L C [e] c))" for k i t
    using after_passing [OF that(2,3), of U C] gate_times_ge [OF that(4)] that(1) by (simp del: drive.simps)
  with 2 show ?case by (auto simp: list_all_iff simp del: drive.simps split: sched.splits)
qed simp

lemma spaced_filter: "spaced d xs \<Longrightarrow> spaced d (filter P xs)"
  by (induction xs) (auto simp: list_all_iff)

text \<open>C36: Along every schedule of the client's tasks, calls and network events, from any state, the
  calls of \<^verbatim>\<open>publish\<close> that pass the gate are at least 20 ms apart, so at most 50 pass in any
  second. (The call that starts a track by itself is not gated: its sample goes out with the start.)\<close>

theorem publish_rate_bounded:
  "spaced MIN_PUBLISH_INTERVAL (gate_times U L C sc c) \<and>
   length (filter (\<lambda>t. lo \<le> t \<and> t < lo + 1000000000) (gate_times U L C sc c)) \<le> 50"
proof
  show sp: "spaced MIN_PUBLISH_INTERVAL (gate_times U L C sc c)" by (rule gate_times_spaced)
  let ?ts = "filter (\<lambda>t. lo \<le> t \<and> t < lo + 1000000000) (gate_times U L C sc c)"
  have "?ts = [] \<or> lo + (length ?ts - 1) * MIN_PUBLISH_INTERVAL < lo + 1000000000"
    using spaced_count [OF spaced_filter [OF sp], of "\<lambda>t. lo \<le> t \<and> t < lo + 1000000000" lo "lo + 1000000000"]
    by (auto simp: interval_value)
  then show "length ?ts \<le> 50" by (auto simp: interval_value)
qed

text \<open>The automatic start takes its sample whatever the gate says, and does not move it.\<close>

lemma auto_start_not_gated:
  assumes "track_uid s = []" and "\<not> starting s"
  shows "\<exists>s'. publish_begin w1 w2 p s = (Some (TrackStart (Some (stamp_lat_lng w2 p)) [] []), s') \<and>
    next_publish_at s' = next_publish_at s"
  using assms by (simp add: publish_begin_def)

end
