(* ===== verification/Codec_Correct.thy ===== *)
theory Codec_Correct
  imports Client_Codec Server_Codec
begin

text \<open>
  What the wire format of \<^verbatim>\<open>src/tracking/codec.rs\<close> promises, as properties: every message
  of either side survives encoding and decoding up to the documented losses, a run of samples
  survives the split into frames, decoders ignore trailing bytes and let only valid
  coordinates through, and two encoders lose data or write frames the peer rejects.
\<close>

section \<open>Samples of a message\<close>

fun cmd_points :: "client_cmd \<Rightarrow> lat_lng list" where
  "cmd_points (TrackStart l r _) = (case l of None \<Rightarrow> [] | Some p \<Rightarrow> [p]) @ r"
| "cmd_points (LocationAdd _ _ p) = [p]"
| "cmd_points (LocationBatch _ _ ps) = ps"
| "cmd_points _ = []"

fun evt_points :: "server_evt \<Rightarrow> lat_lng list" where
  "evt_points (LocationAdded _ _ p _ _) = [p]"
| "evt_points (Subscribed _ _ _ l r _ _ _ _ _ _ _) = (case l of None \<Rightarrow> [] | Some p \<Rightarrow> [p]) @ r"
| "evt_points _ = []"

fun cmd_seq :: "client_cmd \<Rightarrow> u64" where
  "cmd_seq (LocationAdd _ n _) = n"
| "cmd_seq (LocationBatch _ n _) = n"
| "cmd_seq _ = 0"

lemma loc_cmd_content [simp]: "cmd_points (loc_cmd n ps) = ps" "cmd_seq (loc_cmd n ps) = n"
  by (simp_all add: loc_cmd_def split: list.split)

lemma read_point_ok: "read_point prev r = Inr ((p, c), t) \<Longrightarrow> point_ok p"
  by (auto simp: read_point_def and_then_Inr_iff and_then_check point_ok_def lat_lng_new_def split: if_splits)

lemma read_points_ok: "read_points n prev r = Inr (ps, t) \<Longrightarrow> list_all point_ok ps \<and> length ps = n"
  by (induction n arbitrary: prev r ps) (fastforce simp: and_then_Inr_iff dest: read_point_ok)+

lemma get_abs_coords_ok: "get_abs_coords r = Inr (p, t) \<Longrightarrow> point_ok p"
  by (auto simp: get_abs_coords_def and_then_Inr_iff and_then_check point_ok_def lat_lng_new_def split: if_splits)

lemma repeat_coords_ok: "repeat_get get_abs_coords n r = Inr (ps, t) \<Longrightarrow> list_all point_ok ps"
  by (induction n arbitrary: r ps) (fastforce simp: and_then_Inr_iff dest: get_abs_coords_ok)+

lemma read_route_ok: "read_route_abs r = Inr (ps, t) \<Longrightarrow> list_all point_ok ps"
  by (auto simp: read_route_abs_def and_then_Inr_iff dest: repeat_coords_ok)

lemma get_opt_point_ok:
  "get_opt b (read_point None) r = Inr (v, t) \<Longrightarrow> list_all point_ok (case map_option fst v of None \<Rightarrow> [] | Some p \<Rightarrow> [p])"
  by (auto simp: get_opt_def and_then_Inr_iff dest: read_point_ok split: if_splits)

section \<open>Round trips\<close>

text \<open>C14: The client encoder never panics, and what the server decodes from its frame is the
  message, up to the documented losses (\<open>client_img\<close>: 32-bit sequence numbers, quantised
  coordinates, texts and payloads of at most 4096 bytes).\<close>

theorem client_message_roundtrip:
  assumes "uuid_laws U" and "client_ok cmd"
  shows "\<exists>bs. encode_client_cmd U cmd = Some bs \<and> decode_client U bs = Inr (Cmd (client_img U cmd))"
  using encode_client_total [of U cmd] decode_encode_client [OF assms] by auto

theorem client_message_roundtrip_witness:
  "\<exists>bs. encode_client_cmd raw_uuid (CommandAck ''0123456789abcdef'' AckOk (Some ''done'')) = Some bs \<and>
     decode_client raw_uuid bs = Inr (Cmd (CommandAck ''0123456789abcdef'' AckOk (Some ''done'')))"
proof -
  have "client_img raw_uuid (CommandAck ''0123456789abcdef'' AckOk (Some ''done'')) =
      CommandAck ''0123456789abcdef'' AckOk (Some ''done'')" by code_simp
  moreover have "client_ok (CommandAck ''0123456789abcdef'' AckOk (Some ''done''))" by code_simp
  ultimately show ?thesis
    using client_message_roundtrip [OF raw_uuid_laws, of "CommandAck ''0123456789abcdef'' AckOk (Some ''done'')"]
    by simp
qed

text \<open>C15: The server encoder never panics, and what the client decodes from its frame is the event, up
  to the documented losses (\<open>server_img\<close>).\<close>

theorem server_event_roundtrip:
  assumes "uuid_laws U" and "server_ok evt"
  shows "\<exists>bs. encode_server_evt U evt = Some bs \<and> decode_server_evt U bs = Inr (Some (server_img U evt))"
  using encode_server_total [of U evt] decode_encode_server [OF assms] by auto

theorem server_event_roundtrip_witness:
  "\<exists>bs. encode_server_evt raw_uuid (ResumeOk ''0123456789abcdef'' 7) = Some bs \<and>
     decode_server_evt raw_uuid bs = Inr (Some (ResumeOk ''0123456789abcdef'' 7))"
proof -
  have "server_img raw_uuid (ResumeOk ''0123456789abcdef'' 7) = ResumeOk ''0123456789abcdef'' 7" by code_simp
  then show ?thesis
    using server_event_roundtrip [OF raw_uuid_laws, of "ResumeOk ''0123456789abcdef'' 7"] by simp
qed

text \<open>What the receiver makes of a list of frames.\<close>

definition received :: "uuid_crate \<Rightarrow> u8 list list \<Rightarrow> (u64 \<times> lat_lng list) list" where
  "received U fs = map (\<lambda>f. case decode_client U f of
       Inr (Cmd c) \<Rightarrow> (cmd_seq c, cmd_points c) | _ \<Rightarrow> (0, [])) fs"

text \<open>Frame numbers run on: each is the number of the last sample it carries.\<close>

fun runs_on :: "u64 \<Rightarrow> (u64 \<times> lat_lng list) list \<Rightarrow> bool" where
  "runs_on n [] = True"
| "runs_on n ((s, ps) # rest) = (s = seq_img (n + of_nat (length ps)) \<and> runs_on (n + of_nat (length ps)) rest)"

lemma received_chunks:
  "list_all (\<lambda>c. c \<noteq> [] \<and> length c \<le> 100 \<and> deltas_fit None c \<and> list_all point_ok c) cs \<Longrightarrow>
   received U (map (\<lambda>(s, c). frame_bytes s c) (number_chunks first cs)) =
     map (\<lambda>(s, c). (seq_img s, map point_img c)) (number_chunks first cs)"
  by (induction cs arbitrary: first) (simp_all add: received_def decode_frame)

lemma runs_on_chunks:
  "runs_on (first - 1) (map (\<lambda>(s, c). (seq_img s, map point_img c)) (number_chunks first cs))"
  by (induction cs arbitrary: first) (simp_all add: algebra_simps)

lemma map_snd_images: "map snd (map (\<lambda>(s, c). (seq_img s, map point_img c)) ncs) = map (map point_img) (map snd ncs)"
  by (simp add: case_prod_beta)

lemma number_chunks_mem: "(s, c) \<in> set (number_chunks first cs) \<Longrightarrow> c \<in> set cs"
  by (induction cs arbitrary: first) auto

text \<open>C16: A run of samples survives the split into Loc frames: no panic, at most 100 samples in a
  frame, together and in order all samples quantised, and every frame numbered by its last sample.\<close>

theorem loc_frames_roundtrip:
  assumes "list_all point_ok ps"
  shows "\<exists>fs. encode_loc_frames last_seq ps = Some fs \<and>
    concat (map snd (received U fs)) = map point_img ps \<and>
    (\<forall>(s, qs) \<in> set (received U fs). 1 \<le> length qs \<and> length qs \<le> 100) \<and>
    runs_on (last_seq - of_nat (length ps)) (received U fs)"
proof -
  let ?n = "number_chunks (last_seq + 1 - of_nat (length ps)) (chunks ps)"
  have "list_all point_ok (concat (chunks ps))" using assms by (simp add: concat_chunks)
  then have ok: "list_all (\<lambda>c. c \<noteq> [] \<and> length c \<le> 100 \<and> deltas_fit None c \<and> list_all point_ok c) (chunks ps)"
    using chunks_ok [of _ ps] by (auto simp: list_all_iff)
  have r: "received U (map (\<lambda>(s, c). frame_bytes s c) ?n) = map (\<lambda>(s, c). (seq_img s, map point_img c)) ?n"
    by (rule received_chunks [OF ok])
  have "concat (map snd (map (\<lambda>(s, c). (seq_img s, map point_img c)) ?n)) = map point_img ps"
    by (simp only: map_snd_images map_snd_number_chunks map_concat [symmetric] concat_chunks)
  moreover have "runs_on (last_seq - of_nat (length ps)) (map (\<lambda>(s, c). (seq_img s, map point_img c)) ?n)"
    using runs_on_chunks [of "last_seq + 1 - of_nat (length ps)" "chunks ps"] by (simp add: algebra_simps)
  moreover have "1 \<le> length c \<and> length c \<le> 100" if "(n, c) \<in> set ?n" for n c
    using ok number_chunks_mem [OF that] by (auto simp: list_all_iff Suc_le_eq)
  ultimately show ?thesis
    unfolding encode_loc_frames_eq by (intro exI [of _ "map (\<lambda>(s, c). frame_bytes s c) ?n"]) (force simp: r)
qed

definition two_far_points :: "lat_lng list" where
  "two_far_points = [lat_lng_new (f64_of_int 55) (f64_of_int 37), lat_lng_new (f64_of_int 56) (f64_of_int 37)]"

lemma two_far_points_ok: "list_all point_ok two_far_points"
  by code_simp

theorem loc_frames_roundtrip_witness:
  "\<exists>fs. encode_loc_frames 9 two_far_points = Some fs \<and>
    concat (map snd (received raw_uuid fs)) = map point_img two_far_points \<and>
    runs_on 7 (received raw_uuid fs)"
proof -
  have "length two_far_points = 2" by (simp add: two_far_points_def)
  then show ?thesis
    using loc_frames_roundtrip [OF two_far_points_ok, of 9 raw_uuid] by auto
qed

section \<open>Decoders\<close>

text \<open>C20: Decoders are forward compatible: a frame that decodes still decodes to the same message when
  bytes follow, so later protocol versions may append fields.\<close>

theorem decoders_ignore_trailing_bytes:
  "(\<forall>c. decode_client U bs = Inr c \<longrightarrow> decode_client U (bs @ z) = Inr c) \<and>
   (\<forall>e. decode_server_evt U bs = Inr e \<longrightarrow> decode_server_evt U (bs @ z) = Inr e)"
  using decode_client_local decode_server_local by blast

lemma track_stop_decodes: "decode_client raw_uuid [0x03] = Inr (Cmd (TrackStop []))"
  by code_simp

theorem decoders_ignore_trailing_bytes_witness:
  "decode_client raw_uuid ([0x03] @ [1, 2, 3]) = Inr (Cmd (TrackStop []))"
  using decoders_ignore_trailing_bytes [of raw_uuid "[0x03]" "[1, 2, 3]"] track_stop_decodes by blast

text \<open>What every decoded client message satisfies.\<close>

definition valid_cmd :: "client_cmd \<Rightarrow> bool" where
  "valid_cmd c \<longleftrightarrow> list_all point_ok (cmd_points c) \<and>
     (case c of LocationBatch _ _ ps \<Rightarrow> length ps \<le> 100 | _ \<Rightarrow> True)"

lemma valid_loc_cmd: "list_all point_ok ps \<Longrightarrow> length ps \<le> 100 \<Longrightarrow> valid_cmd (loc_cmd n ps)"
  by (auto simp: valid_cmd_def loc_cmd_def split: list.split)

lemma decode_loc_valid: "decode_loc r = Inr (c, t) \<Longrightarrow> valid_cmd c"
  by (auto simp: decode_loc_def and_then_Inr_iff MAX_LOC_POINTS_def word_less_nat_alt
      split: if_splits dest!: read_points_ok intro!: valid_loc_cmd)

lemma decode_track_start_valid: "decode_track_start r = Inr (c, t) \<Longrightarrow> valid_cmd c"
  by (auto simp: decode_track_start_def and_then_Inr_iff valid_cmd_def
      dest!: read_route_ok get_opt_point_ok)

lemma other_cmds_valid:
  "decode_resume U r = Inr (c, t) \<Longrightarrow> valid_cmd c" "decode_subscribe U r = Inr (c, t) \<Longrightarrow> valid_cmd c"
  "decode_event r = Inr (c, t) \<Longrightarrow> valid_cmd c" "decode_command_ack U r = Inr (c, t) \<Longrightarrow> valid_cmd c"
  by (auto simp: decode_resume_def decode_subscribe_def decode_event_def decode_command_ack_def
      and_then_Inr_iff valid_cmd_def)

text \<open>Both decoders choose by the type byte; a predicate on what every branch gives holds of the result.\<close>

lemma if_branch: "(x = d \<longrightarrow> V) \<Longrightarrow> (y = d \<longrightarrow> V) \<Longrightarrow> (if b then x else y) = d \<longrightarrow> V"
  by simp

lemma cmd_branch: "(\<And>c t. x = Inr (c, t) \<Longrightarrow> V c) \<Longrightarrow> as_cmd x = Inr (Cmd c) \<longrightarrow> V c"
  by (auto simp: as_cmd_def and_then_Inr_iff)

lemma evt_branch: "(\<And>e t. x = Inr (e, t) \<Longrightarrow> V e) \<Longrightarrow> as_evt x = Inr (Some e) \<longrightarrow> V e"
  by (auto simp: as_evt_def and_then_Inr_iff)

lemma no_points:
  "V (TrackStop []) \<Longrightarrow> Inr (Cmd (TrackStop [])) = (Inr (Cmd c) :: decode_error + client_decode) \<longrightarrow> V c"
  "(Inl e :: decode_error + client_decode) = Inr (Cmd c) \<longrightarrow> V c"
  "(Inr (Unknown b) :: decode_error + client_decode) = Inr (Cmd c) \<longrightarrow> V c"
  "(Inl e :: decode_error + server_evt option) = Inr (Some evt) \<longrightarrow> W evt"
  "(Inr None :: decode_error + server_evt option) = Inr (Some evt) \<longrightarrow> W evt"
  by auto

lemma decode_unsubscribe_valid:
  "and_then (get_u8 r) (\<lambda>(sub, r). Inr (Unsubscribe sub, r)) = Inr (c, t) \<Longrightarrow> valid_cmd c"
  by (auto simp: and_then_Inr_iff valid_cmd_def)

lemma track_stop_valid: "valid_cmd (TrackStop [])"
  by (simp add: valid_cmd_def)

text \<open>C18: Whatever bytes arrive, a decoded client message holds only samples whose coordinates are on
  the globe, those of a route included, and a location message at most 100 of them.\<close>

theorem decoded_commands_valid:
  assumes "decode_client U bs = Inr (Cmd c)"
  shows "valid_cmd c"
proof (cases bs)
  case (Cons b r)
  note by_type = decode_client_typ [of U b, unfolded put_u8_def append_Cons append_Nil]
  have "decode_client U (b # r) = Inr (Cmd c) \<longrightarrow> valid_cmd c"
    unfolding by_type
    by (intro if_branch cmd_branch no_points track_stop_valid)
      (erule decode_loc_valid decode_track_start_valid other_cmds_valid decode_unsubscribe_valid)+
  with assms Cons show ?thesis by simp
qed (use assms in \<open>simp add: decode_client_def\<close>)

text \<open>The frames of a start with a location and a route of two samples, and of a batch of two.\<close>

definition demo_samples :: "lat_lng list" where
  "demo_samples = replicate 2 (lat_lng_new (f64_of_int 60) (f64_of_int 30))"

definition demo_route :: client_cmd where
  "demo_route = TrackStart (Some (hd demo_samples)) demo_samples []"

definition demo_batch :: client_cmd where
  "demo_batch = LocationBatch [] 2 demo_samples"

lemma demo_samples_ok: "list_all point_ok demo_samples"
  by code_simp

lemma loc_cmd_points: "cmd_points (loc_cmd n ps) = ps"
  by (simp add: loc_cmd_def split: list.split)

lemma demo_one_chunk: "length (hd (chunks demo_samples)) = 2"
  by code_simp

lemma demo_decodes:
  "\<exists>bs. decode_client raw_uuid bs = Inr (Cmd (client_img raw_uuid demo_route))"
  "\<exists>bs. decode_client raw_uuid bs = Inr (Cmd (client_img raw_uuid demo_batch))"
proof -
  have "client_ok demo_route" "client_ok demo_batch"
    using demo_samples_ok by (simp_all add: demo_route_def demo_batch_def demo_samples_def numeral_2_eq_2)
  then show "\<exists>bs. decode_client raw_uuid bs = Inr (Cmd (client_img raw_uuid demo_route))"
    "\<exists>bs. decode_client raw_uuid bs = Inr (Cmd (client_img raw_uuid demo_batch))"
    using encode_client_total decode_encode_client [OF raw_uuid_laws] by metis+
qed

theorem decoded_commands_valid_witness:
  "list_all point_ok (cmd_points (client_img raw_uuid demo_route)) \<and> length (cmd_points (client_img raw_uuid demo_route)) = 3 \<and>
   list_all point_ok (cmd_points (client_img raw_uuid demo_batch)) \<and> length (cmd_points (client_img raw_uuid demo_batch)) = 2"
proof -
  obtain b1 b2 where "decode_client raw_uuid b1 = Inr (Cmd (client_img raw_uuid demo_route))"
    "decode_client raw_uuid b2 = Inr (Cmd (client_img raw_uuid demo_batch))"
    using demo_decodes by blast
  then have "valid_cmd (client_img raw_uuid demo_route)" "valid_cmd (client_img raw_uuid demo_batch)"
    by (auto dest: decoded_commands_valid)
  moreover have "length (cmd_points (client_img raw_uuid demo_route)) = 3"
    by (simp add: demo_route_def demo_samples_def)
  moreover have "length (cmd_points (client_img raw_uuid demo_batch)) = 2"
    using demo_one_chunk by (simp add: demo_batch_def batch_img_def loc_cmd_points Let_def)
  ultimately show ?thesis by (simp add: valid_cmd_def)
qed

lemma decode_added_ok: "decode_location_added r = Inr (e, t) \<Longrightarrow> list_all point_ok (evt_points e)"
  by (auto simp: decode_location_added_def and_then_Inr_iff dest: read_point_ok)

lemma opt_route_ok: "get_opt b read_route_abs r = Inr (v, t) \<Longrightarrow> list_all point_ok (or_empty v)"
  by (auto simp: get_opt_def or_empty_def and_then_Inr_iff dest: read_route_ok split: if_splits)

lemma decode_subscribed_ok: "decode_subscribed U r = Inr (e, t) \<Longrightarrow> list_all point_ok (evt_points e)"
  by (clarsimp simp: decode_subscribed_def and_then_Inr_iff) (auto dest: get_opt_point_ok opt_route_ok)

lemma other_events_ok:
  "decode_hello U r = Inr (e, t) \<Longrightarrow> list_all point_ok (evt_points e)"
  "decode_relocate r = Inr (e, t) \<Longrightarrow> list_all point_ok (evt_points e)"
  "decode_resume_ok U r = Inr (e, t) \<Longrightarrow> list_all point_ok (evt_points e)"
  "decode_track_started U r = Inr (e, t) \<Longrightarrow> list_all point_ok (evt_points e)"
  "decode_track_stopped U r = Inr (e, t) \<Longrightarrow> list_all point_ok (evt_points e)"
  "decode_ack r = Inr (e, t) \<Longrightarrow> list_all point_ok (evt_points e)"
  "decode_error_msg U r = Inr (e, t) \<Longrightarrow> list_all point_ok (evt_points e)"
  "decode_event_added r = Inr (e, t) \<Longrightarrow> list_all point_ok (evt_points e)"
  "decode_command U r = Inr (e, t) \<Longrightarrow> list_all point_ok (evt_points e)"
  "decode_presence r = Inr (e, t) \<Longrightarrow> list_all point_ok (evt_points e)"
  by (auto simp: decode_hello_def decode_relocate_def decode_resume_ok_def decode_track_started_def
      decode_track_stopped_def decode_ack_def decode_error_msg_def decode_event_added_def
      decode_command_def decode_presence_def and_then_Inr_iff split: option.splits)

text \<open>C19: The same for the client: every decoded server event holds only samples on the globe.\<close>

theorem decoded_events_valid:
  assumes "decode_server_evt U bs = Inr (Some e)"
  shows "list_all point_ok (evt_points e)"
proof (cases bs)
  case (Cons b r)
  note by_type = decode_server_typ [of U b, unfolded put_u8_def append_Cons append_Nil]
  have "decode_server_evt U (b # r) = Inr (Some e) \<longrightarrow> list_all point_ok (evt_points e)"
    unfolding by_type
    by (intro if_branch evt_branch no_points) (erule decode_added_ok decode_subscribed_ok other_events_ok)+
  with assms Cons show ?thesis by simp
qed (use assms in \<open>simp add: decode_server_evt_def\<close>)

text \<open>A location event: one sample at 60 degrees north, 30 east, on subscription 1.\<close>

definition demo_event :: server_evt where
  "demo_event = LocationAdded [] [] (lat_lng_new (f64_of_int 60) (f64_of_int 30)) 5 1"

lemma demo_event_decodes:
  "\<exists>bs. decode_server_evt raw_uuid bs =
     Inr (Some (LocationAdded [] [] (point_img (lat_lng_new (f64_of_int 60) (f64_of_int 30))) 5 1))"
proof -
  have "server_ok demo_event" using demo_samples_ok by (simp add: demo_event_def demo_samples_def numeral_2_eq_2)
  moreover have "server_img raw_uuid demo_event =
      LocationAdded [] [] (point_img (lat_lng_new (f64_of_int 60) (f64_of_int 30))) 5 1"
    by (simp add: demo_event_def seq_img_def)
  ultimately show ?thesis
    using encode_server_total decode_encode_server [OF raw_uuid_laws] by metis
qed

theorem decoded_events_valid_witness: "point_ok (point_img (lat_lng_new (f64_of_int 60) (f64_of_int 30)))"
proof -
  obtain bs where "decode_server_evt raw_uuid bs =
      Inr (Some (LocationAdded [] [] (point_img (lat_lng_new (f64_of_int 60) (f64_of_int 30))) 5 1))"
    using demo_event_decodes by blast
  from decoded_events_valid [OF this] show ?thesis by simp
qed

text \<open>C31: Microdegrees, millimetres of altitude and centimetres of accuracy survive the way through
  floating-point degrees and metres exactly, for every machine integer.\<close>

theorem units_exact:
  "deg_to_micro (micro_to_deg m) = m \<and> alt_to_mm (mm_to_alt a) = a \<and> acc_to_cm (cm_to_acc u) = u"
  by simp

section \<open>Two encoders that lose data\<close>

text \<open>C39: The encoder of a location batch writes only its first frame: of a batch of more than 100
  samples the receiver gets at most 100, without any error.\<close>

theorem batch_encoder_drops_rest:
  assumes "list_all point_ok ps" and "100 < length ps"
  shows "\<exists>bs c. encode_client_cmd U (LocationBatch uid n ps) = Some bs \<and>
    decode_client U bs = Inr (Cmd c) \<and> length (cmd_points c) \<le> 100 \<and> 100 < length ps"
proof -
  have ne: "ps \<noteq> []" using assms(2) by auto
  let ?c = "hd (chunks ps)"
  have "list_all point_ok ?c"
    using assms(1) chunks_hd(2) [OF ne] by (metis append_take_drop_id list_all_append)
  moreover have "?c \<noteq> []" using chunks_hd(3) [OF ne] by auto
  ultimately show ?thesis
    using assms(2) chunks_hd [OF ne] encode_batch [OF ne, of U uid n] by (auto simp: decode_frame)
qed

definition one_place :: "lat_lng list" where
  "one_place = replicate 101 (lat_lng_new (f64_of_int 60) (f64_of_int 30))"

lemma one_place_ok: "list_all point_ok one_place"
proof -
  have "point_ok (lat_lng_new (f64_of_int 60) (f64_of_int 30))" by code_simp
  then show ?thesis by (simp add: one_place_def list_all_iff)
qed

theorem batch_encoder_drops_rest_witness:
  "\<exists>bs c. encode_client_cmd raw_uuid (LocationBatch [] 101 one_place) = Some bs \<and>
    decode_client raw_uuid bs = Inr (Cmd c) \<and> length (cmd_points c) \<le> 100 \<and> 100 < length one_place"
  by (rule batch_encoder_drops_rest [OF one_place_ok]) (simp add: one_place_def)

text \<open>C40: The text encoder cuts at 4096 bytes, inside a character if need be; the peer then rejects
  the whole frame.\<close>

theorem cut_text_rejected:
  assumes "uuid_laws U" and "\<not> utf8 (take MAX_STRING m)"
  shows "\<exists>bs. encode_client_cmd U (CommandAck i st (Some m)) = Some bs \<and> decode_client U bs = Inl DecodeInvalid"
  using assms get_str_cut [OF assms(2), of "[]"]
  by (simp add: decode_client_types decode_command_ack_def uuid.get_put u8.get_put as_cmd_def)

text \<open>4095 letters and one two-byte character.\<close>

definition long_text :: string where
  "long_text = replicate 4095 (CHR ''a'') @ [CHR 0xC3, CHR 0xA9]"

lemma long_text_utf8: "utf8 long_text"
  using utf8_valid_ascii [of 4095 "[0xC3, 0xA9]"] by (simp add: utf8_def long_text_def cont_byte_def)

lemma long_text_cut: "\<not> utf8 (take MAX_STRING long_text)"
  using utf8_valid_ascii [of 4095 "[0xC3]"]
  by (simp add: utf8_def long_text_def MAX_STRING_def take_replicate)

theorem cut_text_rejected_witness:
  "utf8 long_text \<and> (\<exists>bs. encode_client_cmd raw_uuid (CommandAck [] AckOk (Some long_text)) = Some bs \<and>
     decode_client raw_uuid bs = Inl DecodeInvalid)"
  using long_text_utf8 cut_text_rejected [OF raw_uuid_laws long_text_cut] by blast

end
