(* ===== verification/Queue_Correct.thy ===== *)
theory Queue_Correct
  imports Offline_Queue
begin

text \<open>
  The offline queue against its abstract specification, a first-in first-out channel with
  acknowledgements: over any sequence of operations, what was accepted is what was
  acknowledged followed by what the queue still holds. And what happens at its bound.
\<close>

section \<open>The channel\<close>

datatype queue_op =
    Stage lat_lng
  | Number nat
  | SendLive lat_lng
  | AckUpTo u64
  | FrameSent u64
  | SocketLost

text \<open>The queue, the last number given out, and the samples acknowledged so far.\<close>

type_synonym channel = "u64 \<times> offline_queue \<times> lat_lng list"

fun queue_step :: "libm \<Rightarrow> queue_op \<Rightarrow> channel \<Rightarrow> channel" where
  "queue_step L (Stage p) (n, q, done) = (n, push_staging L p q, done)"
| "queue_step L (Number k) (n, q, done) =
     (let (out, q) = assign_from_staging k n q in (if out = [] then n else q_seq (last out), q, done))"
| "queue_step L (SendLive p) (n, q, done) = (n + 1, snd (enqueue L (n + 1) p q), done)"
| "queue_step L (AckUpTo a) (n, q, done) =
     (n, ack_through a q, done @ map q_point (filter (\<lambda>p. q_seq p \<le> a) (inflight q)))"
| "queue_step L (FrameSent f) (n, q, done) = (n, record_frame f q, done)"
| "queue_step L SocketLost (n, q, done) = (n, mark_unsent q, done)"

fun op_accepts :: "queue_op \<Rightarrow> lat_lng list" where
  "op_accepts (Stage p) = [p]"
| "op_accepts (SendLive p) = [p]"
| "op_accepts _ = []"

text \<open>
  A sample is added only when the queue has room for it, and a live one is sent only in turn,
  when no staged sample waits.
\<close>

fun in_turn :: "libm \<Rightarrow> queue_op list \<Rightarrow> channel \<Rightarrow> bool" where
  "in_turn L [] c = True"
| "in_turn L (op # ops) c =
     ((case (op, c) of
         (Stage _, (_, q, _)) \<Rightarrow> queue_size q < max_size q
       | (SendLive _, (_, q, _)) \<Rightarrow> queue_size q < max_size q \<and> staging q = []
       | _ \<Rightarrow> True) \<and>
      in_turn L ops (queue_step L op c))"

definition channel_ok :: "lat_lng list \<Rightarrow> channel \<Rightarrow> bool" where
  "channel_ok accepted c = (case c of (n, q, done) \<Rightarrow>
     accepted = done @ points_of q \<and> numbered n q \<and> unat n + length (staging q) = length accepted)"

lemma ack_splits:
  "consecutive (seqs q) \<Longrightarrow>
   filter (\<lambda>p. q_seq p \<le> a) (inflight q) @ inflight (ack_through a q) = inflight q"
proof -
  have "sorted_wrt (<) (map q_seq ps) \<Longrightarrow>
      filter (\<lambda>p. q_seq p \<le> a) ps @ filter (\<lambda>p. a < q_seq p) ps = ps" for ps
  proof (induction ps)
    case (Cons p ps)
    show ?case
    proof (cases "q_seq p \<le> a")
      case False
      with Cons.prems have "filter (\<lambda>p. q_seq p \<le> a) ps = []" by (force simp: filter_empty_conv)
      moreover have "filter (\<lambda>p. a < q_seq p) ps = ps"
        using Cons.prems False by (intro filter_True) (auto intro: less_trans)
      ultimately show ?thesis using False by simp
    qed (use Cons in simp)
  qed simp
  then show "consecutive (seqs q) \<Longrightarrow> ?thesis"
    using consecutive_sorted [of "seqs q"] by (simp add: seqs_def ack_through_def)
qed

lemma points_size: "length (points_of q) = queue_size q"
  by (simp add: points_of_def queue_size_def)

lemma step_ok:
  assumes ok: "channel_ok accepted (n, q, done)"
    and room: "length (accepted @ op_accepts op) < 2 ^ 64"
    and turn: "in_turn L [op] (n, q, done)"
  shows "channel_ok (accepted @ op_accepts op) (queue_step L op (n, q, done))"
proof -
  have acc: "accepted = done @ points_of q" and num: "numbered n q"
    and cnt: "unat n + length (staging q) = length accepted"
    using ok by (simp_all add: channel_ok_def)
  show ?thesis
  proof (cases op)
    case (Stage p)
    with turn have "enforce_cap L (q\<lparr>staging := staging q @ [p]\<rparr>) = q\<lparr>staging := staging q @ [p]\<rparr>"
      by (intro enforce_cap_id) (simp add: queue_size_snoc)
    with Stage acc num cnt show ?thesis
      by (simp add: channel_ok_def push_staging_def points_of_def numbered_def seqs_def)
  next
    case (Number k)
    obtain out q' where a: "assign_from_staging k n q = (out, q')" by fastforce
    have "unat n + min k (length (staging q)) < 2 ^ 64" using cnt room by (simp add: Number)
    then have lt: "unat n + length (take k (staging q)) < 2 ^ 64" by simp
    have "assign_from_staging (min k (length (staging q))) n q = assign_from_staging k n q"
      by (simp add: assign_from_staging_def)
    then have num': "numbered (n + of_nat (length out)) q'"
      using numbered_assign [OF num, of "min k (length (staging q))" out q'] lt a by simp
    have out: "out = number_points n (take k (staging q))" using a by (simp add: assign_from_staging_eq)
    have last: "(if out = [] then n else q_seq (last out)) = n + of_nat (length out)"
    proof (cases "out = []")
      case False
      then have "take k (staging q) \<noteq> []" by (metis out number_points.simps(1))
      with number_points_consecutive [OF lt] out False show ?thesis by (simp add: last_map)
    qed simp
    have "unat (n + of_nat (length out)) = unat n + length out"
      using a lt by (auto simp: assign_from_staging_eq unat_word_ariths unat_of_nat)
    with Number a acc num' last cnt show ?thesis
      by (auto simp: channel_ok_def assign_from_staging_eq points_of_def)
  next
    case (SendLive p)
    let ?q = "q\<lparr>inflight := inflight q @ [\<lparr>q_seq = n + 1, q_point = p, q_sent = True\<rparr>]\<rparr>"
    have "enforce_cap L ?q = ?q"
      using turn SendLive by (intro enforce_cap_id) (simp add: queue_size_snoc)
    then have e: "snd (enqueue L (n + 1) p q) = ?q" by (simp add: enqueue_def Let_def)
    have "unat n + 1 < 2 ^ 64" using room cnt SendLive by simp
    then have u: "unat (n + 1) = Suc (unat n)" by (rule unat_suc_u64)
    then have "numbered (n + 1) ?q"
      using num by (auto simp: numbered_def seqs_def intro!: consecutive_snoc)
    with SendLive e acc turn cnt u show ?thesis by (simp add: channel_ok_def points_of_def)
  next
    case (AckUpTo a)
    have "consecutive (seqs q)" using num by (simp add: numbered_def)
    from ack_splits [OF this, of a] AckUpTo acc cnt numbered_ack [OF num, of a] show ?thesis
      by (simp add: channel_ok_def points_of_def) (metis append_assoc map_append)
  next
    case (FrameSent f)
    with acc num cnt show ?thesis by (simp add: channel_ok_def numbered_def)
  next
    case SocketLost
    with acc num cnt show ?thesis
      by (simp add: channel_ok_def numbered_def points_of_def mark_unsent_def seqs_def o_def)
  qed
qed

lemma run_ok:
  "channel_ok accepted c \<Longrightarrow> in_turn L ops c \<Longrightarrow>
   length (accepted @ concat (map op_accepts ops)) < 2 ^ 64 \<Longrightarrow>
   channel_ok (accepted @ concat (map op_accepts ops)) (fold (queue_step L) ops c)"
proof (induction ops arbitrary: accepted c)
  case (Cons op ops)
  obtain n q d where c: "c = (n, q, d)" by (cases c) auto
  have "channel_ok (accepted @ op_accepts op) (queue_step L op c)"
    unfolding c by (rule step_ok) (use Cons.prems c in auto)
  then show ?case
    using Cons.prems Cons.IH [of "accepted @ op_accepts op" "queue_step L op c"] by simp
qed simp

text \<open>C13: The queue is a first-in first-out channel: after any sequence of operations in which samples
  are added only while there is room and live samples are sent only in turn, and up to the
  \<open>2 ^ 64\<close> sequence numbers, the samples accepted so far are the acknowledged ones followed by the
  ones it holds, in order; no sample is lost, repeated or overtaken, whatever is acknowledged,
  re-sent or lost with a socket.\<close>

theorem queue_is_fifo:
  assumes "in_turn L ops (0, queue_new m, [])" and "fold (queue_step L) ops (0, queue_new m, []) = (n, q, done)"
    and "length (concat (map op_accepts ops)) < 2 ^ 64"
  shows "concat (map op_accepts ops) = done @ points_of q"
proof -
  have "channel_ok [] (0, queue_new m, [])"
    by (simp add: channel_ok_def queue_new_def points_of_def numbered_def seqs_def)
  from run_ok [OF this assms(1)] assms(2,3) show ?thesis by (simp add: channel_ok_def)
qed

text \<open>Three staged samples, two numbered, one acknowledged, the socket lost.\<close>

definition demo_ops :: "lat_lng \<Rightarrow> lat_lng \<Rightarrow> lat_lng \<Rightarrow> queue_op list" where
  "demo_ops a b c = [Stage a, Stage b, Stage c, Number 2, FrameSent 2, AckUpTo 1, SocketLost]"

lemma two_one: "\<not> (2 :: u64) \<le> 1"
  by (simp only: word_le_nat_alt) simp

lemma demo_ops_run:
  "in_turn L (demo_ops a b c) (0, queue_new 10, []) \<and>
   fold (queue_step L) (demo_ops a b c) (0, queue_new 10, []) =
     (2, \<lparr>max_size = 10, staging = [c], inflight = [\<lparr>q_seq = 2, q_point = b, q_sent = False\<rparr>],
          sent_frame_seqs = []\<rparr>, [a])"
  by (simp add: demo_ops_def push_staging_def enforce_cap_id queue_size_def queue_new_def
      assign_from_staging_eq record_frame_def mark_unsent_def ack_through_def two_one)

theorem queue_is_fifo_witness:
  "\<forall>L a b c. [a, b, c] = [a] @ points_of (fst (snd (fold (queue_step L) (demo_ops a b c) (0, queue_new 10, []))))"
proof (intro allI)
  fix L a b c
  from queue_is_fifo [OF conjunct1 [OF demo_ops_run] conjunct2 [OF demo_ops_run], of a b c] demo_ops_run [of L a b c]
  show "[a, b, c] = [a] @ points_of (fst (snd (fold (queue_step L) (demo_ops a b c) (0, queue_new 10, []))))"
    by (simp add: demo_ops_def queue_new_def)
qed

section \<open>At the bound\<close>

lemma push_onto_full_flight:
  assumes "queue_size q \<le> max_size q" and "\<not> length (inflight q) < max_size q"
  shows "push_staging L p q = q"
proof -
  have "length (staging q) = 0" and full: "length (inflight q) = max_size q"
    using assms unfolding queue_size_def by linarith+
  then have st: "staging q = []" by simp
  have "evict_one L (q\<lparr>staging := [p]\<rparr>) = q\<lparr>staging := []\<rparr>"
    using collapse_length [of L "[p]"]
    by (auto simp: evict_one_def remove_nth_def collapse_one_collinear_def split: prod.splits)
  moreover have "queue_size (q\<lparr>staging := []\<rparr>) \<le> max_size (q\<lparr>staging := []\<rparr>)"
    using full by (simp add: queue_size_def)
  ultimately have "enforce_cap L (q\<lparr>staging := [p]\<rparr>) = q\<lparr>staging := []\<rparr>"
    using full by (subst enforce_cap.simps) (simp add: queue_size_def enforce_cap_id)
  then show ?thesis using st by (cases q) (simp add: push_staging_def)
qed

text \<open>C30: A push keeps the queue within its bound; into a full queue it removes exactly one sample and
  keeps the order of the others. It is never the sample just pushed as long as the in-flight
  samples alone do not fill the queue; when they do, it is: the push changes nothing.\<close>

theorem push_keeps_newest:
  assumes "queue_size q \<le> max_size q"
  shows "queue_size (push_staging L p q) = min (Suc (queue_size q)) (max_size q) \<and>
    (if length (inflight q) < max_size q
     then inflight (push_staging L p q) = inflight q \<and>
       staging (push_staging L p q) \<noteq> [] \<and> last (staging (push_staging L p q)) = p \<and>
       subseq (staging (push_staging L p q)) (staging q @ [p])
     else push_staging L p q = q)"
  using push.size_add [of L p q] enforce_cap_last [of "q\<lparr>staging := staging q @ [p]\<rparr>" L]
    enforce_cap_staging [of L "q\<lparr>staging := staging q @ [p]\<rparr>"] push_onto_full_flight [OF assms, of L p] assms
  by (simp add: push_staging_def)

theorem push_keeps_newest_witness:
  "\<forall>L p q r. last (staging (push_staging L p ((queue_new 2)\<lparr>staging := [q, r]\<rparr>))) = p \<and>
     (let full = (queue_new 1)\<lparr>inflight := [\<lparr>q_seq = 1, q_point = q, q_sent = False\<rparr>]\<rparr> in push_staging L p full = full)"
proof (intro allI)
  fix L p q r
  show "last (staging (push_staging L p ((queue_new 2)\<lparr>staging := [q, r]\<rparr>))) = p \<and>
     (let full = (queue_new 1)\<lparr>inflight := [\<lparr>q_seq = 1, q_point = q, q_sent = False\<rparr>]\<rparr> in push_staging L p full = full)"
    using push_keeps_newest [of "(queue_new 2)\<lparr>staging := [q, r]\<rparr>" L p]
      push_keeps_newest [of "(queue_new 1)\<lparr>inflight := [\<lparr>q_seq = 1, q_point = q, q_sent = False\<rparr>]\<rparr>" L p]
    by (simp add: queue_new_def queue_size_def)
qed

text \<open>A live sample sent while samples are still staged goes ahead of them: it gets a lower number
  than samples that were accepted before it.\<close>

lemma live_overtakes_staged:
  assumes "queue_size q < max_size q"
  shows "points_of (snd (enqueue L n p q)) = map q_point (inflight q) @ [p] @ staging q"
proof -
  let ?q = "q\<lparr>inflight := inflight q @ [\<lparr>q_seq = n, q_point = p, q_sent = True\<rparr>]\<rparr>"
  have "enforce_cap L ?q = ?q" using assms by (intro enforce_cap_id) (simp add: queue_size_snoc)
  then show ?thesis by (simp add: enqueue_def Let_def points_of_def)
qed

theorem live_overtakes_staged_witness:
  "\<forall>L a b. points_of (snd (enqueue L 1 b ((queue_new 10)\<lparr>staging := [a]\<rparr>))) = [b, a]"
  by (intro allI, subst live_overtakes_staged) (simp_all add: queue_new_def queue_size_def)

end
