(* ===== verification/Control_Correct.thy ===== *)
theory Control_Correct
  imports Noise_Filter Rate Ws_Url
begin

text \<open>
  What the small components around the session promise, as properties: the GPS filter
  (\<^verbatim>\<open>filter.rs\<close>), the reconnect delays (\<^verbatim>\<open>backoff.rs\<close>), the WebSocket address (\<^verbatim>\<open>url.rs\<close>), the error codes
  (\<^verbatim>\<open>errors.rs\<close>).
\<close>

section \<open>The GPS filter\<close>

text \<open>C32: A sample the filter holds back comes less than a heartbeat after the last sample it sent, for
  every stream of samples and clock readings; so a stream of samples never falls silent for longer.\<close>

theorem held_within_heartbeat:
  assumes "filter_run L filter_new (ps @ [(clock, p)]) = (outs @ [None], f)"
  shows "\<exists>q t. last_sent outs = Some q \<and> timestamp_ms q = Some t \<and>
    sint (unwrap_or clock (timestamp_ms p)) - sint t < HEARTBEAT_MS"
  using assms by (rule run_held_within_heartbeat)

definition here :: lat_lng where
  "here = (lat_lng_new (f64_of_int 60) (f64_of_int 30))\<lparr>timestamp_ms := Some 0\<rparr>"

definition here_later :: lat_lng where
  "here_later = lat_lng_new (f64_of_int 60) (f64_of_int 30)"

text \<open>A mathematics library in which nothing is far from anything.\<close>

definition flat_libm :: libm where
  "flat_libm = \<lparr>m_sin = (\<lambda>x. x), m_cos = (\<lambda>x. x), m_asin = (\<lambda>x. f64_of_int 0)\<rparr>"

lemma flat_near: "moved flat_libm here (stamped 500 here_later) = False"
proof -
  have "f64_ge (f64_mul (f64_mul (f64_of_int 2) (f64_of_int 6371000)) (f64_of_int 0))
      (f64_max MIN_MOVE_M (f64_mul (f64_of_int 2) (f64_of_int 0))) = False" by code_simp
  then show ?thesis
    by (simp add: moved_def haversine_m_def flat_libm_def Let_def stamped_def here_later_def lat_lng_new_def)
qed

definition after_here :: noise_filter where
  "after_here = \<lparr>last_emitted = Some here, candidate = None, last_emit_at = Some 0\<rparr>"

lemma demo_filter_first: "filter_push flat_libm 0 here filter_new = (Some here, after_here)"
  by (simp add: filter_push_cases Let_def should_emit_def filter_new_def stamped_def here_def after_here_def)

lemma demo_filter_held:
  "filter_push flat_libm 500 here_later after_here = (None, after_here\<lparr>candidate := Some (stamped 500 here_later)\<rparr>)"
proof -
  have "heartbeat_due after_here 500 = False" by code_simp
  moreover have "last_emitted after_here = Some here" "candidate after_here = None"
    "timestamp_ms here_later = None" "heading here = None" "speed here = None"
    by (simp_all add: after_here_def here_def here_later_def lat_lng_new_def)
  ultimately show ?thesis
    by (simp add: filter_push_cases Let_def should_emit_def flat_near left_line_def turned_def motion_changed_def)
qed

lemma demo_filter_run:
  "filter_run flat_libm filter_new ([(0, here)] @ [(500, here_later)]) =
    ([Some here] @ [None], after_here\<lparr>candidate := Some (stamped 500 here_later)\<rparr>)"
  by (simp add: demo_filter_first demo_filter_held)

theorem held_within_heartbeat_witness:
  "\<exists>q t. last_sent [Some here] = Some q \<and> timestamp_ms q = Some t \<and>
    sint (unwrap_or 500 (timestamp_ms here_later)) - sint t < HEARTBEAT_MS"
  by (rule held_within_heartbeat [OF demo_filter_run])

text \<open>Every sample the filter is given is either sent exactly as it came, with its missing time
  filled in, or held; and the filter remembers the last one it sent and when.\<close>

lemma filter_sends_unchanged:
  "let (outs, f) = filter_run L filter_new ps in
   list_all2 (\<lambda>(clock, p) out. out = None \<or> out = Some (stamped clock p)) ps outs \<and>
   last_emitted f = last_sent outs \<and> last_emit_at f = Option.bind (last_sent outs) timestamp_ms"
proof -
  have sent: "filter_run L f0 ps = (outs, f) \<Longrightarrow>
      list_all2 (\<lambda>(clock, p) out. out = None \<or> out = Some (stamped clock p)) ps outs" for f0 outs f
  proof (induction ps arbitrary: f0 outs)
    case (Cons x ps)
    obtain clock p where x: "x = (clock, p)" by (cases x)
    obtain out f1 where push: "filter_push L clock p f0 = (out, f1)" by fastforce
    obtain outs' where rest: "filter_run L f1 ps = (outs', f)" and outs: "outs = out # outs'"
      using Cons.prems by (auto simp: x push split: prod.splits)
    have "out = None \<or> out = Some (stamped clock p)"
      using push push_sent [of L clock p f0] by (cases out) auto
    with Cons.IH [OF rest] outs x show ?case by simp
  qed simp
  obtain outs f where r: "filter_run L filter_new ps = (outs, f)" by fastforce
  with sent [OF r] run_last_sent [OF r] show ?thesis by simp
qed

text \<open>C33: Collapsing a full buffer removes one interior sample that lies on the line between its
  neighbours, keeps the first and the last sample, and removes nothing exactly when no interior
  sample is on such a line.\<close>

theorem collapse_removes_one_on_line:
  "case collapse_one_collinear L ps of
     (True, qs) \<Rightarrow> (\<exists>i. 0 < i \<and> Suc i < length ps \<and> collinear_at L ps i \<and> qs = remove_nth i ps) \<and>
        hd qs = hd ps \<and> last qs = last ps
   | (False, qs) \<Rightarrow> qs = ps \<and> (\<forall>i. \<not> (0 < i \<and> Suc i < length ps \<and> collinear_at L ps i))"
  using collapse_true [of L ps] collapse_ends [of L ps] collapse_false [of L ps] collapse_false_none [of L ps]
  by (auto split: prod.splits bool.splits)

section \<open>Reconnect delays\<close>

text \<open>C34: Whatever the random number, also out of range or not a number, a reconnect delay is at most
  the configured maximum and at most the minimum doubled once per attempt.\<close>

theorem reconnect_delay_bounded:
  assumes "next_delay r s = (Some d, s')" and "as_millis (max_delay s) \<le> 2 ^ 53"
    and "as_millis (min_delay s) \<le> 2 ^ 53" and "unat (attempt s) \<le> 900"
  shows "d \<le> from_millis (as_millis (max_delay s)) \<and>
    d \<le> from_millis (as_millis (min_delay s) * 2 ^ unat (attempt s))"
  using delay_le_max [OF assms(2,1)] delay_le_window [OF assms(3,4,1)] by blast

lemma demo_delay:
  "fst (next_delay (f64_of_int 1) (new_backoff 0 0 0)) = Some 500000000"
  by code_simp

theorem reconnect_delay_bounded_witness:
  "fst (next_delay (f64_of_int 1) (new_backoff 0 0 0)) = Some 500000000 \<and> (500000000 :: nat) \<le> from_millis 500"
proof -
  have "next_delay (f64_of_int 1) (new_backoff 0 0 0) =
      (Some 500000000, snd (next_delay (f64_of_int 1) (new_backoff 0 0 0)))"
    using demo_delay by (simp add: prod_eq_iff)
  from reconnect_delay_bounded [OF this] demo_delay show ?thesis
    by (simp add: new_backoff_def as_millis_def from_millis_def)
qed

text \<open>C35: With a limit on the attempts, exactly that many delays are granted before the client gives up,
  and a successful dial starts the count over.\<close>

theorem reconnect_attempts_limited:
  assumes "0 < max_attempts s"
  shows "length (granted rs (reset_backoff s)) = min (length rs) (unat (max_attempts s))"
  using length_granted [of "reset_backoff s" rs] assms by (simp add: reset_backoff_def)

theorem reconnect_attempts_limited_witness:
  "length (granted [f64_of_int 0, f64_of_int 0, f64_of_int 0] (reset_backoff (new_backoff 0 0 2))) = 2"
  by (subst reconnect_attempts_limited) (simp_all add: new_backoff_def)

section \<open>The WebSocket address\<close>

text \<open>C38: An address is built only for the four accepted schemes; http and https become ws and wss, a
  secure endpoint never becomes an insecure address, and the query ends with exactly the
  credentials of one role: the two of the device, or the token of the listener when no device is
  configured.\<close>

theorem ws_address:
  assumes "url_laws C" and "build_ws_url C cfg = Inr u"
  shows "\<exists>p. url_parse C (if \<not> contains (trim (endpoint cfg)) ''://'' then ''ws://'' @ trim (endpoint cfg)
                 else trim (endpoint cfg)) = Inr p \<and>
    url_scheme C p \<in> {''http'', ''https'', ''ws'', ''wss''} \<and>
    url_scheme C u = (if url_scheme C p = ''http'' \<or> url_scheme C p = ''ws'' then ''ws'' else ''wss'') \<and>
    url_pairs C u = url_pairs C p @
      (case (device cfg, listener cfg) of
         (Some d, _) \<Rightarrow> [(''client-id'', client_id d), (''client-secret'', client_secret d)]
       | (None, Some l) \<Rightarrow> [(''access-token'', access_token l)]
       | (None, None) \<Rightarrow> [])"
proof -
  have "auth_pairs cfg = (case (device cfg, listener cfg) of
      (Some d, _) \<Rightarrow> [(''client-id'', client_id d), (''client-secret'', client_secret d)]
    | (None, Some l) \<Rightarrow> [(''access-token'', access_token l)]
    | (None, None) \<Rightarrow> [])"
    by (simp add: auth_pairs_def split: option.split)
  with build_ws_url_ok [OF assms] show ?thesis by auto
qed

definition listener_cfg :: config where
  "listener_cfg = config_default\<lparr>endpoint := '' https://host '', listener := Some \<lparr>access_token = ''t''\<rparr>\<rparr>"

definition both_cfg :: config where
  "both_cfg = listener_cfg\<lparr>device := Some \<lparr>client_id = ''i'', client_secret = ''s''\<rparr>\<rparr>"

lemma listener_url: "build_ws_url plain_url listener_cfg = Inr (''wss'', [(''access-token'', ''t'')])"
  by code_simp

lemma both_url: "build_ws_url plain_url both_cfg = Inr (''wss'', [(''client-id'', ''i''), (''client-secret'', ''s'')])"
  by code_simp

theorem ws_address_witness:
  "(\<exists>p. url_pairs plain_url (''wss'', [(''access-token'', ''t'')]) = url_pairs plain_url p @ [(''access-token'', ''t'')]) \<and>
   (\<exists>p. url_pairs plain_url (''wss'', [(''client-id'', ''i''), (''client-secret'', ''s'')]) =
     url_pairs plain_url p @ [(''client-id'', ''i''), (''client-secret'', ''s'')])"
  using ws_address [OF plain_url_laws listener_url] ws_address [OF plain_url_laws both_url]
  by (auto simp: listener_cfg_def both_cfg_def config_default_def)

section \<open>Error codes\<close>

text \<open>Error codes survive the wire, no other byte is taken for one; an error of a resume is never
  both fatal and retried, and every fatal one either lost the track or asks for new credentials.\<close>

lemma error_codes_sound:
  "error_code_from_u8 (error_code_u8 c) = Some c \<and>
   (error_code_from_u8 v = Some c) = (v = error_code_u8 c) \<and>
   \<not> (is_fatal_resume_error c \<and> is_retry_resume_error c) \<and>
   is_fatal_resume_error c = (c = TrackNotFound \<or> c = Auth)"
  using error_code_from_u8_Some [of v c] resume_error_classes(1)
  by (auto simp: is_fatal_resume_error_def)

end
