(* ===== verification/Http_Types.thy ===== *)
theory Http_Types
  imports Rate
begin

text \<open>
  Errors and configuration of the HTTP client (\<^verbatim>\<open>src/error.rs\<close>,
  \<^verbatim>\<open>src/config.rs\<close>) and the world it runs in. The \<open>net\<close> record is the
  environment of a run: what the n-th request is answered, the random draws, the clock
  readings, and what the client did, the requests sent and the pauses made. Crates that
  are not part of the repository are the fields of \<open>crates\<close>; their JSON values have the
  type \<open>'j\<close>.
\<close>

section \<open>Errors (error.rs)\<close>

record api_error =
  api_status :: u16
  api_code :: string
  api_message :: string
  api_body :: "u8 list"

text \<open>\<open>HttpFailed\<close> and \<open>JsonFailed\<close> carry the text of the other crate's error.\<close>

datatype http_error =
    ApiFailed api_error
  | AuthFailed
  | NotFoundFailed
  | ConflictFailed
  | ConfigFailed
  | HttpFailed string
  | JsonFailed string
  | BatchCancelled

definition api_error_new :: "u16 \<Rightarrow> string \<Rightarrow> string \<Rightarrow> u8 list \<Rightarrow> api_error" where
  "api_error_new status code message body =
     \<lparr>api_status = status, api_code = code, api_message = message, api_body = body\<rparr>"

definition api_error_text :: "api_error \<Rightarrow> string" where
  "api_error_text e =
     (if api_message e = []
      then ''pickpoint: request failed (status='' @ show_nat (unat (api_status e)) @ '' code='' @ api_code e @ '')''
      else ''pickpoint: '' @ api_message e @ '' (status='' @ show_nat (unat (api_status e)) @ '' code='' @
             api_code e @ '')'')"

fun http_error_text :: "http_error \<Rightarrow> string" where
  "http_error_text (ApiFailed e) = api_error_text e"
| "http_error_text AuthFailed = ''pickpoint: auth failed''"
| "http_error_text NotFoundFailed = ''pickpoint: not found''"
| "http_error_text ConflictFailed = ''pickpoint: conflict''"
| "http_error_text ConfigFailed = ''pickpoint: invalid config''"
| "http_error_text (HttpFailed s) = s"
| "http_error_text (JsonFailed s) = ''pickpoint: invalid JSON: '' @ s"
| "http_error_text BatchCancelled = ''pickpoint: batch cancelled''"

definition api_is_auth :: "api_error \<Rightarrow> bool" where
  "api_is_auth e \<longleftrightarrow> api_code e = ''API_AUTH'' \<or> api_code e = ''REFRESH_FAILED''"

definition api_is_not_found :: "api_error \<Rightarrow> bool" where
  "api_is_not_found e \<longleftrightarrow> api_code e = ''NOT_FOUND''"

definition api_is_conflict :: "api_error \<Rightarrow> bool" where
  "api_is_conflict e \<longleftrightarrow> api_code e = ''CONFLICT''"

definition api_is_invalid_config :: "api_error \<Rightarrow> bool" where
  "api_is_invalid_config e \<longleftrightarrow> api_code e = ''INVALID_CONFIG''"

definition api_failure :: "u16 \<Rightarrow> string \<Rightarrow> string \<Rightarrow> u8 list \<Rightarrow> http_error" where
  "api_failure status code message body = ApiFailed (api_error_new status code message body)"

definition invalid_config :: "string \<Rightarrow> http_error" where
  "invalid_config message = ApiFailed (api_error_new 0 ''INVALID_CONFIG'' message [])"

fun is_auth_failure :: "http_error \<Rightarrow> bool" where
  "is_auth_failure AuthFailed = True"
| "is_auth_failure (ApiFailed e) = api_is_auth e"
| "is_auth_failure _ = False"

fun is_not_found_failure :: "http_error \<Rightarrow> bool" where
  "is_not_found_failure NotFoundFailed = True"
| "is_not_found_failure (ApiFailed e) = api_is_not_found e"
| "is_not_found_failure _ = False"

fun is_conflict_failure :: "http_error \<Rightarrow> bool" where
  "is_conflict_failure ConflictFailed = True"
| "is_conflict_failure (ApiFailed e) = api_is_conflict e"
| "is_conflict_failure _ = False"

fun is_config_failure :: "http_error \<Rightarrow> bool" where
  "is_config_failure ConfigFailed = True"
| "is_config_failure (ApiFailed e) = api_is_invalid_config e"
| "is_config_failure _ = False"

section \<open>Configuration (config.rs)\<close>

definition DEFAULT_BASE_URL :: string where "DEFAULT_BASE_URL = ''https://api.pickpoint.io''"
definition DEFAULT_MAX_RETRIES :: u32 where "DEFAULT_MAX_RETRIES = 3"
definition DEFAULT_RETRY_BASE :: duration where "DEFAULT_RETRY_BASE = from_millis 1000"
definition MIN_RETRY_BASE :: duration where "MIN_RETRY_BASE = from_millis 200"
definition DEFAULT_TIMEOUT :: duration where "DEFAULT_TIMEOUT = from_millis 30000"
definition MAX_CONCURRENCY :: nat where "MAX_CONCURRENCY = 20"
definition DEFAULT_CONCURRENCY :: nat where "DEFAULT_CONCURRENCY = 20"

text \<open>\<open>0x3FE0000000000000\<close> is the literal \<^verbatim>\<open>0.5\<close>.\<close>

definition CLIENT_AUTH_REFRESH_AT :: f64 where "CLIENT_AUTH_REFRESH_AT = F64 0x3FE0000000000000"

record client_auth =
  ca_access_token :: string
  ca_refresh_token :: string
  ca_expires_at :: i64

record 'h http_config =
  hc_api_key :: "string option"
  hc_client_auth :: "client_auth option"
  hc_access_token :: "string option"
  hc_base_url :: "string option"
  hc_http_client :: "'h option"
  hc_max_retries :: "u32 option"
  hc_retry_base :: "duration option"
  hc_timeout :: "duration option"
  hc_concurrency :: "nat option"

definition http_config_default :: "'h http_config" where
  "http_config_default = \<lparr>hc_api_key = None, hc_client_auth = None, hc_access_token = None, hc_base_url = None,
     hc_http_client = None, hc_max_retries = None, hc_retry_base = None, hc_timeout = None, hc_concurrency = None\<rparr>"

definition with_api_key :: "string \<Rightarrow> 'h http_config" where
  "with_api_key k = http_config_default\<lparr>hc_api_key := Some k\<rparr>"
definition with_client_auth :: "client_auth \<Rightarrow> 'h http_config" where
  "with_client_auth a = http_config_default\<lparr>hc_client_auth := Some a\<rparr>"
definition with_access_token :: "string \<Rightarrow> 'h http_config" where
  "with_access_token t = http_config_default\<lparr>hc_access_token := Some t\<rparr>"
definition set_base_url :: "string \<Rightarrow> 'h http_config \<Rightarrow> 'h http_config" where
  "set_base_url u c = c\<lparr>hc_base_url := Some u\<rparr>"
definition set_http_client :: "'h \<Rightarrow> 'h http_config \<Rightarrow> 'h http_config" where
  "set_http_client h c = c\<lparr>hc_http_client := Some h\<rparr>"
definition set_max_retries :: "u32 \<Rightarrow> 'h http_config \<Rightarrow> 'h http_config" where
  "set_max_retries n c = c\<lparr>hc_max_retries := Some n\<rparr>"
definition set_retry_base :: "duration \<Rightarrow> 'h http_config \<Rightarrow> 'h http_config" where
  "set_retry_base d c = c\<lparr>hc_retry_base := Some d\<rparr>"
definition set_timeout :: "duration \<Rightarrow> 'h http_config \<Rightarrow> 'h http_config" where
  "set_timeout d c = c\<lparr>hc_timeout := Some d\<rparr>"
definition set_concurrency :: "nat \<Rightarrow> 'h http_config \<Rightarrow> 'h http_config" where
  "set_concurrency n c = c\<lparr>hc_concurrency := Some n\<rparr>"

section \<open>The world\<close>

record 'j http_request =
  rq_method :: string
  rq_url :: string
  rq_headers :: "(string \<times> string) list"
  rq_body :: "'j option"

record http_reply =
  rep_status :: u16
  rep_body :: "u8 list"

text \<open>The tokens that the client refreshes (\<^verbatim>\<open>src/auth.rs\<close>).\<close>

record client_auth_inner =
  ai_access_token :: string
  ai_refresh_token :: string
  ai_expires_at :: i64
  ai_issued_at :: instant
  ai_refreshing :: bool

text \<open>
  How the wait of a caller for the refresh of another ends: it is woken and finds the flag
  clear, or, back at the top of the loop, it finds it clear there. Between these it may have gone
  round the loop any number of times.
\<close>

datatype wait_end = FoundDone client_auth_inner | FoundFree client_auth_inner

text \<open>
  A clock reading is the system time in milliseconds and the monotonic clock. \<open>net_wait\<close> is
  how such a wait ends, with the tokens as the other callers have left them.
\<close>

record 'j net =
  net_answer :: "nat \<Rightarrow> string + http_reply"
  net_draw :: "nat \<Rightarrow> nat"
  net_clock :: "nat \<Rightarrow> i64 \<times> instant"
  net_wait :: "client_auth_inner \<Rightarrow> wait_end"
  net_log :: "'j http_request list"
  net_slept :: "duration list"
  net_reads :: nat

definition http_send :: "'j http_request \<Rightarrow> 'j net \<Rightarrow> (string + http_reply) \<times> 'j net" where
  "http_send r n = (net_answer n (length (net_log n)), n\<lparr>net_log := net_log n @ [r]\<rparr>)"

definition read_clock :: "'j net \<Rightarrow> (i64 \<times> instant) \<times> 'j net" where
  "read_clock n = (net_clock n (net_reads n), n\<lparr>net_reads := Suc (net_reads n)\<rparr>)"

text \<open>
  Other crates: query-string and path encoding, header values, reason phrases, base64, and
  JSON values with the derived readers of the types of the repository.
\<close>

record 'j crates =
  form_encode :: "(string \<times> string) list \<Rightarrow> string"
  path_encode :: "string \<Rightarrow> string"
  header_ok :: "string \<Rightarrow> bool"
  bad_header_text :: string
  reason :: "u16 \<Rightarrow> string option"
  base64 :: "u8 list \<Rightarrow> string"
  js_is_null :: "'j \<Rightarrow> bool"
  js_null :: 'j
  js_string :: "string \<Rightarrow> 'j"
  js_int :: "int \<Rightarrow> 'j"
  js_list :: "'j list \<Rightarrow> 'j"
  js_object :: "(string \<times> 'j) list \<Rightarrow> 'j"
  js_parse :: "u8 list \<Rightarrow> string + 'j"
  js_parse_list :: "u8 list \<Rightarrow> string + 'j list"
  js_message :: "u8 list \<Rightarrow> (string option \<times> string option) option"
  js_client_auth :: "u8 list \<Rightarrow> string + client_auth"

end
