(* ===== verification/Http_Auth.thy ===== *)
theory Http_Auth
  imports Http_Types
begin

text \<open>
  Credentials of the HTTP client (\<^verbatim>\<open>src/auth.rs\<close>): choosing one, the two token
  sessions, and the refresh of client tokens. The trait \<^verbatim>\<open>TokenSession\<close> is the
  locale \<open>token_session\<close>; both sessions of the code interpret it. Here a call of \<^verbatim>\<open>refresh\<close> is
  seen from one caller; several callers at once are the theory \<open>Http_Refresh\<close>, over the same
  critical sections.
  Signed 64-bit arithmetic wraps, as in a release build.
\<close>

section \<open>State\<close>

datatype 'b auth_kind = KeyAuth string | BearerAuth 'b

datatype token_source = StaticToken string | ClientAuthToken client_auth_inner

definition client_auth_new :: "instant \<Rightarrow> client_auth \<Rightarrow> http_error + client_auth_inner" where
  "client_auth_new now a =
     (if ca_access_token a = [] \<or> ca_refresh_token a = [] \<or> ca_expires_at a = 0
      then Inl (invalid_config ''client_auth requires access_token, refresh_token, and expires_at (unix ms)'')
      else Inr \<lparr>ai_access_token = ca_access_token a, ai_refresh_token = ca_refresh_token a,
                ai_expires_at = ca_expires_at a, ai_issued_at = now, ai_refreshing = False\<rparr>)"

definition given :: "string option \<Rightarrow> bool" where
  "given s = (case s of None \<Rightarrow> False | Some t \<Rightarrow> t \<noteq> [])"

definition resolve_auth :: "instant \<Rightarrow> 'h http_config \<Rightarrow> http_error + token_source auth_kind" where
  "resolve_auth now c =
     (let n = (if given (hc_api_key c) then 1 else 0) + (if hc_client_auth c \<noteq> None then 1 else 0) +
              (if given (hc_access_token c) then 1 else 0 :: nat)
      in if 1 < n then Inl (invalid_config ''provide only one of: api_key | client_auth | access_token'')
         else if n = 0 then Inl (invalid_config ''auth required: api_key, client_auth, or access_token'')
         else if given (hc_api_key c) then Inr (KeyAuth (the (hc_api_key c)))
         else case hc_client_auth c of
             Some a \<Rightarrow> and_then (client_auth_new now a) (\<lambda>i. Inr (BearerAuth (ClientAuthToken i)))
           | None \<Rightarrow> Inr (BearerAuth (StaticToken (case hc_access_token c of Some t \<Rightarrow> t | None \<Rightarrow> []))))"

section \<open>When to refresh\<close>

text \<open>
  The code reads the monotonic clock twice: for the time since the tokens were issued, and
  for the comparison.
\<close>

definition needs_proactive_refresh :: "i64 \<Rightarrow> instant \<Rightarrow> instant \<Rightarrow> client_auth_inner \<Rightarrow> bool" where
  "needs_proactive_refresh now_ms now1 now2 i =
     (let issued_ms = now_ms - of_nat (as_millis (now1 - ai_issued_at i));
          ttl_ms = ai_expires_at i - issued_ms
      in if sint ttl_ms \<le> 0 then sint (ai_expires_at i - 30000) \<le> sint now_ms
         else let refresh_after = from_millis (unat (f64_to_u64 (f64_mul (f64_of_int (sint ttl_ms)) CLIENT_AUTH_REFRESH_AT)))
              in ai_issued_at i + refresh_after \<le> now2)"

section \<open>Refreshing\<close>

text \<open>The sections of \<^verbatim>\<open>refresh\<close>: the leader takes the refresh token, all others wait.\<close>

definition refresh_begin :: "client_auth_inner \<Rightarrow> string option \<times> client_auth_inner" where
  "refresh_begin i = (if \<not> ai_refreshing i then (Some (ai_refresh_token i), i\<lparr>ai_refreshing := True\<rparr>) else (None, i))"

definition refresh_request :: "'j crates \<Rightarrow> string \<Rightarrow> string \<Rightarrow> 'j http_request" where
  "refresh_request C base tok =
     \<lparr>rq_method = ''POST'', rq_url = base @ ''/v2/client-tokens/refresh'',
      rq_headers = [(''Accept'', ''application/json''), (''Content-Type'', ''application/json'')],
      rq_body = Some (js_object C [(''refreshToken'', js_string C tok)])\<rparr>"

definition check_refresh :: "'j crates \<Rightarrow> string + http_reply \<Rightarrow> http_error + client_auth" where
  "check_refresh C res = (case res of
       Inl e \<Rightarrow> Inl (api_failure 0 ''REFRESH_FAILED'' (''client token refresh network error: '' @ e) [])
     | Inr rep \<Rightarrow>
         let status = rep_status rep; raw = rep_body rep in
         if \<not> (200 \<le> status \<and> status < 300) then
           Inl (api_failure status ''REFRESH_FAILED'' (''client token refresh failed ('' @ show_nat (unat status) @ '')'') raw)
         else case js_client_auth C raw of
             Inl e \<Rightarrow> Inl (api_failure 0 ''INVALID_TOKEN'' (''refresh returned invalid JSON: '' @ e) raw)
           | Inr pair \<Rightarrow>
               if ca_access_token pair = [] \<or> ca_refresh_token pair = [] \<or> ca_expires_at pair = 0
               then Inl (api_failure 0 ''INVALID_TOKEN'' ''refresh returned invalid clientAuth pair'' raw)
               else Inr pair)"

definition refresh_store :: "instant \<Rightarrow> client_auth \<Rightarrow> client_auth_inner \<Rightarrow> client_auth_inner" where
  "refresh_store now pair i =
     i\<lparr>ai_access_token := ca_access_token pair, ai_refresh_token := ca_refresh_token pair,
       ai_expires_at := ca_expires_at pair, ai_issued_at := now\<rparr>"

definition refresh_end :: "client_auth_inner \<Rightarrow> client_auth_inner" where
  "refresh_end i = i\<lparr>ai_refreshing := False\<rparr>"

definition do_refresh ::
    "'j crates \<Rightarrow> string \<Rightarrow> string \<Rightarrow> client_auth_inner \<Rightarrow> 'j net \<Rightarrow>
     (http_error + unit) \<times> client_auth_inner \<times> 'j net" where
  "do_refresh C base tok i n =
     (let (res, n) = http_send (refresh_request C base tok) n in
      case check_refresh C res of
        Inl e \<Rightarrow> (Inl e, i, n)
      | Inr pair \<Rightarrow> let ((_, now), n) = read_clock n in (Inr (), refresh_store now pair i, n))"

text \<open>
  \<^verbatim>\<open>refresh\<close> of one caller: it leads, sends and ends, or it waits for another leader. A wait
  that ends is ended by what the other callers do, so the environment says how: with the flag
  clear after a wake-up the caller returns, with the flag clear at the top of the loop it leads
  itself. Waits that never end, and how the sections of several callers interleave, are the
  theory \<open>Http_Refresh\<close>.
\<close>

definition lead_refresh ::
    "'j crates \<Rightarrow> string \<Rightarrow> string \<Rightarrow> client_auth_inner \<Rightarrow> 'j net \<Rightarrow>
     (http_error + unit) \<times> client_auth_inner \<times> 'j net" where
  "lead_refresh C base tok i n = (let (r, i, n) = do_refresh C base tok i n in (r, refresh_end i, n))"

definition client_refresh ::
    "'j crates \<Rightarrow> string \<Rightarrow> client_auth_inner \<Rightarrow> 'j net \<Rightarrow> (http_error + unit) \<times> client_auth_inner \<times> 'j net" where
  "client_refresh C base i n = (case refresh_begin i of
       (Some tok, i) \<Rightarrow> lead_refresh C base tok i n
     | (None, i) \<Rightarrow> (case net_wait n i of
           FoundDone i \<Rightarrow> (Inr (), i\<lparr>ai_refreshing := False\<rparr>, n)
         | FoundFree i \<Rightarrow> lead_refresh C base (ai_refresh_token i) (i\<lparr>ai_refreshing := True\<rparr>) n))"

section \<open>Sessions\<close>

definition client_token ::
    "'j crates \<Rightarrow> string \<Rightarrow> client_auth_inner \<Rightarrow> 'j net \<Rightarrow> (http_error + string) \<times> client_auth_inner \<times> 'j net" where
  "client_token C base i n =
     (let ((now_ms, now1), n) = read_clock n; ((_, now2), n) = read_clock n in
      if needs_proactive_refresh now_ms now1 now2 i
      then (let (r, i, n) = client_refresh C base i n in
            (case r of Inl e \<Rightarrow> Inl e | Inr _ \<Rightarrow> Inr (ai_access_token i), i, n))
      else (Inr (ai_access_token i), i, n))"

fun session_token ::
    "'j crates \<Rightarrow> string \<Rightarrow> token_source \<Rightarrow> 'j net \<Rightarrow> (http_error + string) \<times> token_source \<times> 'j net" where
  "session_token C base (StaticToken t) n = (Inr t, StaticToken t, n)"
| "session_token C base (ClientAuthToken i) n =
     (let (r, i, n) = client_token C base i n in (r, ClientAuthToken i, n))"

fun session_refresh :: "'j crates \<Rightarrow> string \<Rightarrow> token_source \<Rightarrow> 'j net \<Rightarrow> bool \<times> token_source \<times> 'j net" where
  "session_refresh C base (StaticToken t) n = (False, StaticToken t, n)"
| "session_refresh C base (ClientAuthToken i) n =
     (let (r, i, n) = client_refresh C base i n in (\<not> isl r, ClientAuthToken i, n))"

section \<open>The contract of a token session\<close>

text \<open>
  What the transport relies on: a session sends at most one request of its own per call,
  does not pause, and leaves the environment alone.
\<close>

definition same_world :: "'j net \<Rightarrow> 'j net \<Rightarrow> bool" where
  "same_world n m \<longleftrightarrow> net_answer m = net_answer n \<and> net_draw m = net_draw n \<and> net_clock m = net_clock n \<and>
     net_wait m = net_wait n"

locale token_session =
  fixes token :: "'b \<Rightarrow> 'j net \<Rightarrow> (http_error + string) \<times> 'b \<times> 'j net"
    and refresh :: "'b \<Rightarrow> 'j net \<Rightarrow> bool \<times> 'b \<times> 'j net"
    and own :: "'j http_request \<Rightarrow> bool"
  assumes token_log: "token b n = (r, b', n') \<Longrightarrow>
      same_world n n' \<and>
      (\<exists>rs. net_log n' = net_log n @ rs \<and> list_all own rs \<and> length rs \<le> 1 \<and> net_slept n' = net_slept n)"
    and refresh_log: "refresh b n = (ok, b', n') \<Longrightarrow>
      same_world n n' \<and>
      (\<exists>rs. net_log n' = net_log n @ rs \<and> list_all own rs \<and> length rs \<le> 1 \<and> net_slept n' = net_slept n)"

lemma refreshing_kept:
  "client_refresh C base i n = (r, i', n') \<Longrightarrow> \<not> ai_refreshing i'"
  by (auto simp: client_refresh_def lead_refresh_def refresh_end_def split: prod.splits option.splits wait_end.splits)

lemma refresh_sends:
  "client_refresh C base i n = (r, i', n') \<Longrightarrow>
   same_world n n' \<and>
   (\<exists>rs. net_log n' = net_log n @ rs \<and> list_all (\<lambda>q. rq_url q = base @ ''/v2/client-tokens/refresh'') rs \<and>
     length rs \<le> 1 \<and> net_slept n' = net_slept n)"
  by (auto simp: same_world_def client_refresh_def lead_refresh_def refresh_begin_def do_refresh_def http_send_def
      read_clock_def refresh_request_def Let_def split: if_splits sum.splits prod.splits wait_end.splits)

interpretation source: token_session "session_token C base" "session_refresh C base"
  "\<lambda>q. rq_url q = base @ ''/v2/client-tokens/refresh''" for C base
proof (unfold_locales, goal_cases)
  case (1 b n r b' n')
  show ?case
  proof (cases b)
    case (ClientAuthToken i)
    with 1 show ?thesis
      by (auto simp: client_token_def read_clock_def same_world_def Let_def split: if_splits prod.splits
          dest!: refresh_sends)
  qed (use 1 in \<open>simp add: same_world_def\<close>)
next
  case (2 b n ok b' n')
  then show ?case by (cases b) (auto simp: same_world_def dest!: refresh_sends split: prod.splits)
qed

end
