(* ===== verification/Http_Services.thy ===== *)
theory Http_Services
  imports Http_Transport "HOL-Library.Multiset"
begin

text \<open>
  The services of the HTTP client over one transport: settings (\<^verbatim>\<open>src/client.rs\<close>),
  geocoding and its batches (\<^verbatim>\<open>src/geocoding.rs\<close>), address search
  (\<^verbatim>\<open>src/address.rs\<close>), routing (\<^verbatim>\<open>src/routing.rs\<close>), devices
  (\<^verbatim>\<open>src/devices.rs\<close>) and minting of client tokens (\<^verbatim>\<open>src/mint.rs\<close>). A call
  takes the credentials and the world and gives them back. The JSON readers that
  \<^verbatim>\<open>serde\<close> derives for the device types are the fields of \<open>device_json\<close>.
\<close>

section \<open>Settings (client.rs)\<close>

record http_client =
  hcl_transport :: transport
  hcl_auth :: "token_source auth_kind"
  hcl_concurrency :: nat

definition or_else :: "'a \<Rightarrow> 'a option \<Rightarrow> 'a" where
  "or_else d v = (case v of None \<Rightarrow> d | Some x \<Rightarrow> x)"

definition build_http :: "(duration \<Rightarrow> string + 'h) \<Rightarrow> 'h option \<Rightarrow> duration \<Rightarrow> http_error + 'h" where
  "build_http build given_client timeout = (case given_client of
       Some h \<Rightarrow> Inr h
     | None \<Rightarrow> (case build timeout of Inl e \<Rightarrow> Inl (HttpFailed e) | Inr h \<Rightarrow> Inr h))"

definition http_client_new :: "(duration \<Rightarrow> string + 'h) \<Rightarrow> instant \<Rightarrow> 'h http_config \<Rightarrow> http_error + http_client" where
  "http_client_new build now c =
     (let base = trim_slash (or_else DEFAULT_BASE_URL (hc_base_url c)) in
      and_then (build_http build (hc_http_client c) (or_else DEFAULT_TIMEOUT (hc_timeout c))) (\<lambda>_.
      let max_retries = or_else DEFAULT_MAX_RETRIES (hc_max_retries c);
          retry_base = or_else DEFAULT_RETRY_BASE (hc_retry_base c);
          retry_base = (if retry_base < MIN_RETRY_BASE then MIN_RETRY_BASE else retry_base);
          concurrency = or_else DEFAULT_CONCURRENCY (hc_concurrency c);
          concurrency = (if concurrency = 0 then DEFAULT_CONCURRENCY else concurrency);
          concurrency = (if MAX_CONCURRENCY < concurrency then MAX_CONCURRENCY else concurrency)
      in and_then (resolve_auth now c) (\<lambda>auth.
           Inr \<lparr>hcl_transport = \<lparr>t_base_url = base, t_max_retries = max_retries, t_retry_base = retry_base\<rparr>,
                hcl_auth = auth, hcl_concurrency = concurrency\<rparr>)))"

section \<open>Calls\<close>

type_synonym ('a, 'j) http_call = "token_source auth_kind \<Rightarrow> 'j net \<Rightarrow> (http_error + 'a) \<times> token_source auth_kind \<times> 'j net"

definition decoded :: "(u8 list \<Rightarrow> http_error + 'a) \<Rightarrow> (u8 list, 'j) http_call \<Rightarrow> ('a, 'j) http_call" where
  "decoded f call a n = (let (r, a, n) = call a n in (and_then r f, a, n))"

definition json_or :: "(u8 list \<Rightarrow> string + 'a) \<Rightarrow> u8 list \<Rightarrow> http_error + 'a" where
  "json_or parse raw = (case parse raw of Inl e \<Rightarrow> Inl (JsonFailed e) | Inr v \<Rightarrow> Inr v)"

type_synonym query = "(string \<times> string) list"

text \<open>Of two pairs with one key the map keeps the later; its iteration order is left open by Rust.\<close>

definition query_of :: "(string \<times> string) list \<Rightarrow> query" where
  "query_of pairs = fold (\<lambda>(k, v) q. filter (\<lambda>(k', _). k' \<noteq> k) q @ [(k, v)]) pairs []"

definition query_pairs :: "query \<Rightarrow> (string \<times> string) list" where
  "query_pairs q = filter (\<lambda>(k, v). v \<noteq> []) q"

section \<open>Geocoding (geocoding.rs)\<close>

definition decode_json_array :: "'j crates \<Rightarrow> u8 list \<Rightarrow> http_error + 'j list" where
  "decode_json_array C raw =
     (if raw = [] then Inr []
      else case js_parse_list C raw of
          Inr vs \<Rightarrow> Inr vs
        | Inl _ \<Rightarrow> and_then (json_or (js_parse C) raw) (\<lambda>one. if js_is_null C one then Inr [] else Inr [one]))"

text \<open>The bytes of \<^verbatim>\<open>[]\<close> and \<^verbatim>\<open>null\<close>.\<close>

definition empty_array :: "u8 list" where "empty_array = [0x5B, 0x5D]"
definition json_null :: "u8 list" where "json_null = [0x6E, 0x75, 0x6C, 0x6C]"

definition geo_opts :: "string \<Rightarrow> query \<Rightarrow> u8 list \<Rightarrow> 'j request_opts" where
  "geo_opts path q none = \<lparr>ro_method = ''GET'', ro_path = path, ro_query = query_pairs q, ro_body = None,
     ro_on_client_error = EmptyResult, ro_empty = Some none\<rparr>"

definition geo_forward :: "'j crates \<Rightarrow> transport \<Rightarrow> query \<Rightarrow> ('j list, 'j) http_call" where
  "geo_forward C t q = decoded (decode_json_array C) (do_request C t (geo_opts ''/v2/geocode/forward'' q empty_array))"

definition decode_reverse :: "'j crates \<Rightarrow> u8 list \<Rightarrow> http_error + 'j option" where
  "decode_reverse C raw =
     (if raw = [] \<or> raw = json_null then Inr None else and_then (json_or (js_parse C) raw) (\<lambda>v. Inr (Some v)))"

definition geo_reverse :: "'j crates \<Rightarrow> transport \<Rightarrow> query \<Rightarrow> ('j option, 'j) http_call" where
  "geo_reverse C t q = decoded (decode_reverse C) (do_request C t (geo_opts ''/v2/geocode/reverse'' q json_null))"

definition geo_lookup :: "'j crates \<Rightarrow> transport \<Rightarrow> query \<Rightarrow> ('j list, 'j) http_call" where
  "geo_lookup C t q = decoded (decode_json_array C) (do_request C t (geo_opts ''/v2/address/lookup'' q empty_array))"

section \<open>Batches\<close>

text \<open>
  \<open>run i q\<close> is what the call for input \<open>i\<close> returns. \<^verbatim>\<open>buffer_unordered\<close> of the crate
  \<^verbatim>\<open>futures\<close> is a parameter: given the number of calls to keep in flight and the results
  of all calls in the order of the inputs, it gives the results in the order in which the stream
  would yield them. \<open>None\<close> is a panic: a result with an index outside the output, or a result that
  never came.
\<close>

type_synonym 'a buffering = "nat \<Rightarrow> (nat \<times> (http_error + 'a)) list \<Rightarrow> (nat \<times> (http_error + 'a)) list"

text \<open>The documented contract: unless nothing may be in flight, every result comes out once.\<close>

definition buffers_all :: "'a buffering \<Rightarrow> bool" where
  "buffers_all unordered \<longleftrightarrow> (\<forall>c results. 1 \<le> c \<longrightarrow> mset (unordered c results) = mset results)"

definition batch_calls :: "(nat \<Rightarrow> 'q \<Rightarrow> http_error + 'a) \<Rightarrow> 'q list \<Rightarrow> (nat \<times> (http_error + 'a)) list" where
  "batch_calls run inputs = map (\<lambda>(i, q). (i, run i q)) (enumerate 0 inputs)"

fun batch_loop :: "(nat \<times> (http_error + 'a)) list \<Rightarrow> 'a option list \<Rightarrow> (http_error + 'a option list) option" where
  "batch_loop [] out = Some (Inr out)"
| "batch_loop ((i, Inr v) # stream) out = (if i < length out then batch_loop stream (out[i := Some v]) else None)"
| "batch_loop ((i, Inl e) # stream) out = Some (Inl e)"

definition run_batch ::
    "nat \<Rightarrow> 'q list \<Rightarrow> (nat \<Rightarrow> 'q \<Rightarrow> http_error + 'a) \<Rightarrow> 'a buffering \<Rightarrow> (http_error + 'a list) option" where
  "run_batch c inputs run unordered =
     (if inputs = [] then Some (Inr [])
      else case batch_loop (unordered (max c 1) (batch_calls run inputs)) (replicate (length inputs) None) of
        None \<Rightarrow> None
      | Some (Inl e) \<Rightarrow> Some (Inl e)
      | Some (Inr out) \<Rightarrow> if list_all (\<lambda>v. v \<noteq> None) out then Some (Inr (map the out)) else None)"

text \<open>\<open>world i\<close>: the credentials and the world that call \<open>i\<close> of a batch meets.\<close>

definition forward_batch :: "'j crates \<Rightarrow> http_client \<Rightarrow> (nat \<Rightarrow> token_source auth_kind \<times> 'j net) \<Rightarrow>
    'j list buffering \<Rightarrow> query list \<Rightarrow> (http_error + 'j list list) option" where
  "forward_batch C cl world unordered qs =
     run_batch (hcl_concurrency cl) qs (\<lambda>i q. case world i of (a, n) \<Rightarrow> fst (geo_forward C (hcl_transport cl) q a n)) unordered"

definition reverse_batch :: "'j crates \<Rightarrow> http_client \<Rightarrow> (nat \<Rightarrow> token_source auth_kind \<times> 'j net) \<Rightarrow>
    'j option buffering \<Rightarrow> query list \<Rightarrow> (http_error + 'j option list) option" where
  "reverse_batch C cl world unordered qs =
     run_batch (hcl_concurrency cl) qs (\<lambda>i q. case world i of (a, n) \<Rightarrow> fst (geo_reverse C (hcl_transport cl) q a n)) unordered"

definition lookup_batch :: "'j crates \<Rightarrow> http_client \<Rightarrow> (nat \<Rightarrow> token_source auth_kind \<times> 'j net) \<Rightarrow>
    'j list buffering \<Rightarrow> query list \<Rightarrow> (http_error + 'j list list) option" where
  "lookup_batch C cl world unordered qs =
     run_batch (hcl_concurrency cl) qs (\<lambda>i q. case world i of (a, n) \<Rightarrow> fst (geo_lookup C (hcl_transport cl) q a n)) unordered"

section \<open>Address search and routing (address.rs, routing.rs)\<close>

definition address_search :: "'j crates \<Rightarrow> transport \<Rightarrow> query \<Rightarrow> ('j, 'j) http_call" where
  "address_search C t q = decoded (json_or (js_parse C))
     (do_request C t \<lparr>ro_method = ''GET'', ro_path = ''/v2/address/search'', ro_query = filter (\<lambda>(k, v). v \<noteq> []) q,
        ro_body = None, ro_on_client_error = ThrowError, ro_empty = None\<rparr>)"

definition route_post :: "'j crates \<Rightarrow> transport \<Rightarrow> string \<Rightarrow> 'j \<Rightarrow> ('j, 'j) http_call" where
  "route_post C t path body = decoded (\<lambda>raw. if raw = [] then Inr (js_null C) else json_or (js_parse C) raw)
     (do_request C t \<lparr>ro_method = ''POST'', ro_path = path, ro_query = [], ro_body = Some body,
        ro_on_client_error = ThrowError, ro_empty = None\<rparr>)"

definition route_call :: "'j crates \<Rightarrow> transport \<Rightarrow> 'j \<Rightarrow> ('j, 'j) http_call" where
  "route_call C t body = route_post C t ''/v2/route'' body"
definition route_optimized :: "'j crates \<Rightarrow> transport \<Rightarrow> 'j \<Rightarrow> ('j, 'j) http_call" where
  "route_optimized C t body = route_post C t ''/v2/route/optimized'' body"
definition route_matrix :: "'j crates \<Rightarrow> transport \<Rightarrow> 'j \<Rightarrow> ('j, 'j) http_call" where
  "route_matrix C t body = route_post C t ''/v2/route/matrix'' body"
definition route_locate :: "'j crates \<Rightarrow> transport \<Rightarrow> 'j \<Rightarrow> ('j, 'j) http_call" where
  "route_locate C t body = route_post C t ''/v2/route/locate'' body"
definition route_elevation :: "'j crates \<Rightarrow> transport \<Rightarrow> 'j \<Rightarrow> ('j, 'j) http_call" where
  "route_elevation C t body = route_post C t ''/v2/route/elevation'' body"

section \<open>Devices (devices.rs)\<close>

record 'j device_row =
  dev_id :: i64
  dev_uid :: string
  dev_name :: string
  dev_status :: string
  dev_description :: "string option"
  dev_tracks_count :: i64
  dev_type :: string
  dev_secret :: string
  dev_metadata :: "string option"
  dev_created_at :: string
  dev_updated_at :: string
  dev_last_location :: "'j option"

record device_input =
  din_name :: string
  din_type :: string
  din_description :: "string option"
  din_metadata :: "string option"

record 'j device_list_result =
  dlr_data :: "'j device_row list"
  dlr_total :: i64

record device_list_query =
  dlq_skip :: "i64 option"
  dlq_take :: "i64 option"
  dlq_search :: "string option"
  dlq_idle :: bool

record device_command_result =
  dcr_delivered :: u64

record 'j device_json =
  dj_row :: "u8 list \<Rightarrow> string + 'j device_row"
  dj_list :: "u8 list \<Rightarrow> string + 'j device_list_result"
  dj_result :: "u8 list \<Rightarrow> string + device_command_result"
  dj_input :: "device_input \<Rightarrow> string + 'j"

definition positive_pair :: "string \<Rightarrow> i64 option \<Rightarrow> (string \<times> string) list" where
  "positive_pair k v = (case v of None \<Rightarrow> [] | Some x \<Rightarrow> if 0 < sint x then [(k, show_nat (nat (sint x)))] else [])"

definition device_query :: "device_list_query \<Rightarrow> (string \<times> string) list" where
  "device_query q =
     positive_pair ''skip'' (dlq_skip q) @ positive_pair ''take'' (dlq_take q) @
     (if given (dlq_search q) then [(''search'', the (dlq_search q))] else []) @
     (if dlq_idle q then [(''idle'', ''1'')] else [])"

definition device_opts :: "string \<Rightarrow> string \<Rightarrow> (string \<times> string) list \<Rightarrow> 'j option \<Rightarrow> 'j request_opts" where
  "device_opts method path q body = \<lparr>ro_method = method, ro_path = path, ro_query = q, ro_body = body,
     ro_on_client_error = ThrowError, ro_empty = None\<rparr>"

definition device_path :: "'j crates \<Rightarrow> string \<Rightarrow> string" where
  "device_path C uid = ''/v2/devices/'' @ path_encode C uid"

definition devices_list :: "'j crates \<Rightarrow> 'j device_json \<Rightarrow> transport \<Rightarrow> device_list_query \<Rightarrow> ('j device_list_result, 'j) http_call" where
  "devices_list C D t q = decoded (json_or (dj_list D)) (do_request C t (device_opts ''GET'' ''/v2/devices'' (device_query q) None))"

definition devices_get :: "'j crates \<Rightarrow> 'j device_json \<Rightarrow> transport \<Rightarrow> string \<Rightarrow> ('j device_row, 'j) http_call" where
  "devices_get C D t uid = decoded (json_or (dj_row D)) (do_request C t (device_opts ''GET'' (device_path C uid) [] None))"

text \<open>A body that cannot be written as JSON is an error before anything is sent.\<close>

definition with_body :: "string + 'j \<Rightarrow> ('j \<Rightarrow> ('a, 'j) http_call) \<Rightarrow> ('a, 'j) http_call" where
  "with_body body call a n = (case body of Inl e \<Rightarrow> (Inl (JsonFailed e), a, n) | Inr b \<Rightarrow> call b a n)"

definition devices_create :: "'j crates \<Rightarrow> 'j device_json \<Rightarrow> transport \<Rightarrow> device_input \<Rightarrow> ('j device_row, 'j) http_call" where
  "devices_create C D t input = with_body (dj_input D input) (\<lambda>body.
     decoded (json_or (dj_row D)) (do_request C t (device_opts ''POST'' ''/v2/devices'' [] (Some body))))"

definition devices_update ::
    "'j crates \<Rightarrow> 'j device_json \<Rightarrow> transport \<Rightarrow> string \<Rightarrow> device_input \<Rightarrow> ('j device_row, 'j) http_call" where
  "devices_update C D t uid input = with_body (dj_input D input) (\<lambda>body.
     decoded (json_or (dj_row D)) (do_request C t (device_opts ''PATCH'' (device_path C uid) [] (Some body))))"

definition devices_delete :: "'j crates \<Rightarrow> transport \<Rightarrow> string \<Rightarrow> (unit, 'j) http_call" where
  "devices_delete C t uid = decoded (\<lambda>raw. Inr ()) (do_request C t (device_opts ''DELETE'' (device_path C uid) [] None))"

definition devices_command ::
    "'j crates \<Rightarrow> 'j device_json \<Rightarrow> transport \<Rightarrow> string \<Rightarrow> u8 list \<Rightarrow> (device_command_result, 'j) http_call" where
  "devices_command C D t uid payload = decoded (json_or (dj_result D))
     (do_request C t (device_opts ''POST'' (device_path C uid @ ''/command'') []
        (Some (js_object C [(''payload'', js_string C (base64 C payload))]))))"

section \<open>The shortcuts of the client (client.rs)\<close>

definition client_concurrency :: "http_client \<Rightarrow> nat" where
  "client_concurrency cl = hcl_concurrency cl"
definition client_retry_base :: "http_client \<Rightarrow> duration" where
  "client_retry_base cl = t_retry_base (hcl_transport cl)"
definition client_forward :: "'j crates \<Rightarrow> http_client \<Rightarrow> query \<Rightarrow> ('j list, 'j) http_call" where
  "client_forward C cl q = geo_forward C (hcl_transport cl) q"
definition client_reverse :: "'j crates \<Rightarrow> http_client \<Rightarrow> query \<Rightarrow> ('j option, 'j) http_call" where
  "client_reverse C cl q = geo_reverse C (hcl_transport cl) q"
definition client_lookup :: "'j crates \<Rightarrow> http_client \<Rightarrow> query \<Rightarrow> ('j list, 'j) http_call" where
  "client_lookup C cl q = geo_lookup C (hcl_transport cl) q"
definition client_search :: "'j crates \<Rightarrow> http_client \<Rightarrow> query \<Rightarrow> ('j, 'j) http_call" where
  "client_search C cl q = address_search C (hcl_transport cl) q"
definition client_route :: "'j crates \<Rightarrow> http_client \<Rightarrow> 'j \<Rightarrow> ('j, 'j) http_call" where
  "client_route C cl body = route_call C (hcl_transport cl) body"
definition client_optimized_route :: "'j crates \<Rightarrow> http_client \<Rightarrow> 'j \<Rightarrow> ('j, 'j) http_call" where
  "client_optimized_route C cl body = route_optimized C (hcl_transport cl) body"
definition client_matrix :: "'j crates \<Rightarrow> http_client \<Rightarrow> 'j \<Rightarrow> ('j, 'j) http_call" where
  "client_matrix C cl body = route_matrix C (hcl_transport cl) body"
definition client_locate :: "'j crates \<Rightarrow> http_client \<Rightarrow> 'j \<Rightarrow> ('j, 'j) http_call" where
  "client_locate C cl body = route_locate C (hcl_transport cl) body"
definition client_elevation :: "'j crates \<Rightarrow> http_client \<Rightarrow> 'j \<Rightarrow> ('j, 'j) http_call" where
  "client_elevation C cl body = route_elevation C (hcl_transport cl) body"
definition list_devices :: "'j crates \<Rightarrow> 'j device_json \<Rightarrow> http_client \<Rightarrow> device_list_query \<Rightarrow> ('j device_list_result, 'j) http_call" where
  "list_devices C D cl q = devices_list C D (hcl_transport cl) q"
definition get_device :: "'j crates \<Rightarrow> 'j device_json \<Rightarrow> http_client \<Rightarrow> string \<Rightarrow> ('j device_row, 'j) http_call" where
  "get_device C D cl uid = devices_get C D (hcl_transport cl) uid"
definition create_device :: "'j crates \<Rightarrow> 'j device_json \<Rightarrow> http_client \<Rightarrow> device_input \<Rightarrow> ('j device_row, 'j) http_call" where
  "create_device C D cl input = devices_create C D (hcl_transport cl) input"
definition update_device ::
    "'j crates \<Rightarrow> 'j device_json \<Rightarrow> http_client \<Rightarrow> string \<Rightarrow> device_input \<Rightarrow> ('j device_row, 'j) http_call" where
  "update_device C D cl uid input = devices_update C D (hcl_transport cl) uid input"
definition delete_device :: "'j crates \<Rightarrow> http_client \<Rightarrow> string \<Rightarrow> (unit, 'j) http_call" where
  "delete_device C cl uid = devices_delete C (hcl_transport cl) uid"
definition device_command_call ::
    "'j crates \<Rightarrow> 'j device_json \<Rightarrow> http_client \<Rightarrow> string \<Rightarrow> u8 list \<Rightarrow> (device_command_result, 'j) http_call" where
  "device_command_call C D cl uid payload = devices_command C D (hcl_transport cl) uid payload"

section \<open>Minting client tokens (mint.rs)\<close>

record token_pair =
  tp_access_token :: string
  tp_refresh_token :: string
  tp_expires_at :: i64
  tp_expires_in :: i64
  tp_scopes :: "string list"

definition mint_request :: "'j crates \<Rightarrow> string \<Rightarrow> string \<Rightarrow> string list \<Rightarrow> i64 option \<Rightarrow> 'j http_request" where
  "mint_request C base key scopes ttl_sec =
     \<lparr>rq_method = ''POST'', rq_url = base @ ''/v2/client-tokens'',
      rq_headers = [(''Accept'', ''application/json''), (''Content-Type'', ''application/json''), (''x-api-key'', key)],
      rq_body = Some (js_object C ([(''scopes'', js_list C (map (js_string C) scopes))] @
        (case ttl_sec of None \<Rightarrow> [] | Some t \<Rightarrow> if 0 < sint t then [(''ttlSec'', js_int C (sint t))] else [])))\<rparr>"

definition mint_client_tokens ::
    "'j crates \<Rightarrow> (u8 list \<Rightarrow> string + token_pair) \<Rightarrow> (duration \<Rightarrow> string + 'h) \<Rightarrow> 'h http_config \<Rightarrow> string list \<Rightarrow>
     i64 option \<Rightarrow> 'j net \<Rightarrow> (http_error + token_pair) \<times> 'j net" where
  "mint_client_tokens C parse build c scopes ttl_sec n =
     (if \<not> given (hc_api_key c) then (Inl (invalid_config ''mint_client_tokens requires api_key''), n)
      else let base = trim_slash (or_else DEFAULT_BASE_URL (hc_base_url c)) in
        case build_http build (hc_http_client c) (or_else DEFAULT_TIMEOUT (hc_timeout c)) of
          Inl e \<Rightarrow> (Inl e, n)
        | Inr _ \<Rightarrow>
            let key = the (hc_api_key c) in
            case (if header_ok C key then http_send (mint_request C base key scopes ttl_sec) n
                  else (Inl (bad_header_text C), n)) of
              (Inl e, n) \<Rightarrow> (Inl (api_failure 0 ''NETWORK'' (''mint client tokens network error: '' @ e) []), n)
            | (Inr rep, n) \<Rightarrow>
                let status = rep_status rep in
                (if \<not> (200 \<le> status \<and> status < 300) then
                   Inl (api_failure status ''CLIENT_ERROR''
                     (''mint client tokens failed ('' @ show_nat (unat status) @ '')'') (rep_body rep))
                 else json_or parse (rep_body rep), n))"

end
