(* ===== verification/Http_Correct.thy ===== *)
theory Http_Correct
  imports Http_Transport
begin

text \<open>
  What one HTTP request does (\<^verbatim>\<open>src/transport.rs\<close>), proved for every token session
  in the context of the locale \<open>token_session\<close> and carried over to the sessions of the code:
  how many requests and pauses there are, and what the outcome says of the last reply.
\<close>

section \<open>The end of a request\<close>

text \<open>What the request returns when it ends with the given answer.\<close>

definition ends_with :: "'j crates \<Rightarrow> 'j request_opts \<Rightarrow> string + http_reply \<Rightarrow> http_error + u8 list" where
  "ends_with C o' ans = (case ans of
       Inl e \<Rightarrow> Inl (api_failure 0 ''NETWORK'' (''network error: '' @ e) [])
     | Inr rep \<Rightarrow> (case classify C o' rep of
           Finished r \<Rightarrow> r
         | Unauthorised \<Rightarrow> Inl (api_failure 401 ''API_AUTH'' ''auth failed (401)'' (rep_body rep))
         | ServerTrouble \<Rightarrow>
             Inl (api_failure (rep_status rep) ''SERVER_ERROR'' ''server error after retries'' (rep_body rep))))"

text \<open>The answers after which the loop tries again as long as it may.\<close>

fun transient :: "string + http_reply \<Rightarrow> bool" where
  "transient (Inl e) = True"
| "transient (Inr rep) = (500 \<le> rep_status rep \<and> rep_status rep \<le> 599)"

text \<open>The answers after which the request is made again.\<close>

fun retried :: "string + http_reply \<Rightarrow> bool" where
  "retried (Inl e) = True"
| "retried (Inr rep) = (rep_status rep = 401 \<or> 500 \<le> rep_status rep \<and> rep_status rep \<le> 599)"

text \<open>Of the requests from the k-th on, all that are not the session's own were answered so.\<close>

fun tried :: "('j http_request \<Rightarrow> bool) \<Rightarrow> (nat \<Rightarrow> string + http_reply) \<Rightarrow> nat \<Rightarrow> 'j http_request list \<Rightarrow> bool" where
  "tried own ans k [] = True"
| "tried own ans k (q # qs) = ((own q \<or> retried (ans k)) \<and> tried own ans (Suc k) qs)"

lemma tried_append: "tried own ans k (xs @ ys) \<longleftrightarrow> tried own ans k xs \<and> tried own ans (k + length xs) ys"
  by (induction xs arbitrary: k) auto

lemma tried_own: "list_all own xs \<Longrightarrow> tried own ans k xs"
  by (induction xs arbitrary: k) auto

lemma classify_trouble: "classify C o' rep = ServerTrouble \<longleftrightarrow> transient (Inr rep)"
  by (auto simp: classify_def Let_def word_le_nat_alt word_less_nat_alt)

lemma classify_401: "classify C o' rep = Unauthorised \<Longrightarrow> rep_status rep = 401"
  by (auto simp: classify_def Let_def split: if_splits)

lemma same_world_refl [simp]: "same_world n n"
  by (simp add: same_world_def)

lemma same_world_trans: "same_world a b \<Longrightarrow> same_world b c \<Longrightarrow> same_world a c"
  by (simp add: same_world_def)

lemma sleep_world [simp]:
  "same_world n (sleep_backoff base att n)" "net_log (sleep_backoff base att n) = net_log n"
  "length (net_slept (sleep_backoff base att n)) = Suc (length (net_slept n))"
  by (simp_all add: sleep_backoff_def same_world_def Let_def)

lemma send_world:
  "http_send q n = (res, n') \<Longrightarrow> same_world n n' \<and> net_log n' = net_log n @ [q] \<and> net_slept n' = net_slept n \<and>
     res = net_answer n (length (net_log n))"
  by (auto simp: http_send_def same_world_def)

text \<open>
  What a run from \<open>n\<close> to \<open>n'\<close> satisfies: \<open>k\<close> bounds the requests that are not the session's own,
  \<open>p\<close> the pauses. It ends because the credentials are refused, or with the answer to the last
  request that is not the session's own, all such requests before it having been answered by
  something to try again after; and with a transient answer only when all pauses are used up.
\<close>

definition last_answer ::
    "'j crates \<Rightarrow> transport \<Rightarrow> 'j request_opts \<Rightarrow> ('j http_request \<Rightarrow> bool) \<Rightarrow> 'j net \<Rightarrow> 'j net \<Rightarrow> string + http_reply \<Rightarrow> bool" where
  "last_answer C t o' own n n' ans \<longleftrightarrow>
     (\<exists>pre h post. net_log n' = net_log n @ pre @ api_request C t o' h # post \<and>
        tried own (net_answer n) (length (net_log n)) pre \<and> list_all own post \<and>
        ans = net_answer n (length (net_log n) + length pre))"

definition run_ends ::
    "'j crates \<Rightarrow> transport \<Rightarrow> 'j request_opts \<Rightarrow> ('j http_request \<Rightarrow> bool) \<Rightarrow> (http_error \<Rightarrow> bool) \<Rightarrow> nat \<Rightarrow> nat \<Rightarrow>
     'j net \<Rightarrow> http_error + u8 list \<Rightarrow> 'j net \<Rightarrow> bool" where
  "run_ends C t o' own refuse k p n r n' \<longleftrightarrow>
     same_world n n' \<and>
     (\<exists>rs. net_log n' = net_log n @ rs \<and> length (filter (\<lambda>q. \<not> own q) rs) \<le> k) \<and>
     (\<exists>ds. net_slept n' = net_slept n @ ds \<and> length ds \<le> p) \<and>
     ((\<exists>e. r = Inl e \<and> refuse e) \<or>
      (\<exists>ans. last_answer C t o' own n n' ans \<and> r = ends_with C o' ans \<and>
         (transient ans \<longrightarrow> length (net_slept n') = length (net_slept n) + p)))"

lemma run_ends_refused:
  "same_world n n' \<Longrightarrow> net_log n' = net_log n @ rs \<Longrightarrow> list_all own rs \<Longrightarrow> net_slept n' = net_slept n \<Longrightarrow>
   refuse e \<Longrightarrow> run_ends C t o' own refuse k p n (Inl e) n'"
  by (auto simp: run_ends_def list_all_iff filter_empty_conv)

text \<open>The last turn: some own requests, the request, some own requests.\<close>

lemma own_only: "list_all own rs \<Longrightarrow> filter (\<lambda>q. \<not> own q) rs = []"
  by (simp add: list_all_iff)

lemma run_ends_last:
  assumes "same_world n n'" and "net_log n' = net_log n @ rs1 @ api_request C t o' h # rs2"
    and "list_all own rs1" "list_all own rs2"
    and "net_slept n' = net_slept n" and "1 \<le> k"
    and "r = ends_with C o' (net_answer n (length (net_log n) + length rs1))"
    and "transient (net_answer n (length (net_log n) + length rs1)) \<Longrightarrow> p = 0"
  shows "run_ends C t o' own refuse k p n r n'"
proof -
  have "length (filter (\<lambda>q. \<not> own q) (rs1 @ api_request C t o' h # rs2)) \<le> k"
    using assms(3,4,6) by (simp add: own_only)
  then have "\<exists>rs. net_log n' = net_log n @ rs \<and> length (filter (\<lambda>q. \<not> own q) rs) \<le> k" using assms(2) by blast
  moreover have "last_answer C t o' own n n' (net_answer n (length (net_log n) + length rs1))"
    unfolding last_answer_def using assms(2-4) tried_own by blast
  ultimately show ?thesis
    unfolding run_ends_def using assms(1,5,7,8) by auto
qed

text \<open>A turn before another run.\<close>

lemma run_ends_turn:
  assumes "same_world n m" and log_m: "net_log m = net_log n @ rs1 @ q # rs2" and "list_all own rs1" "list_all own rs2"
    and "net_slept m = net_slept n @ ds" and run: "run_ends C t o' own refuse k p m r n'"
    and "Suc k \<le> k'" and "p' = p + length ds" and again: "retried (net_answer n (length (net_log n) + length rs1))"
  shows "run_ends C t o' own refuse k' p' n r n'"
proof -
  obtain rs es where rs: "net_log n' = net_log m @ rs" "length (filter (\<lambda>q. \<not> own q) rs) \<le> k"
    and es: "net_slept n' = net_slept m @ es" "length es \<le> p"
    using run by (auto simp: run_ends_def)
  have "length (filter (\<lambda>q. \<not> own q) (rs1 @ q # rs2 @ rs)) \<le> k'"
    using assms(3,4,7) rs(2) by (simp add: own_only)
  then have log: "\<exists>rs. net_log n' = net_log n @ rs \<and> length (filter (\<lambda>q. \<not> own q) rs) \<le> k'"
    using log_m rs(1) by (intro exI [of _ "rs1 @ q # rs2 @ rs"]) simp
  have slept: "\<exists>ds. net_slept n' = net_slept n @ ds \<and> length ds \<le> p'"
    using assms(5,8) es by simp
  have world: "same_world n n'" "net_answer m = net_answer n"
    using assms(1) run by (auto simp: run_ends_def same_world_def)
  have turn: "tried own (net_answer n) (length (net_log n)) (rs1 @ q # rs2)"
    using again assms(3,4) by (simp add: tried_append tried_own)
  have "last_answer C t o' own n n' ans" if later: "last_answer C t o' own m n' ans" for ans
  proof -
    obtain pre h post where "net_log n' = net_log m @ pre @ api_request C t o' h # post"
      "tried own (net_answer m) (length (net_log m)) pre" "list_all own post"
      "ans = net_answer m (length (net_log m) + length pre)"
      using later unfolding last_answer_def by blast
    with turn log_m world(2) show ?thesis
      unfolding last_answer_def
      by (intro exI [of _ "(rs1 @ q # rs2) @ pre"] exI [of _ h] exI [of _ post])
        (simp add: tried_append [of _ _ _ "rs1 @ q # rs2", simplified] tried_append add.assoc)
  qed
  moreover have "length (net_slept n') = length (net_slept m) + p \<Longrightarrow> length (net_slept n') = length (net_slept n) + p'"
    using assms(5,8) by simp
  ultimately have "(\<exists>e. r = Inl e \<and> refuse e) \<or>
      (\<exists>ans. last_answer C t o' own n n' ans \<and> r = ends_with C o' ans \<and>
         (transient ans \<longrightarrow> length (net_slept n') = length (net_slept n) + p'))"
    using run unfolding run_ends_def by blast
  with world log slept show ?thesis
    unfolding run_ends_def by blast
qed

text \<open>The key of the client, which no call changes.\<close>

definition key_of :: "'b auth_kind \<Rightarrow> string option" where
  "key_of a = (case a of KeyAuth k \<Rightarrow> Some k | BearerAuth b \<Rightarrow> None)"

context token_session
begin

lemma apply_world:
  "apply_auth C token a n = (r, a', n') \<Longrightarrow>
   same_world n n' \<and>
   (\<exists>rs. net_log n' = net_log n @ rs \<and> list_all own rs \<and> net_slept n' = net_slept n) \<and> key_of a' = key_of a"
  by (cases a) (auto simp: key_of_def apply_auth_def Let_def split: prod.splits dest!: token_log)

lemma refresh_same_world:
  "auth_refresh refresh a n = (ok, a', n') \<Longrightarrow>
   same_world n n' \<and> (\<exists>rs. net_log n' = net_log n @ rs \<and> list_all own rs \<and> net_slept n' = net_slept n) \<and>
   key_of a' = key_of a"
  by (cases a) (auto simp: key_of_def split: prod.splits dest!: refresh_log)

text \<open>\<open>refused\<close>: the call ended where the credentials could not be put on a request.\<close>

definition refused :: "'j crates \<Rightarrow> string option \<Rightarrow> 'b auth_kind \<Rightarrow> 'j net \<Rightarrow> http_error \<Rightarrow> bool" where
  "refused C key a' n' e \<longleftrightarrow> (\<exists>a n. key_of a = key \<and> apply_auth C token a n = (Inl e, a', n'))"

lemma loop_ends:
  "request_loop C token refresh t o' att b a n = (r, a', n') \<Longrightarrow>
   run_ends C t o' own (refused C (key_of a) a' n') (unat (t_max_retries t) - unat att + (if b then 1 else 2))
     (unat (t_max_retries t) - unat att) n r n'"
proof (induction "turn_measure (t_max_retries t) att b" arbitrary: att b a n rule: less_induct)
  case less
  note loop = less.prems [unfolded request_loop.simps [of C token refresh t o' att b a n]]
  let ?M = "t_max_retries t"
  let ?k = "\<lambda>att b. unat ?M - unat att + (if b then 1 else 2) :: nat"
  obtain h a1 n1 where ap: "apply_auth C token a n = (h, a1, n1)" by (metis prod_cases3)
  obtain rs1 where n1: "same_world n n1" "net_log n1 = net_log n @ rs1" "list_all own rs1" "net_slept n1 = net_slept n"
    and key: "key_of a1 = key_of a"
    using apply_world [OF ap] by blast
  show ?case
  proof (cases h)
    case (Inl e)
    with loop ap have "r = Inl e" "n' = n1" "a' = a1" by simp_all
    moreover from this have "refused C (key_of a) a' n' e" using ap Inl by (auto simp: refused_def)
    ultimately show ?thesis using n1 by (simp add: run_ends_refused)
  next
    case (Inr headers)
    let ?q = "api_request C t o' headers"
    obtain res n2 where send: "http_send ?q n1 = (res, n2)" by fastforce
    have n2: "same_world n n2" "net_log n2 = net_log n @ rs1 @ [?q]" "net_slept n2 = net_slept n"
      and res: "res = net_answer n (length (net_log n) + length rs1)"
      using send_world [OF send] n1 by (auto simp: same_world_def)
    have retry: ?thesis if "\<not> ?M \<le> att" and again: "retried res"
      and run: "request_loop C token refresh t o' (att + 1) b a1 (sleep_backoff (t_retry_base t) att n2) = (r, a', n')"
    proof -
      have lt: "unat att < unat ?M" using that(1) by (simp add: word_le_nat_alt)
      then have u: "unat (att + 1) = Suc (unat att)"
        using unsigned_less [of ?M, where 'a = nat] by (simp add: unat_word_ariths)
      obtain d where d: "net_slept (sleep_backoff (t_retry_base t) att n2) = net_slept n @ [d]"
        using n2(3) by (simp add: sleep_backoff_def Let_def)
      have "same_world n (sleep_backoff (t_retry_base t) att n2)" using n2(1) same_world_trans sleep_world(1) by blast
      moreover have "net_log (sleep_backoff (t_retry_base t) att n2) = net_log n @ rs1 @ ?q # []" using n2(2) by simp
      moreover have "list_all own []" by simp
      ultimately show ?thesis
        by (rule run_ends_turn [OF _ _ n1(3) _ d less.hyps [OF turn_measure_less(1) [OF that(1)] run, unfolded key]])
          (use lt u again res in auto)
    qed
    have stop: ?thesis if "r = ends_with C o' res" "n' = n2" "transient res \<Longrightarrow> ?M \<le> att"
      by (rule run_ends_last [of n n' rs1 C t o' headers "[]" own])
        (use that n1 n2 res in \<open>auto simp: word_le_nat_alt\<close>)
    show ?thesis
    proof (cases res)
      case (Inl e)
      with loop ap send \<open>h = Inr headers\<close> retry stop show ?thesis
        by (auto simp: ends_with_def split: if_splits)
    next
      case (Inr rep)
      note loop = loop [unfolded ap prod.case \<open>h = Inr headers\<close> sum.case send Inr]
      show ?thesis
      proof (cases "classify C o' rep")
        case (Finished r')
        moreover have "\<not> transient res" using Finished Inr classify_trouble [of C o' rep] by auto
        ultimately show ?thesis using loop Inr by (intro stop) (auto simp: ends_with_def)
      next
        case ServerTrouble
        then have "retried res" using Inr classify_trouble [of C o' rep] by auto
        with ServerTrouble loop Inr retry stop show ?thesis by (auto simp: ends_with_def split: if_splits)
      next
        case Unauthorised
        then have perm: "\<not> transient res" using Inr classify_trouble [of C o' rep] by auto
        have again: "retried res" using Unauthorised Inr classify_401 [of C o' rep] by auto
        show ?thesis
        proof (cases "\<not> b \<and> is_bearer a1")
          case True
          obtain ok a3 n3 where rf: "auth_refresh refresh a1 n2 = (ok, a3, n3)" by (metis prod_cases3)
          obtain rs2 where n3: "same_world n n3" "net_log n3 = net_log n @ rs1 @ ?q # rs2" "list_all own rs2"
              "net_slept n3 = net_slept n @ []" "key_of a3 = key_of a"
            using refresh_same_world [OF rf] n2 key same_world_trans by fastforce
          show ?thesis
          proof (cases ok)
            case True
            with loop Unauthorised rf \<open>\<not> b \<and> is_bearer a1\<close>
            have run: "request_loop C token refresh t o' att True a3 n3 = (r, a', n')" by simp
            have "\<not> b" using \<open>\<not> b \<and> is_bearer a1\<close> by blast
            show ?thesis
              by (rule run_ends_turn [OF n3(1,2) n1(3) n3(3,4) less.hyps [OF turn_measure_less(2) [OF \<open>\<not> b\<close>] run, unfolded n3(5)]])
                (use \<open>\<not> b\<close> again res in auto)
          next
            case False
            with loop Unauthorised rf \<open>\<not> b \<and> is_bearer a1\<close> Inr have "r = ends_with C o' res" "n' = n3"
              by (auto simp: ends_with_def)
            then show ?thesis
              by (intro run_ends_last [of n n' rs1 C t o' headers rs2 own]) (use n1 n3 res perm in auto)
          qed
        next
          case False
          with loop Unauthorised Inr perm show ?thesis by (intro stop) (auto simp: ends_with_def)
        qed
      qed
    qed
  qed
qed

end

section \<open>The sessions of the code\<close>

text \<open>Why credentials cannot be put on a request: a bad key or token, or a failed refresh.\<close>

fun credential_failure :: "http_error \<Rightarrow> bool" where
  "credential_failure (ApiFailed e) =
     (api_code e = ''INVALID_CONFIG'' \<or> api_code e = ''INVALID_TOKEN'' \<or> api_code e = ''REFRESH_FAILED'')"
| "credential_failure _ = False"

lemma lead_failure: "lead_refresh C base tok i n = (Inl e, i', n') \<Longrightarrow> credential_failure e"
  by (auto simp: lead_refresh_def do_refresh_def check_refresh_def api_failure_def
      api_error_new_def Let_def split: if_splits sum.splits prod.splits)

lemma refresh_failure: "client_refresh C base i n = (Inl e, i', n') \<Longrightarrow> credential_failure e"
  by (auto simp: client_refresh_def split: prod.splits option.splits wait_end.splits dest: lead_failure)

lemma token_failure: "session_token C base b n = (Inl e, b', n') \<Longrightarrow> credential_failure e"
  by (cases b) (auto simp: client_token_def Let_def dest: refresh_failure split: if_splits sum.splits prod.splits)

lemma apply_failure:
  assumes "apply_auth C' (session_token C base) a n = (Inl e, a', n')"
  shows "credential_failure e"
proof (cases a)
  case (BearerAuth b)
  obtain r b1 n1 where t: "session_token C base b n = (r, b1, n1)" by (metis prod_cases3)
  with assms BearerAuth token_failure [of C base b n] show ?thesis
    by (cases r) (auto simp: apply_auth_def api_failure_def api_error_new_def Let_def split: if_splits)
qed (use assms in \<open>auto simp: apply_auth_def invalid_config_def api_error_new_def split: if_splits\<close>)

text \<open>Where a call ends without an answer: its key is no header text, or the session gave no usable token.\<close>

definition no_credentials :: "'j crates \<Rightarrow> string \<Rightarrow> token_source auth_kind \<Rightarrow> token_source auth_kind \<Rightarrow> 'j net \<Rightarrow> http_error \<Rightarrow> bool" where
  "no_credentials C base a a' n' e = (case a of
       KeyAuth k \<Rightarrow> \<not> header_ok C k \<and> is_config_failure e
     | BearerAuth b \<Rightarrow> credential_failure e \<and> (\<exists>b1 n1 b' tok. a' = BearerAuth b' \<and>
         (session_token C base b1 n1 = (Inl e, b', n') \<or>
          session_token C base b1 n1 = (Inr tok, b', n') \<and> \<not> header_ok C (''Bearer '' @ tok))))"

lemma key_of_iff: "key_of a = Some k \<longleftrightarrow> a = KeyAuth k" "key_of a = None \<longleftrightarrow> (\<exists>b. a = BearerAuth b)"
  by (cases a; simp add: key_of_def)+

lemma refused_by:
  assumes "source.refused C base C (key_of a) a' n' e"
  shows "no_credentials C base a a' n' e"
proof -
  obtain a1 n1 where key: "key_of a1 = key_of a"
    and ap: "apply_auth C (session_token C base) a1 n1 = (Inl e, a', n')"
    using assms unfolding source.refused_def by blast
  show ?thesis
  proof (cases a)
    case (KeyAuth k)
    then have "a1 = KeyAuth k" using key key_of_iff(1) [of a k] key_of_iff(1) [of a1 k] by simp
    with ap KeyAuth show ?thesis
      by (auto simp: no_credentials_def apply_auth_def invalid_config_def api_error_new_def api_is_invalid_config_def
          split: if_splits)
  next
    case (BearerAuth b)
    then obtain b1 where a1: "a1 = BearerAuth b1" using key key_of_iff(2) [of a1] by (auto simp: key_of_def)
    obtain r b' n2 where t: "session_token C base b1 n1 = (r, b', n2)" by (metis prod_cases3)
    with ap a1 have "a' = BearerAuth b'" "n' = n2"
      "r = Inl e \<or> (\<exists>tok. r = Inr tok \<and> \<not> header_ok C (''Bearer '' @ tok))"
      by (cases r; auto simp: apply_auth_def Let_def split: if_splits)+
    then show ?thesis
      using apply_failure [OF ap] t BearerAuth by (auto simp: no_credentials_def)
  qed
qed

text \<open>C7: One call of \<^verbatim>\<open>do_request\<close> sends at most two more requests to the API than the
  configured number of retries (the first one, the retries, and the one after a refresh), and
  pauses at most once per retry, whatever the network answers; and it always returns.\<close>

theorem requests_bounded:
  "case do_request C t o' a n of (r, a', n') \<Rightarrow>
     \<exists>rs ds. net_log n' = net_log n @ rs \<and> net_slept n' = net_slept n @ ds \<and>
       length (filter (\<lambda>q. rq_url q \<noteq> t_base_url t @ ''/v2/client-tokens/refresh'') rs) \<le> unat (t_max_retries t) + 2 \<and>
       length ds \<le> unat (t_max_retries t)"
proof -
  obtain r a' n' where d: "do_request C t o' a n = (r, a', n')" by (metis prod_cases3)
  from source.loop_ends [OF d [unfolded do_request_def]] show ?thesis
    by (auto simp: d run_ends_def)
qed

text \<open>
  What an answer with each status means for the caller. The message of an error is the one the
  body carries, under \<^verbatim>\<open>message\<close> or else \<^verbatim>\<open>error\<close>, if it is not empty, and else the
  reason phrase of the status.
\<close>

fun why :: "'j crates \<Rightarrow> http_reply \<Rightarrow> string" where
  "why C rep = (case js_message C (rep_body rep) of
       Some (Some (c # m), _) \<Rightarrow> c # m
     | Some (_, Some (c # m)) \<Rightarrow> c # m
     | _ \<Rightarrow> (case reason C (rep_status rep) of Some t \<Rightarrow> t | None \<Rightarrow> ''unknown''))"

definition fails_with :: "http_error + u8 list \<Rightarrow> http_reply \<Rightarrow> string \<Rightarrow> string \<Rightarrow> bool" where
  "fails_with r rep code message \<longleftrightarrow>
     r = Inl (ApiFailed \<lparr>api_status = rep_status rep, api_code = code, api_message = message, api_body = rep_body rep\<rparr>)"

definition status_says :: "'j crates \<Rightarrow> 'j request_opts \<Rightarrow> string + http_reply \<Rightarrow> http_error + u8 list \<Rightarrow> bool" where
  "status_says C o' ans r = (case ans of
       Inl e \<Rightarrow> r = Inl (ApiFailed \<lparr>api_status = 0, api_code = ''NETWORK'', api_message = ''network error: '' @ e, api_body = []\<rparr>)
     | Inr rep \<Rightarrow>
         let s = unat (rep_status rep) in
         if 200 \<le> s \<and> s \<le> 299 then r = Inr (if s = 204 then [] else rep_body rep)
         else if s = 401 then fails_with r rep ''API_AUTH'' ''auth failed (401)''
         else if s = 402 \<or> s = 403 then fails_with r rep ''API_AUTH'' ''auth failed''
         else if s = 409 then fails_with r rep ''CONFLICT'' (why C rep)
         else if 400 \<le> s \<and> s \<le> 499 \<and> ro_on_client_error o' = EmptyResult then r = Inr (or_no_bytes (ro_empty o'))
         else if s = 404 then fails_with r rep ''NOT_FOUND'' (why C rep)
         else if 500 \<le> s \<and> s \<le> 599 then fails_with r rep ''SERVER_ERROR'' ''server error after retries''
         else fails_with r rep ''CLIENT_ERROR'' (why C rep))"

lemma status_eq: "(s :: u16) = numeral k \<longleftrightarrow> unat s = unat (numeral k :: u16)"
  by (metis unsigned_word_eqI)

lemma message_why: "message_from_body C (rep_body rep) (rep_status rep) = why C rep"
  by (auto simp: message_from_body_def http_status_text_def given_def split: option.split list.split prod.split)

lemma ends_with_says: "status_says C o' ans (ends_with C o' ans)"
proof (cases ans)
  case (Inr rep)
  let ?s = "unat (rep_status rep)"
  have eq: "rep_status rep = numeral k \<longleftrightarrow> ?s = unat (numeral k :: u16)" for k by (rule status_eq)
  have is_404: "?s = 404 \<Longrightarrow> rep_status rep = 404" and is_409: "?s = 409 \<Longrightarrow> rep_status rep = 409"
    by (simp_all add: status_eq)
  have m404: "?s = 404 \<Longrightarrow> message_from_body C (rep_body rep) 404 = why C rep"
    and m409: "?s = 409 \<Longrightarrow> message_from_body C (rep_body rep) 409 = why C rep"
    using message_why [of C rep] is_404 is_409 by auto
  show ?thesis
    using Inr m404 m409
    by (auto simp: status_says_def ends_with_def classify_def Let_def api_failure_def api_error_new_def fails_with_def
        message_why eq word_le_nat_alt word_less_nat_alt simp del: why.simps)
qed (simp add: status_says_def ends_with_def api_failure_def api_error_new_def)

text \<open>C8: A request ends in one of two ways. It has no credentials for a try: the key is no header text,
  or the token session failed or gave a token that is none. Or its result is that of the answer to
  its last request to the API, read by its status: 2xx is the body, 401, 402 and 403 an auth
  failure, 409 a conflict, other 4xx empty or (404) not found, as the call asks, everything else
  an error, each with the status, the body and the message the body gives; every earlier answer was
  a network failure, a 401 or a 5xx, and a server or network error is returned only when every
  retry has been made.\<close>

theorem request_outcome:
  "case do_request C t o' a n of (r, a', n') \<Rightarrow>
     (\<exists>e. r = Inl e \<and> no_credentials C (t_base_url t) a a' n' e) \<or>
     (\<exists>ans. last_answer C t o' (\<lambda>q. rq_url q = t_base_url t @ ''/v2/client-tokens/refresh'') n n' ans \<and>
        status_says C o' ans r \<and>
        (transient ans \<longrightarrow> length (net_slept n') = length (net_slept n) + unat (t_max_retries t)))"
proof -
  obtain r a' n' where d: "do_request C t o' a n = (r, a', n')" by (metis prod_cases3)
  from source.loop_ends [OF d [unfolded do_request_def]] show ?thesis
    by (auto simp: d run_ends_def ends_with_says dest: refused_by)
qed

text \<open>A server that knows nothing, and crates that take every text.\<close>

definition lost_net :: "unit net" where
  "lost_net = \<lparr>net_answer = (\<lambda>_. Inr \<lparr>rep_status = 404, rep_body = [1]\<rparr>), net_draw = (\<lambda>_. 0), net_clock = (\<lambda>_. (0, 0)),
     net_wait = FoundDone, net_log = [], net_slept = [], net_reads = 0\<rparr>"

definition plain_crates :: "unit crates" where
  "plain_crates = \<lparr>form_encode = (\<lambda>_. []), path_encode = (\<lambda>s. s), header_ok = (\<lambda>_. True), bad_header_text = [],
     reason = (\<lambda>_. Some ''Not Found''), base64 = (\<lambda>_. []), js_is_null = (\<lambda>_. True), js_null = (), js_string = (\<lambda>_. ()),
     js_int = (\<lambda>_. ()), js_list = (\<lambda>_. ()), js_object = (\<lambda>_. ()), js_parse = (\<lambda>_. Inr ()),
     js_parse_list = (\<lambda>_. Inr []), js_message = (\<lambda>_. Some (Some [], Some ''no such device'')),
     js_client_auth = (\<lambda>_. Inl [])\<rparr>"

definition plain_opts :: "unit request_opts" where
  "plain_opts = \<lparr>ro_method = ''GET'', ro_path = ''/v2/devices/x'', ro_query = [], ro_body = None,
     ro_on_client_error = ThrowError, ro_empty = None\<rparr>"

lemma request_outcome_witness:
  "fst (do_request plain_crates \<lparr>t_base_url = [], t_max_retries = 1, t_retry_base = 0\<rparr> plain_opts (KeyAuth ''k'') lost_net) =
     Inl (ApiFailed \<lparr>api_status = 404, api_code = ''NOT_FOUND'', api_message = ''no such device'', api_body = [1]\<rparr>)"
  using request_outcome [where C = plain_crates and t = "\<lparr>t_base_url = [], t_max_retries = 1, t_retry_base = 0\<rparr>"
      and o' = plain_opts and a = "KeyAuth ''k''" and n = lost_net]
  by (auto simp: no_credentials_def last_answer_def status_says_def fails_with_def Let_def lost_net_def plain_crates_def
      plain_opts_def split: prod.splits)

end
