(* ===== verification/Services_Correct.thy ===== *)
theory Services_Correct
  imports Http_Services Http_Correct
begin

text \<open>
  What the services promise: batches give results in the order of their inputs whatever
  order the calls finish in, with a bounded number in flight; settings are clamped; exactly
  one credential is accepted.
\<close>

section \<open>Batches\<close>

text \<open>Every result in the stream is the one of its input, and every input has its result stored or in the stream.\<close>

definition batch_ok :: "(nat \<Rightarrow> 'q \<Rightarrow> http_error + 'a) \<Rightarrow> 'q list \<Rightarrow> (nat \<times> (http_error + 'a)) list \<Rightarrow> 'a option list \<Rightarrow> bool" where
  "batch_ok run qs stream out \<longleftrightarrow> length out = length qs \<and>
     (\<forall>(i, r) \<in> set stream. i < length qs \<and> r = run i (qs ! i)) \<and>
     (\<forall>i < length qs. (\<exists>v. out ! i = Some v \<and> run i (qs ! i) = Inr v) \<or> i \<in> fst ` set stream)"

lemma batch_ok_done: "batch_ok run qs ((i, Inr v) # stream) out \<Longrightarrow> batch_ok run qs stream (out[i := Some v])"
  by (auto simp: batch_ok_def nth_list_update)

lemma batch_loop_ok:
  "batch_ok run qs stream out \<Longrightarrow>
   case batch_loop stream out of
     None \<Rightarrow> False
   | Some (Inr out') \<Rightarrow> batch_ok run qs [] out'
   | Some (Inl e) \<Rightarrow> \<exists>before i after. stream = before @ (i, Inl e) # after \<and> list_all (\<lambda>r. \<not> isl (snd r)) before \<and>
       i < length qs \<and> run i (qs ! i) = Inl e"
proof (induction stream out rule: batch_loop.induct)
  case (2 i v stream out)
  have i: "i < length out" using "2.prems" by (simp add: batch_ok_def)
  show ?case
  proof (cases "batch_loop stream (out[i := Some v])")
    case (Some r)
    show ?thesis
    proof (cases r)
      case (Inl e)
      then obtain before j after where "stream = before @ (j, Inl e) # after" "list_all (\<lambda>r. \<not> isl (snd r)) before"
        "j < length qs" "run j (qs ! j) = Inl e"
        using "2.IH" [OF i batch_ok_done [OF "2.prems"]] Some by auto
      with i Some Inl show ?thesis
        by (auto intro!: exI [of _ "(i, Inr v) # before"])
    qed (use "2.IH" [OF i batch_ok_done [OF "2.prems"]] Some i in simp)
  qed (use "2.IH" [OF i batch_ok_done [OF "2.prems"]] in simp)
next
  case (3 i e stream out)
  then have "i < length qs \<and> run i (qs ! i) = Inl e" by (auto simp: batch_ok_def)
  moreover have "(i, Inl e) # stream = [] @ (i, Inl e) # stream \<and> list_all (\<lambda>r. \<not> isl (snd r)) []" by simp
  ultimately show ?case unfolding batch_loop.simps option.case sum.case by blast
qed simp

lemma batch_start:
  assumes "set stream = set (batch_calls run qs)"
  shows "batch_ok run qs stream (replicate (length qs) None)"
proof -
  have "fst ` set (enumerate 0 qs) = {0..<length qs}"
    by (metis list.set_map map_fst_enumerate set_upt add_0)
  then have "fst ` set (batch_calls run qs) = {0..<length qs}"
    by (simp add: batch_calls_def image_image case_prod_beta)
  then show ?thesis
    using assms by (auto simp: batch_ok_def batch_calls_def in_set_enumerate_eq)
qed

text \<open>C21: In whatever order the calls of a batch finish, the batch never panics. It gives every input's own
  result at its place, or the error of the call that was the first to fail, every call that had
  finished before having succeeded; so it succeeds exactly when no call fails.\<close>

theorem batch_in_order:
  assumes "buffers_all unordered"
  shows "case run_batch c qs run unordered of
      None \<Rightarrow> False
    | Some (Inr vs) \<Rightarrow> list_all2 (\<lambda>iq v. run (fst iq) (snd iq) = Inr v) (enumerate 0 qs) vs
    | Some (Inl e) \<Rightarrow> \<exists>before i after. unordered (max c 1) (batch_calls run qs) = before @ (i, Inl e) # after \<and>
        list_all (\<lambda>r. \<not> isl (snd r)) before \<and> i < length qs \<and> run i (qs ! i) = Inl e"
proof (cases "qs = []")
  case False
  let ?stream = "unordered (max c 1) (batch_calls run qs)"
  have "mset ?stream = mset (batch_calls run qs)" using assms by (simp add: buffers_all_def)
  then have "batch_ok run qs ?stream (replicate (length qs) None)" by (intro batch_start) (rule mset_eq_setD)
  from batch_loop_ok [OF this] obtain r where r: "batch_loop ?stream (replicate (length qs) None) = Some r"
    and ok: "case r of Inr out' \<Rightarrow> batch_ok run qs [] out' | Inl e \<Rightarrow> \<exists>before i after. ?stream = before @ (i, Inl e) # after \<and>
      list_all (\<lambda>r. \<not> isl (snd r)) before \<and> i < length qs \<and> run i (qs ! i) = Inl e"
    by (auto split: option.splits)
  show ?thesis
  proof (cases r)
    case (Inr out)
    with ok have out: "length out = length qs" "\<forall>i < length qs. \<exists>v. out ! i = Some v \<and> run i (qs ! i) = Inr v"
      by (auto simp: batch_ok_def)
    then have "list_all (\<lambda>v. v \<noteq> None) out" by (auto simp: list_all_length)
    moreover from out have "list_all2 (\<lambda>iq v. run (fst iq) (snd iq) = Inr v) (enumerate 0 qs) (map the out)"
      by (force simp: list_all2_conv_all_nth nth_enumerate_eq)
    ultimately show ?thesis using r Inr False by (simp add: run_batch_def)
  qed (use r ok False in \<open>simp add: run_batch_def\<close>)
qed (simp add: run_batch_def)

text \<open>A stream that yields its results in reverse, and one that stalls when nothing may be in flight.\<close>

definition backwards :: "'a buffering" where
  "backwards c results = (if c = 0 then [] else rev results)"

lemma backwards_all: "buffers_all backwards"
  by (simp add: buffers_all_def backwards_def)

lemma batch_in_order_witness:
  "run_batch 0 [''a'', ''b'', ''c''] (\<lambda>i q. Inr (i, q)) backwards = Some (Inr [(0, ''a''), (1, ''b''), (2, ''c'')]) \<and>
   run_batch 5 [''a'', ''b'', ''c''] (\<lambda>i q. if q = ''b'' then Inl NotFoundFailed else if q = ''a'' then Inl AuthFailed else Inr q)
     backwards = Some (Inl NotFoundFailed)"
  using batch_in_order [OF backwards_all, where c = 0 and qs = "[''a'', ''b'', ''c'']" and run = "\<lambda>i q. Inr (i, q)"]
    batch_in_order [OF backwards_all, where c = 5 and qs = "[''a'', ''b'', ''c'']" and run =
      "\<lambda>i q. if q = ''b'' then Inl NotFoundFailed else if q = ''a'' then Inl AuthFailed else Inr q"]
  by (simp add: run_batch_def batch_calls_def backwards_def)

section \<open>Settings\<close>

lemma resolve_auth_error: "resolve_auth now c = Inl e \<Longrightarrow> is_config_failure e"
  by (auto simp: resolve_auth_def Let_def given_def client_auth_new_def invalid_config_def api_error_new_def
      api_is_invalid_config_def and_then_def split: option.splits if_splits)

text \<open>A client is built only with a usable credential, keeps between 1 and 20 batch calls in flight,
  never waits on a base below 200 ms, and its base address has no trailing slash.\<close>

lemma settings_clamped:
  "case http_client_new build now c of
     Inl e \<Rightarrow> is_config_failure e \<or> (\<exists>x. e = HttpFailed x)
   | Inr cl \<Rightarrow> 1 \<le> hcl_concurrency cl \<and> hcl_concurrency cl \<le> MAX_CONCURRENCY \<and>
       MIN_RETRY_BASE \<le> t_retry_base (hcl_transport cl) \<and>
       (t_base_url (hcl_transport cl) = [] \<or> last (t_base_url (hcl_transport cl)) \<noteq> CHR ''/'') \<and>
       resolve_auth now c = Inr (hcl_auth cl)"
proof (cases "http_client_new build now c")
  case (Inr cl)
  have "trim_slash u = [] \<or> last (trim_slash u) \<noteq> CHR ''/''" for u
    using hd_dropWhile [of "\<lambda>c. c = CHR ''/''" "rev u"] by (auto simp: last_rev)
  with Inr show ?thesis
    by (auto simp: http_client_new_def Let_def and_then_Inr_iff MAX_CONCURRENCY_def DEFAULT_CONCURRENCY_def
        simp del: trim_slash.simps split: if_splits)
next
  case (Inl e)
  then show ?thesis
    using resolve_auth_error [of now c]
    by (auto simp: http_client_new_def build_http_def Let_def and_then_def simp del: trim_slash.simps split: sum.splits option.splits if_splits)
qed

text \<open>Exactly one of the three is given (an empty text counts as none), and client tokens are complete.\<close>

definition usable_credential :: "'h http_config \<Rightarrow> bool" where
  "usable_credential c \<longleftrightarrow>
     length (filter (\<lambda>b. b) [given (hc_api_key c), hc_client_auth c \<noteq> None, given (hc_access_token c)]) = 1 \<and>
     (case hc_client_auth c of
        None \<Rightarrow> True
      | Some a \<Rightarrow> ca_access_token a \<noteq> [] \<and> ca_refresh_token a \<noteq> [] \<and> ca_expires_at a \<noteq> 0)"

text \<open>C37: Credentials resolve exactly when one and only one of the three is given (an empty text counts
  as none) and client tokens are complete, and then to the one that was given, client tokens as
  issued now and with no refresh under way; otherwise the error is a configuration failure.\<close>

theorem one_credential:
  "case resolve_auth now c of
      Inl e \<Rightarrow> is_config_failure e \<and> \<not> usable_credential c
    | Inr (KeyAuth k) \<Rightarrow> usable_credential c \<and> hc_api_key c = Some k \<and> k \<noteq> []
    | Inr (BearerAuth (StaticToken t)) \<Rightarrow> usable_credential c \<and> hc_access_token c = Some t \<and> t \<noteq> []
    | Inr (BearerAuth (ClientAuthToken i)) \<Rightarrow> usable_credential c \<and>
        hc_client_auth c = Some \<lparr>ca_access_token = ai_access_token i, ca_refresh_token = ai_refresh_token i,
          ca_expires_at = ai_expires_at i\<rparr> \<and> ai_issued_at i = now \<and> \<not> ai_refreshing i"
  by (auto simp: resolve_auth_def usable_credential_def Let_def given_def client_auth_new_def invalid_config_def
      api_error_new_def api_is_invalid_config_def and_then_def split: option.splits if_splits)

definition keyed_config :: "unit http_config" where
  "keyed_config = (with_api_key ''K'')\<lparr>hc_access_token := Some []\<rparr>"

lemma one_credential_witness:
  "resolve_auth 7 keyed_config = Inr (KeyAuth ''K'') \<and>
   isl (resolve_auth 7 (keyed_config\<lparr>hc_access_token := Some ''T''\<rparr>))"
  using one_credential [where now = 7 and c = keyed_config] one_credential [where now = 7 and c = "keyed_config\<lparr>hc_access_token := Some ''T''\<rparr>"]
  by (auto simp: keyed_config_def with_api_key_def http_config_default_def usable_credential_def given_def split: sum.splits auth_kind.splits token_source.splits)

end
