(* ===== verification/Http_Refresh.thy ===== *)
theory Http_Refresh
  imports Http_Auth
begin

text \<open>
  Several callers of \<^verbatim>\<open>ClientAuthSession::refresh\<close> (\<^verbatim>\<open>src/auth.rs\<close>) at once. A caller is a
  task whose place in the loop is a \<open>refresh_pc\<close>; a step is one task running one critical
  section of the mutex (the sections are those of \<open>Http_Auth\<close>), receiving its reply, or
  going past one point of the \<^verbatim>\<open>Notify\<close>. Two facts of the runtime matter. \<^verbatim>\<open>notify_waiters\<close>
  wakes the tasks that have called \<^verbatim>\<open>notified()\<close> and stores nothing for later ones; the
  mutex is released before that call, so another thread can run in between (\<open>AtNotified\<close>).
  And a future can be dropped at each of its awaits, as \<^verbatim>\<open>run_batch\<close> in
  \<^verbatim>\<open>src/geocoding.rs\<close> drops the calls still in flight when one of them fails.
\<close>

section \<open>Tasks and steps\<close>

datatype refresh_pc =
    Outside
  | AtLock
  | Leading string
  | Storing client_auth
  | Ending "http_error + unit"
  | Notifying "http_error + unit"
  | AtNotified
  | Parked
  | Woken
  | Returned "http_error + unit"
  | Dropped

record refresh_world =
  rw_inner :: client_auth_inner
  rw_task :: "nat \<Rightarrow> refresh_pc"

datatype refresh_event =
    ECall nat
  | ELock nat
  | EReply nat "string + http_reply"
  | EStore nat instant
  | EReset nat
  | ENotify nat
  | ERegister nat
  | ERecheck nat
  | EDrop nat

definition fresh_world :: "client_auth_inner \<Rightarrow> refresh_world" where
  "fresh_world i = \<lparr>rw_inner = i, rw_task = (\<lambda>_. Outside)\<rparr>"

definition goto :: "nat \<Rightarrow> refresh_pc \<Rightarrow> refresh_world \<Rightarrow> refresh_world" where
  "goto t p w = w\<lparr>rw_task := (rw_task w)(t := p)\<rparr>"

definition notify_waiters :: "refresh_world \<Rightarrow> refresh_world" where
  "notify_waiters w = w\<lparr>rw_task := (\<lambda>t. if rw_task w t = Parked then Woken else rw_task w t)\<rparr>"

fun awaiting :: "refresh_pc \<Rightarrow> bool" where
  "awaiting AtLock = True"
| "awaiting (Leading _) = True"
| "awaiting (Storing _) = True"
| "awaiting (Ending _) = True"
| "awaiting Parked = True"
| "awaiting Woken = True"
| "awaiting _ = False"

inductive refresh_step :: "'j crates \<Rightarrow> refresh_event \<Rightarrow> refresh_world \<Rightarrow> refresh_world \<Rightarrow> bool" for C where
  step_call: "rw_task w t = Outside \<Longrightarrow> refresh_step C (ECall t) w (goto t AtLock w)"
| step_lead: "rw_task w t = AtLock \<Longrightarrow> refresh_begin (rw_inner w) = (Some tok, i) \<Longrightarrow>
    refresh_step C (ELock t) w (goto t (Leading tok) (w\<lparr>rw_inner := i\<rparr>))"
| step_wait: "rw_task w t = AtLock \<Longrightarrow> refresh_begin (rw_inner w) = (None, i) \<Longrightarrow>
    refresh_step C (ELock t) w (goto t AtNotified (w\<lparr>rw_inner := i\<rparr>))"
| step_failed: "rw_task w t = Leading tok \<Longrightarrow> check_refresh C res = Inl e \<Longrightarrow>
    refresh_step C (EReply t res) w (goto t (Ending (Inl e)) w)"
| step_checked: "rw_task w t = Leading tok \<Longrightarrow> check_refresh C res = Inr pair \<Longrightarrow>
    refresh_step C (EReply t res) w (goto t (Storing pair) w)"
| step_store: "rw_task w t = Storing pair \<Longrightarrow>
    refresh_step C (EStore t now) w (goto t (Ending (Inr ())) (w\<lparr>rw_inner := refresh_store now pair (rw_inner w)\<rparr>))"
| step_reset: "rw_task w t = Ending r \<Longrightarrow>
    refresh_step C (EReset t) w (goto t (Notifying r) (w\<lparr>rw_inner := refresh_end (rw_inner w)\<rparr>))"
| step_notify: "rw_task w t = Notifying r \<Longrightarrow>
    refresh_step C (ENotify t) w (goto t (Returned r) (notify_waiters w))"
| step_register: "rw_task w t = AtNotified \<Longrightarrow> refresh_step C (ERegister t) w (goto t Parked w)"
| step_done: "rw_task w t = Woken \<Longrightarrow> \<not> ai_refreshing (rw_inner w) \<Longrightarrow>
    refresh_step C (ERecheck t) w (goto t (Returned (Inr ())) w)"
| step_again: "rw_task w t = Woken \<Longrightarrow> ai_refreshing (rw_inner w) \<Longrightarrow>
    refresh_step C (ERecheck t) w (goto t AtLock w)"
| step_drop: "awaiting (rw_task w t) \<Longrightarrow> refresh_step C (EDrop t) w (goto t Dropped w)"

inductive_simps refresh_step_simps:
  "refresh_step C (ECall t) w w'" "refresh_step C (ELock t) w w'" "refresh_step C (EReply t res) w w'"
  "refresh_step C (EStore t now) w w'" "refresh_step C (EReset t) w w'" "refresh_step C (ENotify t) w w'"
  "refresh_step C (ERegister t) w w'" "refresh_step C (ERecheck t) w w'" "refresh_step C (EDrop t) w w'"

inductive refresh_run :: "'j crates \<Rightarrow> refresh_world \<Rightarrow> refresh_event list \<Rightarrow> refresh_world \<Rightarrow> bool" for C w0 where
  run_start: "refresh_run C w0 [] w0"
| run_step: "refresh_run C w0 es w \<Longrightarrow> refresh_step C e w w' \<Longrightarrow> refresh_run C w0 (es @ [e]) w'"

section \<open>The invariant\<close>

text \<open>The leader is the task between taking the flag and giving it back.\<close>

fun leads :: "refresh_pc \<Rightarrow> bool" where
  "leads (Leading _) = True"
| "leads (Storing _) = True"
| "leads (Ending _) = True"
| "leads _ = False"

definition usable_pair :: "client_auth \<Rightarrow> bool" where
  "usable_pair a \<longleftrightarrow> ca_access_token a \<noteq> [] \<and> ca_refresh_token a \<noteq> [] \<and> ca_expires_at a \<noteq> 0"

definition usable_tokens :: "client_auth_inner \<Rightarrow> bool" where
  "usable_tokens i \<longleftrightarrow> ai_access_token i \<noteq> [] \<and> ai_refresh_token i \<noteq> [] \<and> ai_expires_at i \<noteq> 0"

definition one_leader :: "refresh_world \<Rightarrow> bool" where
  "one_leader w \<longleftrightarrow>
     (\<forall>t u. leads (rw_task w t) \<longrightarrow> leads (rw_task w u) \<longrightarrow> t = u) \<and>
     (\<forall>t. leads (rw_task w t) \<longrightarrow> ai_refreshing (rw_inner w))"

definition tokens_usable :: "refresh_world \<Rightarrow> bool" where
  "tokens_usable w \<longleftrightarrow> usable_tokens (rw_inner w) \<and>
     (\<forall>t pair. rw_task w t = Storing pair \<longrightarrow> usable_pair pair)"

definition flag_held :: "refresh_world \<Rightarrow> bool" where
  "flag_held w \<longleftrightarrow> (ai_refreshing (rw_inner w) \<longrightarrow> (\<exists>t. leads (rw_task w t)))"

lemma refresh_begin_simps:
  "refresh_begin i = (Some tok, i') \<longleftrightarrow>
     \<not> ai_refreshing i \<and> tok = ai_refresh_token i \<and> i' = i\<lparr>ai_refreshing := True\<rparr>"
  "refresh_begin i = (None, i') \<longleftrightarrow> ai_refreshing i \<and> i' = i"
  by (auto simp: refresh_begin_def)

lemma check_refresh_usable: "check_refresh C res = Inr pair \<Longrightarrow> usable_pair pair"
  by (auto simp: check_refresh_def usable_pair_def Let_def split: sum.splits if_splits)

lemma goto_simps [simp]:
  "rw_inner (goto t p w) = rw_inner w"
  "rw_task (goto t p w) u = (if u = t then p else rw_task w u)"
  by (auto simp: goto_def)

lemma notify_waiters_simps [simp]:
  "rw_inner (notify_waiters w) = rw_inner w"
  "rw_task (notify_waiters w) u = (if rw_task w u = Parked then Woken else rw_task w u)"
  by (auto simp: notify_waiters_def)

lemma leads_awake [simp]: "leads (if p = Parked then Woken else p) = leads p"
  by auto

lemma one_leader_step: "refresh_step C e w w' \<Longrightarrow> one_leader w \<Longrightarrow> one_leader w'"
proof (induction rule: refresh_step.induct)
  case (step_reset w t r)
  then show ?case by (auto simp: one_leader_def)
qed (auto simp: one_leader_def refresh_begin_simps refresh_store_def; (metis leads.simps)?)+

lemma tokens_usable_step: "refresh_step C e w w' \<Longrightarrow> tokens_usable w \<Longrightarrow> tokens_usable w'"
  by (induction rule: refresh_step.induct)
    (auto simp: tokens_usable_def usable_tokens_def refresh_begin_simps refresh_store_def refresh_end_def
      usable_pair_def dest: check_refresh_usable split: if_splits)

lemma flag_held_step:
  "refresh_step C e w w' \<Longrightarrow> \<forall>t. e \<noteq> EDrop t \<Longrightarrow> flag_held w \<Longrightarrow> flag_held w'"
  by (induction rule: refresh_step.induct)
    (auto simp: flag_held_def refresh_begin_simps refresh_store_def refresh_end_def, (metis leads.simps)+)

lemma run_one_leader: "refresh_run C w0 es w \<Longrightarrow> one_leader w0 \<Longrightarrow> one_leader w"
  by (induction rule: refresh_run.induct) (auto intro: one_leader_step)

lemma run_tokens_usable: "refresh_run C w0 es w \<Longrightarrow> tokens_usable w0 \<Longrightarrow> tokens_usable w"
  by (induction rule: refresh_run.induct) (auto intro: tokens_usable_step)

lemma run_flag_held:
  "refresh_run C w0 es w \<Longrightarrow> \<forall>t. EDrop t \<notin> set es \<Longrightarrow> flag_held w0 \<Longrightarrow> flag_held w"
proof (induction rule: refresh_run.induct)
  case (run_step es w e w')
  then show ?case by (auto intro: flag_held_step)
qed

lemma fresh_world_start:
  assumes "client_auth_new now a = Inr i"
  shows "one_leader (fresh_world i)" "tokens_usable (fresh_world i)" "flag_held (fresh_world i)"
  using assms
  by (auto simp: fresh_world_def client_auth_new_def one_leader_def tokens_usable_def flag_held_def usable_tokens_def
      split: if_splits)

end
