(* ===== verification/Refresh_Correct.thy ===== *)
theory Refresh_Correct
  imports Http_Refresh
begin

text \<open>
  Properties of concurrent refreshes: at most one caller refreshes, and the three ways in
  which waiting goes wrong. A caller on its own behaves as the sequential \<open>client_refresh\<close>
  that the transport uses.
\<close>

section \<open>Building runs\<close>

lemma run_cons: "refresh_run C w1 es w' \<Longrightarrow> refresh_step C e w w1 \<Longrightarrow> refresh_run C w (e # es) w'"
proof (induction rule: refresh_run.induct)
  case run_start
  then show ?case using refresh_run.run_step [OF refresh_run.run_start] by fastforce
next
  case (run_step es w2 e2 w3)
  then show ?case using refresh_run.run_step by fastforce
qed

lemma run_append: "refresh_run C w2 es' w' \<Longrightarrow> refresh_run C w es w2 \<Longrightarrow> refresh_run C w (es @ es') w'"
  by (induction rule: refresh_run.induct)
    (auto intro: refresh_run.run_step simp flip: append_assoc)

lemma fresh_world_simps [simp]:
  "rw_inner (fresh_world i) = i" "rw_task (fresh_world i) t = Outside"
  by (simp_all add: fresh_world_def)

lemma refresh_world_eqI: "rw_inner v = rw_inner w \<Longrightarrow> (\<And>t. rw_task v t = rw_task w t) \<Longrightarrow> v = (w::refresh_world)"
  by (cases v, cases w) auto

text \<open>A run given as a list of events and the worlds between them.\<close>

fun follows :: "'j crates \<Rightarrow> refresh_world \<Rightarrow> (refresh_event \<times> refresh_world) list \<Rightarrow> bool" where
  "follows C w [] = True"
| "follows C w ((e, w') # rest) = (refresh_step C e w w' \<and> follows C w' rest)"

lemma follows_run: "follows C w tr \<Longrightarrow> refresh_run C w (map fst tr) (if tr = [] then w else snd (last tr))"
  by (induction C w tr rule: follows.induct) (auto intro: refresh_run.run_start run_cons)

text \<open>A caller on its own is the sequential refresh.\<close>

lemma lone_refresh_is_run:
  assumes "client_refresh C base i n = (r, i', n')" and free: "\<not> ai_refreshing i"
  shows "\<exists>es w. refresh_run C (fresh_world i) es w \<and> rw_task w 0 = Returned r \<and> rw_inner w = i'"
proof -
  let ?i = "i\<lparr>ai_refreshing := True\<rparr>"
  let ?w1 = "goto 0 AtLock (fresh_world i)"
  let ?w2 = "goto 0 (Leading (ai_refresh_token i)) (?w1\<lparr>rw_inner := ?i\<rparr>)"
  obtain res n1 where sent: "http_send (refresh_request C base (ai_refresh_token i)) n = (res, n1)" by fastforce
  have two: "refresh_run C (fresh_world i) [ECall 0, ELock 0] ?w2"
    using follows_run [of C "fresh_world i" "[(ECall 0, ?w1), (ELock 0, ?w2)]"] free
    by (simp add: refresh_step_simps refresh_begin_simps)
  have finish: ?thesis
    if run: "refresh_run C (fresh_world i) es w" and ending: "rw_task w 0 = Ending r"
      and now: "refresh_end (rw_inner w) = i'" for es w
  proof -
    let ?v1 = "goto 0 (Notifying r) (w\<lparr>rw_inner := refresh_end (rw_inner w)\<rparr>)"
    let ?v2 = "goto 0 (Returned r) (notify_waiters ?v1)"
    have "refresh_run C w [EReset 0, ENotify 0] ?v2"
      using follows_run [of C w "[(EReset 0, ?v1), (ENotify 0, ?v2)]"] ending
      by (simp add: refresh_step_simps)
    from run_append [OF this run] now show ?thesis by (intro exI conjI) auto
  qed
  show ?thesis
  proof (cases "check_refresh C res")
    case (Inl e)
    let ?w3 = "goto 0 (Ending (Inl e)) ?w2"
    have "refresh_run C ?w2 [EReply 0 res] ?w3"
      using follows_run [of C ?w2 "[(EReply 0 res, ?w3)]"] Inl by (simp add: refresh_step_simps)
    from run_append [OF this two] show ?thesis
      by (rule finish) (use assms Inl sent in \<open>auto simp: client_refresh_def lead_refresh_def refresh_begin_def do_refresh_def\<close>)
  next
    case (Inr pair)
    obtain ms now n2 where clock: "read_clock n1 = ((ms, now), n2)" by (metis prod.collapse)
    let ?w3 = "goto 0 (Storing pair) ?w2"
    let ?w4 = "goto 0 (Ending (Inr ())) (?w3\<lparr>rw_inner := refresh_store now pair (rw_inner ?w3)\<rparr>)"
    have "refresh_run C ?w2 [EReply 0 res, EStore 0 now] ?w4"
      using follows_run [of C ?w2 "[(EReply 0 res, ?w3), (EStore 0 now, ?w4)]"] Inr by (simp add: refresh_step_simps)
    from run_append [OF this two] show ?thesis
      by (rule finish) (use assms Inr sent clock in \<open>auto simp: client_refresh_def lead_refresh_def refresh_begin_def do_refresh_def\<close>)
  qed
qed

section \<open>One refresh at a time\<close>

text \<open>C6: However callers interleave, at most one of them refreshes, the flag is set while it does, and
  the stored tokens are complete; unless a caller is dropped, the flag is set only while one does.\<close>

theorem refresh_single_flight:
  assumes "client_auth_new now a = Inr i" and "refresh_run C (fresh_world i) es w"
  shows "(\<forall>t u. leads (rw_task w t) \<longrightarrow> leads (rw_task w u) \<longrightarrow> t = u) \<and>
    (\<forall>t. leads (rw_task w t) \<longrightarrow> ai_refreshing (rw_inner w)) \<and>
    ai_access_token (rw_inner w) \<noteq> [] \<and> ai_refresh_token (rw_inner w) \<noteq> [] \<and> ai_expires_at (rw_inner w) \<noteq> 0 \<and>
    ((\<forall>t. EDrop t \<notin> set es) \<longrightarrow> (ai_refreshing (rw_inner w) \<longleftrightarrow> (\<exists>t. leads (rw_task w t))))"
proof -
  note start = fresh_world_start [OF assms(1)]
  have "one_leader w" "tokens_usable w" "(\<forall>t. EDrop t \<notin> set es) \<longrightarrow> flag_held w"
    using run_one_leader [OF assms(2) start(1)] run_tokens_usable [OF assms(2) start(2)]
      run_flag_held [OF assms(2) _ start(3)] by blast+
  then show ?thesis
    by (auto simp: one_leader_def tokens_usable_def usable_tokens_def flag_held_def)
qed

definition sample_auth :: client_auth where
  "sample_auth = \<lparr>ca_access_token = ''A'', ca_refresh_token = ''R'', ca_expires_at = 1\<rparr>"

definition sample_inner :: client_auth_inner where
  "sample_inner = \<lparr>ai_access_token = ''A'', ai_refresh_token = ''R'', ai_expires_at = 1, ai_issued_at = 0, ai_refreshing = False\<rparr>"

lemma sample_new: "client_auth_new 0 sample_auth = Inr sample_inner"
  by (simp add: client_auth_new_def sample_auth_def sample_inner_def)

text \<open>Task 0 leads, task 1 has seen the flag and is about to wait.\<close>

definition two_callers :: "(refresh_event \<times> refresh_world) list" where
  "two_callers =
     (let w0 = fresh_world sample_inner; w1 = goto 0 AtLock w0;
          w2 = goto 0 (Leading ''R'') (w1\<lparr>rw_inner := sample_inner\<lparr>ai_refreshing := True\<rparr>\<rparr>);
          w3 = goto 1 AtLock w2; w4 = goto 1 AtNotified w3
      in [(ECall 0, w1), (ELock 0, w2), (ECall 1, w3), (ELock 1, w4)])"

definition two_world :: refresh_world where
  "two_world = goto 1 AtNotified (goto 1 AtLock (goto 0 (Leading ''R'') ((goto 0 AtLock (fresh_world sample_inner))
     \<lparr>rw_inner := sample_inner\<lparr>ai_refreshing := True\<rparr>\<rparr>)))"

lemma two_callers_run:
  "refresh_run C (fresh_world sample_inner) [ECall 0, ELock 0, ECall 1, ELock 1] two_world"
  using follows_run [of C "fresh_world sample_inner" two_callers]
  by (simp add: two_callers_def two_world_def Let_def refresh_step_simps refresh_begin_simps goto_def fresh_world_def
      sample_inner_def fun_upd_twist)

lemma two_world_simps [simp]:
  "rw_inner two_world = sample_inner\<lparr>ai_refreshing := True\<rparr>"
  "rw_task two_world t = (if t = 0 then Leading ''R'' else if t = 1 then AtNotified else Outside)"
  by (simp_all add: two_world_def goto_def fresh_world_def)

lemma refresh_single_flight_witness:
  "\<forall>C. leads (rw_task two_world 0) \<and> (\<forall>t. leads (rw_task two_world t) \<longrightarrow> t = 0) \<and> ai_refreshing (rw_inner two_world)"
proof
  fix C :: "'a crates"
  from refresh_single_flight [OF sample_new two_callers_run [of C]]
  show "leads (rw_task two_world 0) \<and> (\<forall>t. leads (rw_task two_world t) \<longrightarrow> t = 0) \<and> ai_refreshing (rw_inner two_world)"
    by (metis leads.simps(1) two_world_simps(2))
qed

section \<open>When tokens are refreshed\<close>

lemma half_value:
  assumes "0 \<le> L" "L \<le> 2 ^ 52"
  shows "unat (f64_to_u64 (f64_mul (f64_of_int L) CLIENT_AUTH_REFRESH_AT)) = nat (L div 2)"
proof -
  have h: "f64_value CLIENT_AUTH_REFRESH_AT = Finite False (1 / 2)"
    by (simp add: CLIENT_AUTH_REFRESH_AT_def f64_value_def Let_def pow2_def)
  have p: "pow2 (- 1) = 1 / 2" by (simp add: pow2_def)
  have r: "f64_repr (of_int L / 2)"
    unfolding f64_repr_def using assms by (intro exI [of _ L] exI [of _ "- 1"]) (simp add: p)
  have "(of_int L :: rat) \<le> of_int (2 ^ 52)" using assms(2) by (simp only: of_int_le_iff)
  then have "(of_int L :: rat) / 2 \<le> pow2 52" by (simp add: pow2_def)
  then have b: "(of_int L :: rat) / 2 < pow2 1023" by (rule le_less_trans) simp
  have v: "f64_value (f64_mul (f64_of_int L) CLIENT_AUTH_REFRESH_AT) = Finite False (of_int L / 2)"
    using assms b r by (simp add: f64_mul_def h value_of_int f64_of_val_def value_encode f64_rnd_repr)
  have "\<lfloor>(of_int L :: rat) / 2\<rfloor> = L div 2" by (metis floor_divide_of_int_eq of_int_numeral)
  with v assms show ?thesis
    by (simp add: f64_to_u64_def f64_to_int_def clamp_int_def uint_word_of_int_u64 unat_eq_nat_uint)
qed

text \<open>C24: Tokens issued at time I with a lifetime of L milliseconds are refreshed ahead of use exactly when
  half of the lifetime, rounded down, has passed, and at once when they came already expired; the
  float multiplication is exact for all lifetimes up to \<open>2 ^ 52\<close> milliseconds.\<close>

theorem refresh_at_half_life:
  assumes expires: "ai_expires_at i = word_of_int (I + L)"
    and clock: "now_ms = word_of_int (I + int (as_millis (now1 - ai_issued_at i)))"
    and small: "0 \<le> I" "I \<le> 2 ^ 52" "as_millis (now1 - ai_issued_at i) \<le> 2 ^ 52" "\<bar>L\<bar> \<le> 2 ^ 52"
  shows "needs_proactive_refresh now_ms now1 now2 i \<longleftrightarrow>
    L \<le> 0 \<or> ai_issued_at i + from_millis (nat (L div 2)) \<le> now2"
proof -
  let ?el = "int (as_millis (now1 - ai_issued_at i))"
  have el: "?el \<le> 4503599627370496" using small(3) by simp
  have L: "- 4503599627370496 \<le> L" "L \<le> 4503599627370496" "I \<le> 4503599627370496" using small by simp_all
  have s: "sint (word_of_int x :: i64) = x" if "- 1000000000000000000 \<le> x" "x \<le> 1000000000000000000" for x
    using that by (intro sint_i64_of_int) linarith+
  have ttl: "ai_expires_at i - (now_ms - of_nat (as_millis (now1 - ai_issued_at i))) = word_of_int L"
    by (simp add: expires clock)
  have "sint (ai_expires_at i - 30000) = I + L - 30000"
    using s [of "I + L - 30000"] L small(1) by (simp add: expires)
  moreover have "sint now_ms = I + ?el" unfolding clock using L small(1) el by (intro s) linarith+
  moreover have "sint (word_of_int L :: i64) = L" using L by (intro s) linarith+
  ultimately show ?thesis
    using half_value [of L] small
    by (auto simp: needs_proactive_refresh_def Let_def ttl)
qed

lemma refresh_at_half_life_witness:
  "needs_proactive_refresh 31000 (from_millis 30000) (from_millis 30000)
     (sample_inner\<lparr>ai_expires_at := 61000\<rparr>) \<and>
   \<not> needs_proactive_refresh 30999 (from_millis 29999) (from_millis 29999)
     (sample_inner\<lparr>ai_expires_at := 61000\<rparr>)"
  using refresh_at_half_life [of "sample_inner\<lparr>ai_expires_at := 61000\<rparr>" 1000 60000 31000 "from_millis 30000" "from_millis 30000"]
    refresh_at_half_life [of "sample_inner\<lparr>ai_expires_at := 61000\<rparr>" 1000 60000 30999 "from_millis 29999" "from_millis 29999"]
  by (simp add: sample_inner_def from_millis_def as_millis_def)

section \<open>A dropped leader\<close>

definition abandoned :: "refresh_world \<Rightarrow> bool" where
  "abandoned w \<longleftrightarrow> ai_refreshing (rw_inner w) \<and> (\<forall>t. \<not> leads (rw_task w t))"

lemma abandoned_step:
  "refresh_step C e w w' \<Longrightarrow> abandoned w \<Longrightarrow>
   abandoned w' \<and> rw_inner w' = rw_inner w \<and>
   (\<forall>u r. rw_task w' u = Returned r \<longrightarrow> rw_task w u = Notifying r \<or> rw_task w u = Returned r) \<and>
   (\<forall>u r. rw_task w' u = Notifying r \<longrightarrow> rw_task w u = Notifying r)"
  by (induction rule: refresh_step.induct)
    (auto simp: abandoned_def refresh_begin_simps split: if_splits, (metis leads.simps)+)

lemma abandoned_run:
  "refresh_run C w es w' \<Longrightarrow> abandoned w \<Longrightarrow>
   abandoned w' \<and> rw_inner w' = rw_inner w \<and>
   (\<forall>u r. rw_task w' u = Returned r \<longrightarrow> rw_task w u = Notifying r \<or> rw_task w u = Returned r) \<and>
   (\<forall>u r. rw_task w' u = Notifying r \<longrightarrow> rw_task w u = Notifying r)"
proof (induction rule: refresh_run.induct)
  case (run_step es v e v')
  from run_step.IH [OF run_step.prems] abandoned_step [OF run_step.hyps(2)] show ?case by metis
qed simp

text \<open>C5: When the caller that refreshes is dropped, as a batch drops its remaining calls after a failure,
  the flag stays set for ever: the tokens never change again, and no caller that had not already
  finished its refresh ever returns.\<close>

theorem dropped_leader_blocks:
  assumes "client_auth_new now a = Inr i" and "refresh_run C (fresh_world i) es w" and "leads (rw_task w t)"
    and "refresh_step C (EDrop t) w v" and "refresh_run C v es' w'"
  shows "rw_inner w' = rw_inner w \<and> ai_refreshing (rw_inner w') \<and>
    (\<forall>u r. rw_task w' u = Returned r \<longrightarrow> rw_task w u = Notifying r \<or> rw_task w u = Returned r)"
proof -
  have inv: "one_leader w" by (rule run_one_leader [OF assms(2) fresh_world_start(1) [OF assms(1)]])
  have v: "v = goto t Dropped w" using assms(4) by (simp add: refresh_step_simps)
  with inv assms(3) have "abandoned v" by (auto simp: abandoned_def one_leader_def)
  from abandoned_run [OF assms(5) this] v show ?thesis
    by (auto simp: abandoned_def split: if_splits)
qed

lemma dropped_leader_blocks_witness:
  "\<forall>C es' w'. refresh_step C (EDrop 0) two_world (goto 0 Dropped two_world) \<and>
     (refresh_run C (goto 0 Dropped two_world) es' w' \<longrightarrow>
      ai_refreshing (rw_inner w') \<and> (\<forall>u r. rw_task w' u \<noteq> Returned r))"
proof (intro allI conjI impI)
  fix C :: "'a crates" and es' w' u r
  show drop: "refresh_step C (EDrop 0) two_world (goto 0 Dropped two_world)" by (auto intro: step_drop)
  have lead: "leads (rw_task two_world 0)" by simp
  assume "refresh_run C (goto 0 Dropped two_world) es' w'"
  from dropped_leader_blocks [OF sample_new two_callers_run lead drop this]
  have "rw_inner w' = rw_inner two_world" and before: "rw_task w' u = Returned r \<Longrightarrow>
      rw_task two_world u = Notifying r \<or> rw_task two_world u = Returned r" by blast+
  moreover have "rw_task two_world u \<noteq> Notifying r \<and> rw_task two_world u \<noteq> Returned r" by simp
  ultimately show "ai_refreshing (rw_inner w')" "rw_task w' u \<noteq> Returned r" by auto
qed

section \<open>Waiting callers\<close>

text \<open>C22: A caller that waited returns success whatever the refresh it waited for came to: for every
  failing reply there is a run in which the caller that refreshed returns that error, the one that
  waited returns success, and the tokens are the old ones.\<close>

theorem waiter_ok_after_failure:
  assumes "check_refresh C res = Inl e" and "client_auth_new now a = Inr i"
  shows "\<exists>es w. refresh_run C (fresh_world i) es w \<and> rw_task w 0 = Returned (Inl e) \<and>
    rw_task w 1 = Returned (Inr ()) \<and> rw_inner w = i"
proof -
  have free: "\<not> ai_refreshing i" using assms(2) by (auto simp: client_auth_new_def split: if_splits)
  then have i: "i\<lparr>ai_refreshing := False\<rparr> = i" by (cases i) simp
  let ?w1 = "goto 0 AtLock (fresh_world i)"
  let ?w2 = "goto 0 (Leading (ai_refresh_token i)) (?w1\<lparr>rw_inner := i\<lparr>ai_refreshing := True\<rparr>\<rparr>)"
  let ?w3 = "goto 1 AtLock ?w2"
  let ?w4 = "goto 1 AtNotified (?w3\<lparr>rw_inner := i\<lparr>ai_refreshing := True\<rparr>\<rparr>)"
  let ?w5 = "goto 1 Parked ?w4"
  let ?w6 = "goto 0 (Ending (Inl e)) ?w5"
  let ?w7 = "goto 0 (Notifying (Inl e)) (?w6\<lparr>rw_inner := refresh_end (rw_inner ?w6)\<rparr>)"
  let ?w8 = "goto 0 (Returned (Inl e)) (notify_waiters ?w7)"
  let ?w9 = "goto 1 (Returned (Inr ())) ?w8"
  have "refresh_run C (fresh_world i)
      [ECall 0, ELock 0, ECall 1, ELock 1, ERegister 1, EReply 0 res, EReset 0, ENotify 0, ERecheck 1] ?w9"
    using follows_run [of C "fresh_world i" "[(ECall 0, ?w1), (ELock 0, ?w2), (ECall 1, ?w3), (ELock 1, ?w4),
        (ERegister 1, ?w5), (EReply 0 res, ?w6), (EReset 0, ?w7), (ENotify 0, ?w8), (ERecheck 1, ?w9)]"] free assms(1)
    by (simp add: refresh_step_simps refresh_begin_simps refresh_end_def)
  then show ?thesis by (intro exI conjI) (auto simp: refresh_end_def i)
qed

lemma waiter_ok_after_failure_witness:
  "\<forall>C. \<exists>es w. refresh_run C (fresh_world sample_inner) es w \<and>
     (\<exists>e. rw_task w 0 = Returned (Inl e)) \<and> rw_task w 1 = Returned (Inr ()) \<and>
     ai_access_token (rw_inner w) = ''A''"
proof
  fix C :: "'a crates"
  have "check_refresh C (Inl ''down'') =
      Inl (api_failure 0 ''REFRESH_FAILED'' (''client token refresh network error: '' @ ''down'') [])"
    by (simp add: check_refresh_def)
  from waiter_ok_after_failure [OF this sample_new]
  have "\<exists>es w. refresh_run C (fresh_world sample_inner) es w \<and> (\<exists>e. rw_task w 0 = Returned (Inl e)) \<and>
     rw_task w 1 = Returned (Inr ()) \<and> rw_inner w = sample_inner" by blast
  then show "\<exists>es w. refresh_run C (fresh_world sample_inner) es w \<and> (\<exists>e. rw_task w 0 = Returned (Inl e)) \<and>
     rw_task w 1 = Returned (Inr ()) \<and> ai_access_token (rw_inner w) = ''A''"
    by (metis client_auth_inner.select_convs(1) sample_inner_def)
qed

fun at_rest :: "refresh_pc \<Rightarrow> bool" where
  "at_rest Outside = True"
| "at_rest Parked = True"
| "at_rest (Returned _) = True"
| "at_rest Dropped = True"
| "at_rest _ = False"

fun opens_call :: "refresh_event \<Rightarrow> bool" where
  "opens_call (ECall t) = True"
| "opens_call _ = False"

lemma at_rest_step:
  "refresh_step C e w w' \<Longrightarrow> \<not> opens_call e \<Longrightarrow> \<forall>u. at_rest (rw_task w u) \<Longrightarrow>
   (\<forall>u. at_rest (rw_task w' u)) \<and> (rw_task w t \<in> {Parked, Dropped} \<longrightarrow> rw_task w' t \<in> {Parked, Dropped})"
  by (induction rule: refresh_step.induct) (auto, (metis at_rest.simps)+)

lemma at_rest_run:
  "refresh_run C w es w' \<Longrightarrow> list_all (\<lambda>e. \<not> opens_call e) es \<Longrightarrow> \<forall>u. at_rest (rw_task w u) \<Longrightarrow>
   (\<forall>u. at_rest (rw_task w' u)) \<and> (rw_task w t \<in> {Parked, Dropped} \<longrightarrow> rw_task w' t \<in> {Parked, Dropped})"
proof (induction rule: refresh_run.induct)
  case (run_step es v e v')
  then show ?case using at_rest_step [OF run_step.hyps(2), of t] by (auto simp: list_all_append)
qed simp

text \<open>Task 1 has seen the flag of task 0 and has given the lock back, but does not wait yet.\<close>

definition about_to_wait :: "client_auth_inner \<Rightarrow> refresh_world" where
  "about_to_wait i = goto 1 AtNotified (goto 0 (Leading (ai_refresh_token i))
     (fresh_world (i\<lparr>ai_refreshing := True\<rparr>)))"

lemma about_to_wait_simps [simp]:
  "rw_inner (about_to_wait i) = i\<lparr>ai_refreshing := True\<rparr>"
  "rw_task (about_to_wait i) t =
     (if t = 1 then AtNotified else if t = 0 then Leading (ai_refresh_token i) else Outside)"
  by (simp_all add: about_to_wait_def)

lemma about_to_wait_run:
  assumes "\<not> ai_refreshing i"
  shows "refresh_run C (fresh_world i) [ECall 0, ELock 0, ECall 1, ELock 1] (about_to_wait i)"
proof -
  let ?j = "i\<lparr>ai_refreshing := True\<rparr>"
  let ?w1 = "goto 0 AtLock (fresh_world i)"
  let ?w2 = "goto 0 (Leading (ai_refresh_token i)) (?w1\<lparr>rw_inner := ?j\<rparr>)"
  let ?w3 = "goto 1 AtLock ?w2"
  have "about_to_wait i = goto 1 AtNotified (?w3\<lparr>rw_inner := ?j\<rparr>)"
    by (rule refresh_world_eqI) auto
  then show ?thesis
    using assms follows_run [of C "fresh_world i" "[(ECall 0, ?w1), (ELock 0, ?w2), (ECall 1, ?w3), (ELock 1, about_to_wait i)]"]
    by (simp add: refresh_step_simps refresh_begin_simps)
qed

text \<open>The leader ends and announces it; only then does task 1 wait.\<close>

lemma announced_too_early:
  assumes "rw_task w 0 = Ending r" "rw_task w 1 = AtNotified"
  shows "\<exists>w'. refresh_run C w [EReset 0, ENotify 0, ERegister 1] w' \<and> \<not> ai_refreshing (rw_inner w') \<and>
    rw_task w' 0 = Returned r \<and> rw_task w' 1 = Parked \<and>
    (\<forall>t. 1 < t \<longrightarrow> rw_task w' t = (if rw_task w t = Parked then Woken else rw_task w t))"
proof -
  let ?w1 = "goto 0 (Notifying r) (w\<lparr>rw_inner := refresh_end (rw_inner w)\<rparr>)"
  let ?w2 = "goto 0 (Returned r) (notify_waiters ?w1)"
  have "refresh_run C w [EReset 0, ENotify 0, ERegister 1] (goto 1 Parked ?w2)"
    using assms follows_run [of C w "[(EReset 0, ?w1), (ENotify 0, ?w2), (ERegister 1, goto 1 Parked ?w2)]"]
    by (simp add: refresh_step_simps)
  then show ?thesis by (intro exI conjI) (auto simp: refresh_end_def)
qed

text \<open>C23: A caller can miss the announcement it waits for. For every pair of tokens and every reply to the
  refresh there is a run, with no caller dropped, in which task 0 refreshes and returns while task 1,
  which called \<^verbatim>\<open>refresh\<close> and saw the flag, starts to wait only after \<^verbatim>\<open>notify_waiters\<close>: the
  flag is clear, yet task 1 never returns as long as no further call is made.\<close>

theorem lost_wakeup:
  assumes "client_auth_new now a = Inr i"
  shows "\<exists>es w. refresh_run C (fresh_world i) es w \<and> EReply 0 res \<in> set es \<and> ECall 1 \<in> set es \<and>
    (\<forall>t. EDrop t \<notin> set es) \<and> (\<exists>r. rw_task w 0 = Returned r) \<and> \<not> ai_refreshing (rw_inner w) \<and> rw_task w 1 = Parked \<and>
    (\<forall>es' w'. refresh_run C w es' w' \<longrightarrow> list_all (\<lambda>e. \<not> opens_call e) es' \<longrightarrow>
       rw_task w' 1 = Parked \<or> rw_task w' 1 = Dropped)"
proof -
  have start: "refresh_run C (fresh_world i) [ECall 0, ELock 0, ECall 1, ELock 1] (about_to_wait i)"
    by (rule about_to_wait_run) (use assms in \<open>auto simp: client_auth_new_def split: if_splits\<close>)
  obtain es r w where es: "refresh_run C (about_to_wait i) es w" "EReply 0 res \<in> set es" "\<forall>t. EDrop t \<notin> set es"
    and w: "rw_task w 0 = Ending r" "rw_task w 1 = AtNotified" "\<forall>t. 1 < t \<longrightarrow> rw_task w t = Outside"
  proof (cases "check_refresh C res")
    case (Inl e)
    let ?w = "goto 0 (Ending (Inl e)) (about_to_wait i)"
    have "refresh_run C (about_to_wait i) [EReply 0 res] ?w"
      using Inl follows_run [of C "about_to_wait i" "[(EReply 0 res, ?w)]"] by (simp add: refresh_step_simps)
    then show ?thesis by (rule that) auto
  next
    case (Inr pair)
    let ?v = "goto 0 (Storing pair) (about_to_wait i)"
    let ?w = "goto 0 (Ending (Inr ())) (?v\<lparr>rw_inner := refresh_store now pair (rw_inner ?v)\<rparr>)"
    have "refresh_run C (about_to_wait i) [EReply 0 res, EStore 0 now] ?w"
      using Inr follows_run [of C "about_to_wait i" "[(EReply 0 res, ?v), (EStore 0 now, ?w)]"] by (simp add: refresh_step_simps)
    then show ?thesis by (rule that) auto
  qed
  obtain v where last: "refresh_run C w [EReset 0, ENotify 0, ERegister 1] v" and flag: "\<not> ai_refreshing (rw_inner v)"
    and v: "rw_task v 0 = Returned r" "rw_task v 1 = Parked" "\<forall>t. 1 < t \<longrightarrow> rw_task v t = Outside"
    using announced_too_early [OF w(1,2), of C] w(3) by (metis refresh_pc.distinct(13))
  have "at_rest (rw_task v u)" for u
  proof (cases "1 < u")
    case False
    then have "u = 0 \<or> u = 1" by linarith
    with v show ?thesis by auto
  qed (use v(3) in simp)
  then have "\<forall>es' w'. refresh_run C v es' w' \<longrightarrow> list_all (\<lambda>e. \<not> opens_call e) es' \<longrightarrow>
      rw_task w' 1 = Parked \<or> rw_task w' 1 = Dropped"
    using at_rest_run [of C v _ _ 1] v(2) by blast
  then have stuck: "\<forall>es' w'. refresh_run C v es' w' \<longrightarrow> list_all (\<lambda>e. \<not> opens_call e) es' \<longrightarrow>
      rw_task w' 1 = Parked \<or> rw_task w' 1 = Dropped" .
  let ?es = "([ECall 0, ELock 0, ECall 1, ELock 1] @ es) @ [EReset 0, ENotify 0, ERegister 1]"
  have all: "refresh_run C (fresh_world i) ?es v" by (rule run_append [OF last run_append [OF es(1) start]])
  have events: "EReply 0 res \<in> set ?es" "ECall 1 \<in> set ?es" "\<forall>t. EDrop t \<notin> set ?es" using es(2,3) by auto
  show ?thesis
    by (intro exI [of _ ?es] exI [of _ v] conjI; (rule all events exI v(1) flag v(2) stuck)+)
qed

lemma lost_wakeup_witness:
  "\<forall>C. \<exists>es w. refresh_run C (fresh_world sample_inner) es w \<and> EReply 0 (Inl ''down'') \<in> set es \<and> ECall 1 \<in> set es \<and>
     rw_task w 1 = Parked \<and> (\<forall>es' w' r. refresh_run C w es' w' \<longrightarrow> list_all (\<lambda>e. \<not> opens_call e) es' \<longrightarrow>
        rw_task w' 1 \<noteq> Returned r)"
proof
  fix C :: "'a crates"
  obtain es w where w: "refresh_run C (fresh_world sample_inner) es w" "EReply 0 (Inl ''down'') \<in> set es" "ECall 1 \<in> set es"
    "rw_task w 1 = Parked" and stuck: "\<And>es' w'. refresh_run C w es' w' \<Longrightarrow> list_all (\<lambda>e. \<not> opens_call e) es' \<Longrightarrow>
        rw_task w' 1 = Parked \<or> rw_task w' 1 = Dropped"
    using lost_wakeup [OF sample_new, of C "Inl ''down''"] by blast
  have "rw_task w' 1 \<noteq> Returned r" if "refresh_run C w es' w'" "list_all (\<lambda>e. \<not> opens_call e) es'" for es' w' r
    using stuck [OF that] by auto
  with w show "\<exists>es w. refresh_run C (fresh_world sample_inner) es w \<and> EReply 0 (Inl ''down'') \<in> set es \<and> ECall 1 \<in> set es \<and>
     rw_task w 1 = Parked \<and> (\<forall>es' w' r. refresh_run C w es' w' \<longrightarrow> list_all (\<lambda>e. \<not> opens_call e) es' \<longrightarrow>
        rw_task w' 1 \<noteq> Returned r)"
    by blast
qed

end
