(* ===== verification/Spec2Isabelle.thy ===== *)
theory Spec2Isabelle
  imports Session_Loss Session_Blocked Session_Stranded Session_Rate Codec_Correct Queue_Correct Control_Correct Services_Correct
    Refresh_Correct
begin

text \<open>
  The PickPoint Rust SDK (the crate under \<^verbatim>\<open>src/\<close>): a client for a public HTTP API and a
  client for a binary tracking protocol over a websocket. This library models both from the
  source files under \<^verbatim>\<open>src/src/\<close> and proves what makes them correct.

  \<^bold>\<open>The program.\<close> The HTTP side is one transport (\<^verbatim>\<open>transport.rs\<close>: a request with retries)
  over a credential (\<^verbatim>\<open>auth.rs\<close>: a key, a fixed token, or a pair of tokens that the client
  refreshes), with thin services on top (\<^verbatim>\<open>geocoding.rs\<close>, \<^verbatim>\<open>address.rs\<close>,
  \<^verbatim>\<open>routing.rs\<close>, \<^verbatim>\<open>devices.rs\<close>, \<^verbatim>\<open>mint.rs\<close>, assembled by
  \<^verbatim>\<open>client.rs\<close> from \<^verbatim>\<open>config.rs\<close>). The tracking side (\<^verbatim>\<open>tracking/\<close>)
  takes samples from a device: a noise filter (\<^verbatim>\<open>filter.rs\<close>) and a rate gate
  (\<^verbatim>\<open>rate.rs\<close>) let some pass, an offline queue (\<^verbatim>\<open>queue.rs\<close>) numbers them and
  keeps them until they are acknowledged, a codec (\<^verbatim>\<open>codec.rs\<close>, over \<^verbatim>\<open>types.rs\<close>,
  \<^verbatim>\<open>cmd.rs\<close>, \<^verbatim>\<open>errors.rs\<close>) writes them into frames, and the client
  (\<^verbatim>\<open>client.rs\<close>) sends these over sockets that it opens again after a loss
  (\<^verbatim>\<open>backoff.rs\<close>, \<^verbatim>\<open>url.rs\<close>).

  \<^bold>\<open>How it is modelled.\<close> Machine integers are words, \<^verbatim>\<open>usize\<close> counts are \<open>nat\<close>;
  signed and unsigned overflow wraps as in a release build. \<^verbatim>\<open>f64\<close> is IEEE 754 binary64 on bit
  patterns, computed through exact rationals. \<^verbatim>\<open>Result\<close> is a sum with the error on the left,
  a panic or a missing value is \<open>None\<close>. Text is a list of bytes (UTF-8 is an invariant where the
  code checks it). Durations and instants are nanoseconds. A mutex-protected state is a record;
  each critical section is one function on it, an \<^verbatim>\<open>async\<close> call is a sequence of sections,
  and concurrent calls are a step relation that interleaves the sections freely. What the
  environment decides (replies, bytes received, clock readings, random draws, which task runs
  next) is an input of each step, so the theorems hold for every environment.

  \<^bold>\<open>The theories.\<close>
  \<^item> \<open>Prelude\<close>: names of the integer types, the \<^verbatim>\<open>?\<close> operator, saturating arithmetic, list lemmas.
  \<^item> \<open>Float64\<close>, \<open>Float64_Laws\<close>: the float type and its laws (exactness, monotone rounding, error).
  \<^item> \<open>Tracking_Types\<close>: \<^verbatim>\<open>types.rs\<close>, \<^verbatim>\<open>cmd.rs\<close>, \<^verbatim>\<open>errors.rs\<close>.
  \<^item> \<open>Wire\<close>: bytes, the reader \<^verbatim>\<open>R\<close> and the writers; the locales \<open>wire_reader\<close> (appended
    bytes change nothing) and \<open>wire_field\<close> (what was written is read back), interpreted for every
    primitive field. \<open>Loc_Codec\<close>, \<open>Loc_Laws\<close>: samples and Loc frames. \<open>Client_Codec\<close>,
    \<open>Server_Codec\<close>: the two message enums. \<open>Codec_Correct\<close>: round trips, validity of whatever is
    decoded, and the two losses (batches above 100 samples, texts cut inside a character).
  \<^item> \<open>Noise_Filter\<close>, \<open>Backoff\<close>, \<open>Rate\<close>, \<open>Ws_Url\<close>: the small components; \<open>Control_Correct\<close>: their
    properties.
  \<^item> \<open>Offline_Queue\<close>: the queue with its locale \<open>capped_buffer\<close>; \<open>Queue_Correct\<close>: the refinement
    of a first-in first-out channel, and what a full queue evicts.
  \<^item> \<open>Session\<close>: the state \<^verbatim>\<open>Inner\<close> and the sections of connecting; \<open>Session_Ops\<close>: the sections
    of sending, receiving and the public calls; \<open>Session_Steps\<close>: the tasks and their steps (\<open>exec\<close>);
    \<open>Session_Sched\<close>: a scheduler that runs concrete schedules by evaluation.
  \<^item> \<open>Session_Kept\<close>: the locales \<open>kept\<close> and \<open>queue_kept\<close>, a property that every section keeps
    holds along every run; \<open>Session_Inv\<close>: the four invariants, as interpretations; \<open>Session_Flush\<close>:
    \<^verbatim>\<open>flush_queue\<close> as a terminating function; \<open>Session_Correct\<close> and \<open>Session_Loss\<close>: what
    holds of every interleaving, and how samples are lost or numbered twice;
    \<open>Session_Conserve\<close>: which steps may take a sample out of the client, and that no other does;
    \<open>Session_Blocked\<close>: a full window across re-dials, and a failed automatic start, over whole runs;
    \<open>Session_Stranded\<close>: the failed dial after new credentials, after which nothing connects a client
    again; \<open>Session_Rate\<close>: the publish gate along every schedule. In these runs \<^verbatim>\<open>flush_queue\<close> is
    the tasks \<open>FlushQueue\<close> and \<open>FlushSend\<close>, interleaved with all others; the function of
    \<open>Session_Flush\<close> is one flush that nothing interrupts.
  \<^item> \<open>Http_Types\<close>: \<^verbatim>\<open>error.rs\<close>, \<^verbatim>\<open>config.rs\<close> and the environment of an HTTP run;
    \<open>Http_Auth\<close>: \<^verbatim>\<open>auth.rs\<close>, with the trait \<^verbatim>\<open>TokenSession\<close> as the locale
    \<open>token_session\<close>; \<open>Http_Transport\<close>: \<^verbatim>\<open>transport.rs\<close>; \<open>Http_Correct\<close>: how many requests
    one call makes and what its outcome means, proved inside the locale and carried over to the
    sessions of the code. \<open>Http_Services\<close>, \<open>Services_Correct\<close>: settings, services and batches.
  \<^item> \<open>Http_Refresh\<close>, \<open>Refresh_Correct\<close>: concurrent callers of \<^verbatim>\<open>refresh\<close>, single flight, and
    the three ways in which waiting goes wrong; a lone caller refines to the sequential refresh that
    the transport uses.

  \<^bold>\<open>Loops and bounds.\<close> Every function here is total. The loops of the code that need an argument:
  \<^verbatim>\<open>enforce_cap\<close> decreases the size of the queue; every turn of \<^verbatim>\<open>flush_queue\<close> that
  goes on fills part of the window of eight frames; the request loop
  raises the attempt counter or uses up its one refresh; the loop of a batch consumes its stream; the
  frame splitter takes at least one sample per frame. The client itself runs for ever: it is a step
  relation, and its properties are invariants of all runs. Where a property of numbering asks for it,
  the last number is 1000 below the end of the 64-bit range.

  \<^bold>\<open>Parameters\<close> (code that is not in the repository): \<^verbatim>\<open>sin\<close>, \<^verbatim>\<open>cos\<close>,
  \<^verbatim>\<open>asin\<close> (\<open>libm\<close>), the uuid and url crates (with their documented laws as named
  hypotheses, shown satisfiable), and for HTTP the record \<open>crates\<close>: query and path encoding, header
  checks, reason phrases, base64 and JSON, with no law assumed at all. \<^verbatim>\<open>buffer_unordered\<close> of
  the futures crate is a parameter of the batches, with the law \<open>buffers_all\<close>: every result once.

  \<^bold>\<open>Not modelled.\<close> \<^verbatim>\<open>lib.rs\<close> and \<^verbatim>\<open>tracking/mod.rs\<close> only declare modules. The socket
  itself, TLS, task spawning and timers are the environment. Reading and writing JSON is
  \<^verbatim>\<open>serde\<close>'s derived code. Of the calls that share one credential, \<open>Http_Refresh\<close>
  interleaves the refreshes; in one call of \<open>Http_Transport\<close> the other callers are part of the
  environment, which says how a wait for another caller's refresh ended (\<open>wait_end\<close>). Debug output and the
  getters that return handles to parts of the client carry no behaviour.

  \<^bold>\<open>What modelling showed.\<close> Behaviours that differ from what the code means to do are theorems of
  their own, each with a concrete run: in \<open>Session_Loss\<close> (a live sample marks the backlog as sent; a
  second TrackStarted repeats a number), in \<open>Session_Blocked\<close> (a re-dial keeps a full window; a failed
  automatic start blocks later ones), in \<open>Session_Stranded\<close> (a failed dial after new credentials is
  never repeated), in \<open>Queue_Correct\<close> (a push into a queue filled by samples in flight drops itself),
  in \<open>Codec_Correct\<close> (dropped batches, cut texts) and in \<open>Refresh_Correct\<close> (a dropped leader blocks
  every later refresh; a waiter reports success after a failure; a lost wake-up).
\<close>

end
